(* ===== verification/Prelude.thy ===== *)
theory Prelude
  imports Main "HOL-Library.Word" "HOL-Library.Sublist"
begin

text \<open>
  Shared vocabulary of the development.

  \<^item> Rust's \<^verbatim>\<open>Result<T, E>\<close> is the sum \<^typ>\<open>'e + 'a\<close> with \<^const>\<open>Inl\<close> for
    \<^verbatim>\<open>Err\<close>; the \<^verbatim>\<open>?\<close> operator is \<open>and_then\<close>, an early \<^verbatim>\<open>return Err(..)\<close> behind a
    condition is \<open>ensure\<close>, and a \<^verbatim>\<open>for\<close> loop whose body may fail is \<open>try_fold\<close>.
  \<^item> \<^verbatim>\<open>u64\<close> and \<^verbatim>\<open>u32\<close> values are words, because byte counters come from untrusted
    archives and saturate; \<^verbatim>\<open>usize\<close> values that count elements held in memory are
    \<^typ>\<open>nat\<close>.
  \<^item> \<^verbatim>\<open>str\<close>, \<^verbatim>\<open>String\<close> and byte slices are \<^typ>\<open>string\<close>: a list of bytes, UTF-8 encoded
    for \<^verbatim>\<open>str\<close>, so \<^const>\<open>length\<close> is \<^verbatim>\<open>len()\<close>.
\<close>

named_theorems result_simps \<open>inversion of results: when does a chain of fallible steps succeed\<close>
named_theorems str_simps \<open>facts on byte strings\<close>

type_synonym u64 = "64 word"
type_synonym u32 = "32 word"
type_synonym usize = nat
type_synonym ('a, 'e) result = "'e + 'a"
type_synonym bytes = string

section \<open>Results\<close>

definition and_then :: "('a, 'e) result \<Rightarrow> ('a \<Rightarrow> ('b, 'e) result) \<Rightarrow> ('b, 'e) result" where
  "and_then r f = (case r of Inl e \<Rightarrow> Inl e | Inr x \<Rightarrow> f x)"

definition ensure :: "bool \<Rightarrow> 'e \<Rightarrow> (unit, 'e) result" where
  "ensure b e = (if b then Inr () else Inl e)"

definition map_err :: "('e \<Rightarrow> 'f) \<Rightarrow> ('a, 'e) result \<Rightarrow> ('a, 'f) result" where
  "map_err g r = (case r of Inl e \<Rightarrow> Inl (g e) | Inr x \<Rightarrow> Inr x)"

definition ok_or :: "'a option \<Rightarrow> 'e \<Rightarrow> ('a, 'e) result" where
  "ok_or x e = (case x of None \<Rightarrow> Inl e | Some v \<Rightarrow> Inr v)"

definition is_ok :: "('a, 'e) result \<Rightarrow> bool" where
  "is_ok r = (case r of Inl _ \<Rightarrow> False | Inr _ \<Rightarrow> True)"

text \<open>\<^verbatim>\<open>for x in xs { acc = step(acc, x)?; }\<close>\<close>

fun try_fold :: "('s \<Rightarrow> 'a \<Rightarrow> ('s, 'e) result) \<Rightarrow> 's \<Rightarrow> 'a list \<Rightarrow> ('s, 'e) result" where
  "try_fold step acc [] = Inr acc"
| "try_fold step acc (x # xs) = and_then (step acc x) (\<lambda>acc'. try_fold step acc' xs)"

text \<open>\<^verbatim>\<open>for x in xs { check(x)?; }\<close>\<close>

definition try_all :: "('a \<Rightarrow> (unit, 'e) result) \<Rightarrow> 'a list \<Rightarrow> (unit, 'e) result" where
  "try_all check xs = try_fold (\<lambda>_. check) () xs"

lemma and_then_simps [simp]:
  "and_then (Inl e) f = Inl e" "and_then (Inr x) f = f x"
  by (simp_all add: and_then_def)

lemma and_then_Inr_iff [result_simps]:
  "and_then r f = Inr y \<longleftrightarrow> (\<exists>x. r = Inr x \<and> f x = Inr y)"
  by (cases r) auto

lemma and_then_Inl_iff:
  "and_then r f = Inl e \<longleftrightarrow> r = Inl e \<or> (\<exists>x. r = Inr x \<and> f x = Inl e)"
  by (cases r) auto

lemma and_then_assoc: "and_then (and_then r f) g = and_then r (\<lambda>x. and_then (f x) g)"
  by (cases r) auto

lemma ensure_Inr_iff [result_simps]: "ensure b e = Inr u \<longleftrightarrow> b"
  by (simp add: ensure_def)

lemma ensure_Inl_iff [result_simps]: "ensure b e = Inl e' \<longleftrightarrow> \<not> b \<and> e' = e"
  by (auto simp: ensure_def)

lemma ensure_simps [simp]: "ensure True e = Inr ()" "ensure False e = Inl e"
  by (simp_all add: ensure_def)

lemma map_err_simps [simp]: "map_err g (Inl e) = Inl (g e)" "map_err g (Inr x) = Inr x"
  by (simp_all add: map_err_def)

lemma map_err_Inr_iff [result_simps]: "map_err g r = Inr x \<longleftrightarrow> r = Inr x"
  by (cases r) auto

lemma ok_or_simps [simp]: "ok_or None e = Inl e" "ok_or (Some x) e = Inr x"
  by (simp_all add: ok_or_def)

lemma ok_or_Inr_iff [result_simps]: "ok_or x e = Inr y \<longleftrightarrow> x = Some y"
  by (cases x) auto

lemma is_ok_simps [simp]: "\<not> is_ok (Inl e)" "is_ok (Inr x)"
  by (simp_all add: is_ok_def)

lemma is_ok_iff: "is_ok r \<longleftrightarrow> (\<exists>x. r = Inr x)"
  by (cases r) auto

lemma is_ok_ensure [simp]: "is_ok (ensure b e) = b"
  by (simp add: ensure_def)

lemma is_ok_and_then: "is_ok (and_then r f) \<longleftrightarrow> (\<exists>x. r = Inr x \<and> is_ok (f x))"
  by (cases r) auto

lemma try_fold_append:
  "try_fold step acc (xs @ ys) = and_then (try_fold step acc xs) (\<lambda>acc'. try_fold step acc' ys)"
  by (induction xs arbitrary: acc) (auto simp: and_then_assoc)

lemma try_all_simps [simp]:
  "try_all check [] = Inr ()"
  "try_all check (x # xs) = and_then (check x) (\<lambda>_. try_all check xs)"
  by (simp_all add: try_all_def)

lemma try_all_Inr_iff [result_simps]:
  "try_all check xs = Inr u \<longleftrightarrow> (\<forall>x\<in>set xs. check x = Inr ())"
  by (induction xs) (auto simp: result_simps)

text \<open>A property kept by every successful iteration holds of the loop's result.\<close>

lemma try_fold_invariant:
  assumes "try_fold step acc xs = Inr acc'" and "I acc"
    and "\<And>a x a'. x \<in> set xs \<Longrightarrow> I a \<Longrightarrow> step a x = Inr a' \<Longrightarrow> I a'"
  shows "I acc'"
  using assms
proof (induction xs arbitrary: acc)
  case Nil
  then show ?case by simp
next
  case (Cons x xs)
  from Cons.prems(1) obtain a where a: "step acc x = Inr a" "try_fold step a xs = Inr acc'"
    by (auto simp: result_simps)
  have "I a" using Cons.prems(2,3) a(1) by auto
  then show ?case using Cons.IH [OF a(2)] Cons.prems(3) by auto
qed

lemma try_fold_all:
  assumes "try_fold step acc xs = Inr acc'" and "x \<in> set xs"
  shows "\<exists>a a'. step a x = Inr a'"
  using assms by (induction xs arbitrary: acc) (auto simp: result_simps)

section \<open>Machine integers\<close>

definition saturating_add :: "'w::len word \<Rightarrow> 'w word \<Rightarrow> 'w word" where
  "saturating_add a b = (if unat a + unat b < 2 ^ LENGTH('w) then a + b else - 1)"

definition saturating_sub :: "'w::len word \<Rightarrow> 'w word \<Rightarrow> 'w word" where
  "saturating_sub a b = (if b \<le> a then a - b else 0)"

definition checked_add :: "'w::len word \<Rightarrow> 'w word \<Rightarrow> 'w word option" where
  "checked_add a b = (if unat a + unat b < 2 ^ LENGTH('w) then Some (a + b) else None)"

lemma unat_saturating_add:
  "unat (saturating_add a (b :: 'w::len word)) = min (unat a + unat b) (2 ^ LENGTH('w) - 1)"
  by (auto simp: saturating_add_def unat_word_ariths unsigned_minus_1_eq_mask
      mask_eq_exp_minus_1 min_def)

lemma unat_saturating_sub: "unat (saturating_sub a b) = unat a - unat b"
  by (auto simp: saturating_sub_def unat_sub word_le_nat_alt)

lemma checked_add_SomeD: "checked_add a b = Some c \<Longrightarrow> unat c = unat a + unat b"
  by (auto simp: checked_add_def unat_word_ariths split: if_splits)

text \<open>
  Below a limit the saturating sum is the exact sum: a saturated counter is the largest word,
  so it can only pass the check when the limit is the largest word itself.
\<close>

lemma saturating_add_le_limit:
  assumes "saturating_add a b \<le> limit" and "unat limit < 2 ^ LENGTH('w) - 1"
  shows "unat (saturating_add a (b :: 'w::len word)) = unat a + unat b"
    and "unat a + unat b \<le> unat limit"
proof -
  from assms have "min (unat a + unat b) (2 ^ LENGTH('w) - 1) \<le> unat limit"
    by (simp add: word_le_nat_alt unat_saturating_add)
  with assms(2) have "unat a + unat b < 2 ^ LENGTH('w) - 1" by simp
  with assms show "unat (saturating_add a b) = unat a + unat b"
    and "unat a + unat b \<le> unat limit"
    by (simp_all add: word_le_nat_alt unat_saturating_add)
qed

end
