(* ===== verification/Rust_Str.thy ===== *)
theory Rust_Str
  imports Prelude
begin

text \<open>
  What the sources use of Rust's standard library on byte strings and paths: the
  \<^verbatim>\<open>is_ascii_*\<close> classes, \<^verbatim>\<open>to_ascii_lowercase\<close>, \<^verbatim>\<open>split\<close> and \<^verbatim>\<open>join\<close> at a separator,
  \<^verbatim>\<open>trim\<close>, decimal formatting and parsing, and \<^verbatim>\<open>std::path::Path::components\<close> on Unix.
\<close>

section \<open>Character classes and ASCII case\<close>

abbreviation byte :: "char \<Rightarrow> nat" where
  "byte c \<equiv> of_char c"

definition is_ascii_digit :: "char \<Rightarrow> bool" where
  "is_ascii_digit c = (48 \<le> byte c \<and> byte c \<le> 57)"

definition is_ascii_uppercase :: "char \<Rightarrow> bool" where
  "is_ascii_uppercase c = (65 \<le> byte c \<and> byte c \<le> 90)"

definition is_ascii_lowercase :: "char \<Rightarrow> bool" where
  "is_ascii_lowercase c = (97 \<le> byte c \<and> byte c \<le> 122)"

definition is_ascii_alphanumeric :: "char \<Rightarrow> bool" where
  "is_ascii_alphanumeric c = (is_ascii_digit c \<or> is_ascii_uppercase c \<or> is_ascii_lowercase c)"

definition is_ascii_control :: "char \<Rightarrow> bool" where
  "is_ascii_control c = (byte c < 32 \<or> byte c = 127)"

definition is_ascii :: "string \<Rightarrow> bool" where
  "is_ascii s = list_all (\<lambda>c. byte c < 128) s"

definition ascii_lower :: "char \<Rightarrow> char" where
  "ascii_lower c = (if is_ascii_uppercase c then char_of (byte c + 32) else c)"

definition to_ascii_lowercase :: "string \<Rightarrow> string" where
  "to_ascii_lowercase s = map ascii_lower s"

definition eq_ignore_ascii_case :: "string \<Rightarrow> string \<Rightarrow> bool" where
  "eq_ignore_ascii_case s t = (to_ascii_lowercase s = to_ascii_lowercase t)"

lemmas ascii_class_defs =
  is_ascii_digit_def is_ascii_uppercase_def is_ascii_lowercase_def is_ascii_alphanumeric_def

lemma byte_ascii_lower: "byte (ascii_lower c) = (if is_ascii_uppercase c then byte c + 32 else byte c)"
  by (auto simp: ascii_lower_def is_ascii_uppercase_def)

lemma ascii_lower_idem [simp]: "ascii_lower (ascii_lower c) = ascii_lower c"
  by (simp add: ascii_lower_def is_ascii_uppercase_def)

lemma ascii_lower_eq_fixed:
  assumes "\<not> is_ascii_lowercase d" and "\<not> is_ascii_uppercase d"
  shows "ascii_lower c = d \<longleftrightarrow> c = d"
proof
  assume eq: "ascii_lower c = d"
  show "c = d"
  proof (cases "is_ascii_uppercase c")
    case True
    with eq have "byte d = byte c + 32" using byte_ascii_lower [of c] by simp
    with True assms(1) show ?thesis by (simp add: is_ascii_lowercase_def is_ascii_uppercase_def)
  next
    case False
    with eq show ?thesis by (simp add: ascii_lower_def)
  qed
next
  assume "c = d"
  with assms(2) show "ascii_lower c = d" by (simp add: ascii_lower_def)
qed

lemma ascii_lower_slash [simp]: "ascii_lower c = CHR ''/'' \<longleftrightarrow> c = CHR ''/''"
  by (rule ascii_lower_eq_fixed) (simp_all add: ascii_class_defs)

lemma to_ascii_lowercase_idem [simp]:
  "to_ascii_lowercase (to_ascii_lowercase s) = to_ascii_lowercase s"
  by (simp add: to_ascii_lowercase_def)

lemma to_ascii_lowercase_simps [simp]:
  "to_ascii_lowercase [] = []"
  "to_ascii_lowercase (c # s) = ascii_lower c # to_ascii_lowercase s"
  "to_ascii_lowercase (s @ t) = to_ascii_lowercase s @ to_ascii_lowercase t"
  "length (to_ascii_lowercase s) = length s"
  "to_ascii_lowercase s = [] \<longleftrightarrow> s = []"
  by (simp_all add: to_ascii_lowercase_def)

section \<open>Splitting and joining at a separator\<close>

text \<open>\<^verbatim>\<open>s.split(d)\<close>: the empty string has one, empty, part.\<close>

fun split_on :: "char \<Rightarrow> string \<Rightarrow> string list" where
  "split_on d [] = [[]]"
| "split_on d (c # cs) =
     (if c = d then [] # split_on d cs
      else (case split_on d cs of [] \<Rightarrow> [[c]] | p # ps \<Rightarrow> (c # p) # ps))"

fun join_with :: "char \<Rightarrow> string list \<Rightarrow> string" where
  "join_with d [] = []"
| "join_with d [p] = p"
| "join_with d (p # q # ps) = p @ d # join_with d (q # ps)"

lemma split_on_nonempty [simp]: "split_on d s \<noteq> []"
  by (cases s) (auto split: list.splits)

lemma join_split [simp]: "join_with d (split_on d s) = s"
proof (induction s)
  case (Cons c cs)
  then show ?case by (cases "split_on d cs"; cases "tl (split_on d cs)") auto
qed simp

lemma split_on_no_sep: "p \<in> set (split_on d s) \<Longrightarrow> d \<notin> set p"
  by (induction s arbitrary: p) (auto split: if_splits list.splits)

lemma split_on_append_sep: "split_on d (s @ d # t) = split_on d s @ split_on d t"
  by (induction s) (auto split: list.splits)

lemma split_on_single: "d \<notin> set p \<Longrightarrow> split_on d p = [p]"
  by (induction p) auto

lemma split_join:
  "ps \<noteq> [] \<Longrightarrow> (\<forall>p\<in>set ps. d \<notin> set p) \<Longrightarrow> split_on d (join_with d ps) = ps"
  by (induction d ps rule: join_with.induct) (auto simp: split_on_single split_on_append_sep)

lemma split_on_inj: "split_on d s = split_on d t \<longleftrightarrow> s = t"
  by (metis join_split)

lemma set_split_on: "p \<in> set (split_on d s) \<Longrightarrow> set p \<subseteq> set s"
  by (induction s arbitrary: p) (fastforce split: if_splits list.splits)+

lemma join_with_append:
  "ps \<noteq> [] \<Longrightarrow> qs \<noteq> [] \<Longrightarrow> join_with d (ps @ qs) = join_with d ps @ d # join_with d qs"
  by (induction d ps rule: join_with.induct) (auto simp: neq_Nil_conv)

lemma split_on_lower:
  "split_on (CHR ''/'') (to_ascii_lowercase s) = map to_ascii_lowercase (split_on (CHR ''/'') s)"
  by (induction s) (auto split: list.splits)

lemma join_with_lower:
  "to_ascii_lowercase (join_with (CHR ''/'') ps) = join_with (CHR ''/'') (map to_ascii_lowercase ps)"
  by (induction "CHR ''/''" ps rule: join_with.induct) (auto simp: ascii_lower_slash [THEN iffD2])

section \<open>White space\<close>

text \<open>
  Length in bytes of the white-space character (Unicode \<^verbatim>\<open>White_Space\<close>, as
  \<^verbatim>\<open>char::is_whitespace\<close>) at the front of a UTF-8 string, 0 if there is none.
\<close>

definition ws_len :: "string \<Rightarrow> nat" where
  "ws_len s =
     (let b = map byte (take 3 s) in
      if length b \<ge> 1 \<and> (9 \<le> b ! 0 \<and> b ! 0 \<le> 13 \<or> b ! 0 = 32) then 1
      else if length b \<ge> 2 \<and> b ! 0 = 194 \<and> (b ! 1 = 133 \<or> b ! 1 = 160) then 2
      else if length b \<ge> 3 \<and>
        (b = [225, 154, 128] \<or> b = [227, 128, 128] \<or> b = [226, 129, 159] \<or>
         (b ! 0 = 226 \<and> b ! 1 = 128 \<and>
           (128 \<le> b ! 2 \<and> b ! 2 \<le> 138 \<or> b ! 2 = 168 \<or> b ! 2 = 169 \<or> b ! 2 = 175))) then 3
      else 0)"

text \<open>The same at the end of the string, on its last three bytes.\<close>

definition ws_len_end :: "string \<Rightarrow> nat" where
  "ws_len_end s =
     (if ws_len (drop (length s - 1) s) = 1 then 1
      else if ws_len (drop (length s - 2) s) = 2 then 2
      else if ws_len (drop (length s - 3) s) = 3 then 3
      else 0)"

function trim_start :: "string \<Rightarrow> string" where
  "trim_start s = (if ws_len s = 0 \<or> s = [] then s else trim_start (drop (ws_len s) s))"
  by auto
termination by (relation "measure length") auto

function trim_end :: "string \<Rightarrow> string" where
  "trim_end s =
     (if ws_len_end s = 0 \<or> s = [] then s else trim_end (take (length s - ws_len_end s) s))"
  by auto
termination by (relation "measure length") auto

declare trim_start.simps [simp del] trim_end.simps [simp del]

definition trim :: "string \<Rightarrow> string" where
  "trim s = trim_end (trim_start s)"

definition strip_prefix :: "string \<Rightarrow> string \<Rightarrow> string option" where
  "strip_prefix p s = (if take (length p) s = p then Some (drop (length p) s) else None)"

definition strip_suffix :: "string \<Rightarrow> string \<Rightarrow> string option" where
  "strip_suffix p s =
     (if length p \<le> length s \<and> drop (length s - length p) s = p
      then Some (take (length s - length p) s) else None)"

lemma trim_Nil [simp]: "trim [] = []"
  by (simp add: trim_def trim_start.simps trim_end.simps)

lemma strip_prefix_Some_iff [str_simps]: "strip_prefix p s = Some t \<longleftrightarrow> s = p @ t"
  by (auto simp: strip_prefix_def) (metis append_take_drop_id)

lemma strip_suffix_Some_iff [str_simps]: "strip_suffix p s = Some t \<longleftrightarrow> s = t @ p"
  by (auto simp: strip_suffix_def) (metis append_take_drop_id)

section \<open>Decimal numbers\<close>

definition digit_char :: "nat \<Rightarrow> char" where
  "digit_char n = char_of (48 + n)"

definition digit_value :: "char \<Rightarrow> nat" where
  "digit_value c = byte c - 48"

text \<open>\<^verbatim>\<open>format!("{n}")\<close> for an unsigned number.\<close>

fun show_nat :: "nat \<Rightarrow> string" where
  "show_nat n = (if n < 10 then [digit_char n] else show_nat (n div 10) @ [digit_char (n mod 10)])"

declare show_nat.simps [simp del]

definition decimal_value :: "string \<Rightarrow> nat" where
  "decimal_value s = foldl (\<lambda>v c. v * 10 + digit_value c) 0 s"

text \<open>\<^verbatim>\<open>s.parse::<u64>()\<close>: one leading plus sign is accepted, overflow is an error.\<close>

definition parse_u64 :: "string \<Rightarrow> u64 option" where
  "parse_u64 s =
     (let t = (case strip_prefix ''+'' s of Some u \<Rightarrow> u | None \<Rightarrow> s) in
      if t \<noteq> [] \<and> list_all is_ascii_digit t \<and> decimal_value t < 2 ^ 64
      then Some (of_nat (decimal_value t)) else None)"

lemma digit_value_char [simp]: "n < 10 \<Longrightarrow> digit_value (digit_char n) = n"
  by (simp add: digit_value_def digit_char_def)

lemma is_ascii_digit_char [simp]: "n < 10 \<Longrightarrow> is_ascii_digit (digit_char n)"
  by (simp add: is_ascii_digit_def digit_char_def)

lemma digit_char_value: "is_ascii_digit c \<Longrightarrow> digit_char (digit_value c) = c"
  by (simp add: is_ascii_digit_def digit_char_def digit_value_def)

lemma digit_value_less: "is_ascii_digit c \<Longrightarrow> digit_value c < 10"
  by (auto simp: is_ascii_digit_def digit_value_def)

lemma decimal_value_snoc [simp]: "decimal_value (s @ [c]) = decimal_value s * 10 + digit_value c"
  by (simp add: decimal_value_def)

lemma decimal_value_Nil [simp]: "decimal_value [] = 0"
  by (simp add: decimal_value_def)

lemma show_nat_nonempty [simp]: "show_nat n \<noteq> []"
  by (subst show_nat.simps) simp

lemma decimal_value_show_nat [simp]: "decimal_value (show_nat n) = n"
proof (induction n rule: show_nat.induct)
  case (1 n)
  show ?case
  proof (cases "n < 10")
    case True
    then show ?thesis by (simp add: show_nat.simps [of n] decimal_value_def)
  next
    case False
    with 1 show ?thesis by (simp add: show_nat.simps [of n] div_mult_mod_eq)
  qed
qed

lemma show_nat_digits [simp]: "list_all is_ascii_digit (show_nat n)"
proof (induction n rule: show_nat.induct)
  case (1 n)
  then show ?case by (cases "n < 10") (simp_all add: show_nat.simps [of n])
qed

lemma digit_char_zero_iff: "n < 10 \<Longrightarrow> digit_char n = CHR ''0'' \<longleftrightarrow> n = 0"
proof -
  have "digit_char 0 = CHR ''0''" by code_simp
  moreover assume "n < 10"
  ultimately show ?thesis
    using digit_value_char [of n] by (auto simp: digit_value_def)
qed

lemma hd_show_nat: "hd (show_nat n) = CHR ''0'' \<longleftrightarrow> n = 0"
proof (induction n rule: show_nat.induct)
  case (1 n)
  show ?case
  proof (cases "n < 10")
    case True
    then show ?thesis by (simp add: show_nat.simps [of n] digit_char_zero_iff)
  next
    case False
    with 1 show ?thesis by (simp add: show_nat.simps [of n])
  qed
qed

lemma show_nat_zero: "show_nat 0 = ''0''"
  using digit_char_zero_iff [of 0] by (simp add: show_nat.simps)

text \<open>A digit string without a superfluous leading zero is the decimal form of its value.\<close>

lemma decimal_value_pos:
  "list_all is_ascii_digit s \<Longrightarrow> s \<noteq> [] \<Longrightarrow> hd s \<noteq> CHR ''0'' \<Longrightarrow> 0 < decimal_value s"
proof (induction s rule: rev_induct)
  case (snoc c s)
  show ?case
  proof (cases "s = []")
    case True
    with snoc.prems have "digit_value c \<noteq> 0"
      using digit_char_value [of c] digit_char_zero_iff [of "digit_value c"] digit_value_less [of c]
      by simp
    with True show ?thesis using decimal_value_snoc [of "[]" c] by simp
  next
    case False
    with snoc show ?thesis by simp
  qed
qed simp

lemma show_nat_decimal_value:
  assumes "list_all is_ascii_digit s" and "s \<noteq> []" and "length s > 1 \<Longrightarrow> hd s \<noteq> CHR ''0''"
  shows "show_nat (decimal_value s) = s"
  using assms
proof (induction s rule: rev_induct)
  case (snoc c s)
  then have c: "is_ascii_digit c" "digit_value c < 10" by (simp_all add: digit_value_less)
  show ?case
  proof (cases "s = []")
    case True
    with c show ?thesis using decimal_value_snoc [of "[]" c]
      by (simp add: show_nat.simps digit_char_value)
  next
    case False
    with snoc.prems have hd: "hd s \<noteq> CHR ''0''" and digits: "list_all is_ascii_digit s"
      by simp_all
    from decimal_value_pos [OF digits False hd] have "\<not> decimal_value (s @ [c]) < 10" by simp
    with c hd digits False snoc.IH show ?thesis
      by (simp add: show_nat.simps [of "decimal_value s * 10 + digit_value c"] digit_char_value)
  qed
qed simp

text \<open>
  \<^verbatim>\<open>format!("{s:?}")\<close> of an ASCII string; other bytes are copied.
\<close>

definition hex_digit :: "nat \<Rightarrow> char" where
  "hex_digit n = char_of (if n < 10 then 48 + n else 87 + n)"

definition escape_debug :: "char \<Rightarrow> string" where
  "escape_debug c =
     (if c = CHR 0x00 then [CHR 0x5C, CHR ''0'']
      else if c = CHR 0x09 then [CHR 0x5C, CHR ''t'']
      else if c = CHR 0x0D then [CHR 0x5C, CHR ''r'']
      else if c = CHR 0x0A then [CHR 0x5C, CHR ''n'']
      else if c = CHR 0x22 \<or> c = CHR 0x5C then [CHR 0x5C, c]
      else if is_ascii_control c
      then [CHR 0x5C, CHR ''u'', CHR ''{''] @ (if byte c < 16 then [] else [hex_digit (byte c div 16)])
             @ [hex_digit (byte c mod 16), CHR ''}'']
      else [c])"

definition debug_str :: "string \<Rightarrow> string" where
  "debug_str s = CHR 0x22 # concat (map escape_debug s) @ [CHR 0x22]"

section \<open>UTF-8\<close>

text \<open>
  One step of \<^verbatim>\<open>std::str::from_utf8\<close>: how many bytes form the character at the front, or, if
  none does, how many bytes the maximal ill-formed prefix has.
\<close>

definition byte_at :: "string \<Rightarrow> nat \<Rightarrow> nat" where
  "byte_at s k = (if k < length s then byte (s ! k) else 0)"

definition utf8_step :: "string \<Rightarrow> nat \<times> bool" where
  "utf8_step s =
     (let a = byte_at s 0; b = byte_at s 1;
          cont = (\<lambda>k. 128 \<le> byte_at s k \<and> byte_at s k \<le> 191);
          lo = (if a = 224 then 160 else if a = 240 then 144 else 128);
          hi = (if a = 237 then 159 else if a = 244 then 143 else 191);
          second = (lo \<le> b \<and> b \<le> hi)
      in
      if a < 128 then (1, True)
      else if 194 \<le> a \<and> a \<le> 223 then (if cont 1 then (2, True) else (1, False))
      else if 224 \<le> a \<and> a \<le> 239 then
        (if \<not> second then (1, False) else if cont 2 then (3, True) else (2, False))
      else if 240 \<le> a \<and> a \<le> 244 then
        (if \<not> second then (1, False) else if \<not> cont 2 then (2, False)
         else if cont 3 then (4, True) else (3, False))
      else (1, False))"

lemma utf8_step_pos [simp]: "0 < fst (utf8_step s)"
  by (simp add: utf8_step_def Let_def)

function is_utf8 :: "string \<Rightarrow> bool" where
  "is_utf8 s = (if s = [] then True else snd (utf8_step s) \<and> is_utf8 (drop (fst (utf8_step s)) s))"
  by auto
termination by (relation "measure length") (auto simp: diff_less)

function from_utf8_lossy :: "string \<Rightarrow> string" where
  "from_utf8_lossy s =
     (if s = [] then []
      else (if snd (utf8_step s) then take (fst (utf8_step s)) s else [CHR 0xEF, CHR 0xBF, CHR 0xBD])
        @ from_utf8_lossy (drop (fst (utf8_step s)) s))"
  by auto
termination by (relation "measure length") (auto simp: diff_less)

declare is_utf8.simps [simp del] from_utf8_lossy.simps [simp del]

lemma ascii_is_utf8: "is_ascii s \<Longrightarrow> is_utf8 s"
proof (induction s)
  case (Cons c s)
  then have "utf8_step (c # s) = (1, True)"
    by (simp add: utf8_step_def Let_def byte_at_def is_ascii_def)
  with Cons show ?case by (simp add: is_utf8.simps [of "c # s"] is_ascii_def)
qed (simp add: is_utf8.simps)

text \<open>\<^verbatim>\<open>str::lines\<close>: parts ended by a line feed, without it and without a carriage return before
  it, and a last part that is not empty.\<close>

definition lines :: "string \<Rightarrow> string list" where
  "lines s =
     (let ps = split_on (CHR 0x0A) s in
      map (\<lambda>p. case strip_suffix [CHR 0x0D] p of Some q \<Rightarrow> q | None \<Rightarrow> p) (butlast ps)
      @ (if last ps = [] then [] else [last ps]))"

text \<open>\<^verbatim>\<open>trim_end_matches\<close> for a set of characters.\<close>

definition trim_end_matches :: "char list \<Rightarrow> string \<Rightarrow> string" where
  "trim_end_matches cs s = rev (dropWhile (\<lambda>c. c \<in> set cs) (rev s))"

section \<open>Paths\<close>

text \<open>\<^verbatim>\<open>std::path::Component\<close> on Unix (a \<^verbatim>\<open>Prefix\<close> never occurs there).\<close>

datatype path_component = RootDir | CurDir | ParentDir | Normal string

definition is_absolute :: "string \<Rightarrow> bool" where
  "is_absolute s = (take 1 s = ''/'')"

definition parse_component :: "string \<Rightarrow> path_component option" where
  "parse_component p =
     (if p = [] \<or> p = ''.'' then None else if p = ''..'' then Some ParentDir else Some (Normal p))"

text \<open>
  \<^verbatim>\<open>Path::components\<close>: repeated separators and inner \<open>.\<close> are skipped, a leading \<open>.\<close> of a
  relative path is kept as \<^const>\<open>CurDir\<close>.
\<close>

definition components :: "string \<Rightarrow> path_component list" where
  "components s =
     (let ps = split_on (CHR ''/'') s in
      (if is_absolute s then [RootDir] else if hd ps = ''.'' then [CurDir] else [])
      @ List.map_filter parse_component ps)"

text \<open>\<^verbatim>\<open>Path::starts_with\<close> compares whole components; \<^verbatim>\<open>Path::join\<close> replaces the base when
  the second path is absolute.\<close>

definition path_starts_with :: "string \<Rightarrow> string \<Rightarrow> bool" where
  "path_starts_with s base = prefix (components base) (components s)"

definition path_join :: "string \<Rightarrow> string \<Rightarrow> string" where
  "path_join base s =
     (if is_absolute s then s
      else if base = [] \<or> last base = CHR ''/'' then base @ s
      else base @ CHR ''/'' # s)"

lemma ParentDir_in_components:
  "ParentDir \<in> set (components s) \<longleftrightarrow> ''..'' \<in> set (split_on (CHR ''/'') s)"
  by (force simp: components_def Let_def List.map_filter_def parse_component_def)

lemma RootDir_in_components: "RootDir \<in> set (components s) \<longleftrightarrow> is_absolute s"
  by (auto simp: components_def Let_def List.map_filter_def parse_component_def split: if_splits)

lemma filter_components:
  assumes "\<not> is_absolute s"
  shows "filter (\<lambda>c. c \<noteq> CurDir) (components s)
    = List.map_filter parse_component (split_on (CHR ''/'') s)"
proof -
  have "c \<noteq> CurDir" if "c \<in> set (List.map_filter parse_component ps)" for c ps
    using that by (auto simp: List.map_filter_def parse_component_def split: if_splits)
  then show ?thesis using assms by (auto simp: components_def Let_def intro: filter_True)
qed

lemma components_join:
  assumes "base \<noteq> []" and "\<not> is_absolute s"
  shows "components (path_join base s) = components base @ filter (\<lambda>c. c \<noteq> CurDir) (components s)"
proof (cases "last base = CHR ''/''")
  case True
  then obtain b where b: "base = b @ ''/''" using assms(1)
    by (metis append_butlast_last_id)
  have *: "hd (split_on (CHR ''/'') (b @ CHR ''/'' # s)) = hd (split_on (CHR ''/'') (b @ ''/''))"
    by (simp add: split_on_append_sep)
  have **: "is_absolute (b @ CHR ''/'' # s) = is_absolute (b @ ''/'')"
    by (cases b) (auto simp: is_absolute_def)
  show ?thesis using assms b * ** filter_components [of s]
    by (simp add: path_join_def components_def Let_def split_on_append_sep List.map_filter_def
        parse_component_def)
next
  case False
  have **: "is_absolute (base @ CHR ''/'' # s) = is_absolute base" using assms(1)
    by (cases base) (auto simp: is_absolute_def)
  show ?thesis using assms False ** filter_components [of s]
    by (simp add: path_join_def components_def Let_def split_on_append_sep List.map_filter_def)
qed

lemma is_absolute_iff: "is_absolute s \<longleftrightarrow> (\<exists>t. s = CHR ''/'' # t)"
  by (cases s) (auto simp: is_absolute_def)

text \<open>A path all of whose parts are plain names.\<close>

definition plain_name :: "string \<Rightarrow> bool" where
  "plain_name c = (c \<noteq> [] \<and> c \<noteq> ''.'' \<and> c \<noteq> ''..'')"

lemma map_filter_plain:
  "\<forall>c\<in>set ps. plain_name c \<Longrightarrow> List.map_filter parse_component ps = map Normal ps"
  by (induction ps) (simp_all add: List.map_filter_def parse_component_def plain_name_def)

lemma plain_not_absolute:
  assumes "\<forall>c\<in>set (split_on (CHR ''/'') s). plain_name c"
  shows "\<not> is_absolute s"
proof
  assume "is_absolute s"
  then obtain t where "s = CHR ''/'' # t" by (auto simp: is_absolute_iff)
  with assms show False by (simp add: plain_name_def)
qed

lemma components_plain:
  assumes "\<forall>c\<in>set (split_on (CHR ''/'') s). plain_name c"
  shows "components s = map Normal (split_on (CHR ''/'') s)"
proof -
  have "plain_name (hd (split_on (CHR ''/'') s))" using assms by simp
  then show ?thesis using plain_not_absolute [OF assms] map_filter_plain [OF assms]
    by (simp add: components_def Let_def plain_name_def)
qed

lemma plain_ends:
  assumes parts: "\<forall>c\<in>set (split_on (CHR ''/'') s). c \<noteq> []"
  shows "s \<noteq> [] \<and> hd s \<noteq> CHR ''/'' \<and> last s \<noteq> CHR ''/''"
proof -
  from parts have "s \<noteq> []" by auto
  moreover have "hd s \<noteq> CHR ''/''"
  proof
    assume "hd s = CHR ''/''"
    with \<open>s \<noteq> []\<close> obtain t where "s = CHR ''/'' # t" by (metis list.collapse)
    with parts show False by simp
  qed
  moreover have "last s \<noteq> CHR ''/''"
  proof
    assume "last s = CHR ''/''"
    with \<open>s \<noteq> []\<close> obtain b where "s = b @ CHR ''/'' # []" by (metis append_butlast_last_id)
    with parts show False by (simp add: split_on_append_sep)
  qed
  ultimately show ?thesis by simp
qed

end
