(* ===== verification/Bearer_Token.thy ===== *)
theory Bearer_Token
  imports Rust_Str
begin

text \<open>
  Bearer tokens (\<^verbatim>\<open>src/bearer_token.rs\<close>): the scanner for RFC 6750 \<^verbatim>\<open>b64token\<close>s and the
  credential-file framing, with the proof that the scanner accepts exactly the grammar.
\<close>

definition MAX_BEARER_TOKEN_FILE_BYTES :: usize where
  "MAX_BEARER_TOKEN_FILE_BYTES = 4096"

datatype invalid_bearer_token = InvalidBearerToken

definition base_character :: "char \<Rightarrow> bool" where
  "base_character c = (is_ascii_alphanumeric c \<or> c \<in> set ''-._~+/'')"

text \<open>The loop body: the state is \<^verbatim>\<open>(seen_base_character, padding)\<close>.\<close>

fun scan_byte :: "bool \<times> bool \<Rightarrow> char \<Rightarrow> (bool \<times> bool, invalid_bearer_token) result" where
  "scan_byte (seen_base_character, padding) c =
     (if base_character c \<and> \<not> padding then Inr (True, padding)
      else if c = CHR ''='' \<and> seen_base_character then Inr (seen_base_character, True)
      else Inl InvalidBearerToken)"

definition parse :: "bytes \<Rightarrow> (string, invalid_bearer_token) result" where
  "parse token =
     (if token = [] \<or> length token > MAX_BEARER_TOKEN_FILE_BYTES then Inl InvalidBearerToken
      else and_then (try_fold scan_byte (False, False) token) (\<lambda>_. Inr token))"

definition parse_file :: "bytes \<Rightarrow> (string, invalid_bearer_token) result" where
  "parse_file contents =
     (if contents = [] \<or> length contents > MAX_BEARER_TOKEN_FILE_BYTES
      then Inl InvalidBearerToken
      else parse (case strip_suffix [CHR 0x0A] contents of Some t \<Rightarrow> t | None \<Rightarrow> contents))"

section \<open>The grammar\<close>

text \<open>RFC 6750: \<^verbatim>\<open>b64token = 1*( ALPHA / DIGIT / "-" / "." / "_" / "~" / "+" / "/" ) *"="\<close>\<close>

definition b64token :: "string \<Rightarrow> bool" where
  "b64token t = (\<exists>base n. base \<noteq> [] \<and> list_all base_character base
     \<and> t = base @ replicate n (CHR ''=''))"

lemma base_character_not_eq: "base_character c \<Longrightarrow> c \<noteq> CHR ''=''"
  by (auto simp: base_character_def ascii_class_defs)

lemma base_character_not_lf: "\<not> base_character (CHR 0x0A)"
  by (simp add: base_character_def ascii_class_defs)

lemma scan_padding:
  "is_ok (try_fold scan_byte (True, True) t) \<longleftrightarrow> (\<exists>n. t = replicate n (CHR ''=''))"
proof (induction t)
  case (Cons c t)
  have "(\<exists>n. c # t = replicate n (CHR ''=''))
    \<longleftrightarrow> c = CHR ''='' \<and> (\<exists>n. t = replicate n (CHR ''=''))"
    by (auto simp: Cons_replicate_eq)
  with Cons show ?case by simp
qed (auto intro: exI [of _ 0])

lemma scan_base:
  "is_ok (try_fold scan_byte (True, False) t)
    \<longleftrightarrow> (\<exists>base n. list_all base_character base \<and> t = base @ replicate n (CHR ''=''))"
proof (induction t)
  case (Cons c t)
  let ?rep = "\<lambda>t. \<exists>base n. list_all base_character base \<and> t = base @ replicate n (CHR ''='')"
  consider (base) "base_character c" | (pad) "c = CHR ''=''"
    | (bad) "\<not> base_character c" "c \<noteq> CHR ''=''" by blast
  then show ?case
  proof cases
    case base
    have "?rep (c # t) \<longleftrightarrow> ?rep t"
    proof
      assume "?rep (c # t)"
      then obtain b n where b: "list_all base_character b" "c # t = b @ replicate n (CHR ''='')"
        by blast
      with base base_character_not_eq obtain b' where "b = c # b'"
        by (cases b; cases n) auto
      with b show "?rep t" by auto
    next
      assume "?rep t"
      then obtain b n where "list_all base_character b" "t = b @ replicate n (CHR ''='')" by blast
      with base show "?rep (c # t)" by (intro exI [of _ "c # b"] exI [of _ n]) simp
    qed
    with base Cons show ?thesis by simp
  next
    case pad
    have "?rep (c # t) \<longleftrightarrow> (\<exists>n. t = replicate n (CHR ''=''))"
    proof
      assume "?rep (c # t)"
      then obtain b n where "list_all base_character b" "c # t = b @ replicate n (CHR ''='')"
        by blast
      with pad base_character_not_eq show "\<exists>n. t = replicate n (CHR ''='')"
        by (cases b; cases n) auto
    next
      assume "\<exists>n. t = replicate n (CHR ''='')"
      then obtain n where "t = replicate n (CHR ''='')" by blast
      with pad show "?rep (c # t)" by (intro exI [of _ "[]"] exI [of _ "Suc n"]) simp
    qed
    with pad base_character_not_eq [of c] show ?thesis by (auto simp: scan_padding)
  next
    case bad
    have "\<not> ?rep (c # t)"
    proof
      assume "?rep (c # t)"
      then obtain b n where "list_all base_character b" "c # t = b @ replicate n (CHR ''='')"
        by blast
      with bad show False by (cases b; cases n) auto
    qed
    with bad show ?thesis by simp
  qed
qed (auto intro: exI [of _ 0])

lemma scan_token: "is_ok (try_fold scan_byte (False, False) t) \<longleftrightarrow> t = [] \<or> b64token t"
proof (cases t)
  case (Cons c u)
  have "b64token (c # u) \<longleftrightarrow> base_character c
    \<and> (\<exists>b n. list_all base_character b \<and> u = b @ replicate n (CHR ''=''))"
    (is "?l \<longleftrightarrow> ?r")
  proof
    assume ?l
    then obtain b n where b: "b \<noteq> []" "list_all base_character b" "c # u = b @ replicate n (CHR ''='')"
      by (auto simp: b64token_def)
    then show ?r by (cases b) auto
  next
    assume ?r
    then obtain b n where "base_character c" "list_all base_character b" "u = b @ replicate n (CHR ''='')"
      by blast
    then show ?l unfolding b64token_def by (intro exI [of _ "c # b"] exI [of _ n]) simp
  qed
  with Cons show ?thesis by (auto simp: scan_base)
qed simp

lemma b64token_nonempty: "b64token t \<Longrightarrow> t \<noteq> []"
  by (auto simp: b64token_def)

lemma b64token_no_lf: "b64token t \<Longrightarrow> CHR 0x0A \<notin> set t"
  using base_character_not_lf by (auto simp: b64token_def list_all_iff)

lemma parse_Inr_iff [result_simps]:
  "parse t = Inr u \<longleftrightarrow> u = t \<and> b64token t \<and> length t \<le> MAX_BEARER_TOKEN_FILE_BYTES"
proof -
  have "(\<exists>r. try_fold scan_byte (False, False) t = Inr r) \<longleftrightarrow> t = [] \<or> b64token t"
    using scan_token [of t] by (simp add: is_ok_iff)
  then show ?thesis using b64token_nonempty [of t]
    unfolding parse_def by (auto simp: result_simps)
qed

text \<open>
  C30. A credential file is accepted exactly when it is an RFC 6750 \<^verbatim>\<open>b64token\<close> with at most one
  final line feed, at most 4096 bytes in all, and the token returned is the file without that
  line feed.
\<close>

theorem parse_file_iff:
  "parse_file contents = Inr t \<longleftrightarrow>
     b64token t \<and> (contents = t \<or> contents = t @ [CHR 0x0A])
     \<and> length contents \<le> MAX_BEARER_TOKEN_FILE_BYTES"
proof (cases "strip_suffix [CHR 0x0A] contents")
  case None
  then have "contents \<noteq> u @ [CHR 0x0A]" for u
    using strip_suffix_Some_iff [of "[CHR 0x0A]" contents u] by auto
  moreover from None have "parse_file contents = (if contents = []
    \<or> length contents > MAX_BEARER_TOKEN_FILE_BYTES then Inl InvalidBearerToken else parse contents)"
    by (simp add: parse_file_def)
  ultimately show ?thesis
    using b64token_nonempty [of t] parse_Inr_iff [of contents t] by (cases "contents = []") auto
next
  case (Some u)
  then have u: "contents = u @ [CHR 0x0A]" by (simp add: str_simps)
  have "b64token t \<Longrightarrow> u @ [CHR 0x0A] \<noteq> t" using b64token_no_lf [of t] by auto
  moreover from Some u have "parse_file contents = (if length contents > MAX_BEARER_TOKEN_FILE_BYTES
    then Inl InvalidBearerToken else parse u)"
    by (simp add: parse_file_def)
  ultimately show ?thesis using u parse_Inr_iff [of u t] by auto
qed

end
