(* ===== verification/Path_Registry.thy ===== *)
theory Path_Registry
  imports Rust_Str
begin

text \<open>
  The duplicate check every list of paths goes through: two \<^verbatim>\<open>HashSet\<close>s, one of the paths as
  written and one of their ASCII-lower-cased forms, and
  \<^verbatim>\<open>if !exact.insert(path) || !folded.insert(path.to_ascii_lowercase())\<close>. It occurs in
  \<^verbatim>\<open>protocol.rs\<close>, \<^verbatim>\<open>source_updates.rs\<close>, \<^verbatim>\<open>build.rs\<close> and \<^verbatim>\<open>client_source.rs\<close>. What its
  clients rely on is the locale \<open>path_registry\<close>.
\<close>

record registry =
  exact :: "string set"
  folded :: "string set"

definition empty_registry :: registry where
  "empty_registry = \<lparr>exact = {}, folded = {}\<rparr>"

definition register :: "registry \<Rightarrow> string \<Rightarrow> registry option" where
  "register r p =
     (if p \<in> exact r then None
      else if to_ascii_lowercase p \<in> folded r then None
      else Some \<lparr>exact = insert p (exact r), folded = insert (to_ascii_lowercase p) (folded r)\<rparr>)"

locale path_registry =
  fixes reg :: "'r \<Rightarrow> string \<Rightarrow> 'r option"
    and seen :: "'r \<Rightarrow> string set"
    and fold_case :: "string \<Rightarrow> string"
    and wf :: "'r \<Rightarrow> bool"
  assumes reg_Some: "reg r p = Some r' \<Longrightarrow>
      fold_case p \<notin> seen r \<and> seen r' = insert (fold_case p) (seen r)"
    and reg_wf: "wf r \<Longrightarrow> reg r p = Some r' \<Longrightarrow> wf r'"
    and reg_None: "wf r \<Longrightarrow> reg r p = None \<Longrightarrow> fold_case p \<in> seen r"
begin

text \<open>
  A loop that registers the key of every element, and otherwise does what it likes, leaves only
  when all keys differ after case folding, and has then seen exactly them.
\<close>

lemma loop_distinct:
  assumes "try_fold step s xs = Inr s'"
    and "\<And>s x s'. x \<in> set xs \<Longrightarrow> step s x = Inr s' \<Longrightarrow> reg (get s) (key x) = Some (get s')"
  shows "distinct (map (\<lambda>x. fold_case (key x)) xs)
    \<and> seen (get s') = seen (get s) \<union> (\<lambda>x. fold_case (key x)) ` set xs
    \<and> seen (get s) \<inter> (\<lambda>x. fold_case (key x)) ` set xs = {}"
  using assms
proof (induction xs arbitrary: s)
  case Nil
  then show ?case by simp
next
  case (Cons x xs)
  from Cons.prems(1) obtain t where t: "step s x = Inr t" "try_fold step t xs = Inr s'"
    by (auto simp: result_simps)
  from Cons.prems(2) [of x s t] t(1) have "reg (get s) (key x) = Some (get t)" by simp
  from reg_Some [OF this] Cons.IH [OF t(2)] Cons.prems(2) show ?case by auto
qed

lemma reg_iff: "wf r \<Longrightarrow> (\<exists>r'. reg r p = Some r') \<longleftrightarrow> fold_case p \<notin> seen r"
  using reg_Some reg_None by (cases "reg r p") blast+

text \<open>A loop that only checks each element and registers its key succeeds exactly then.\<close>

lemma loop_ok_iff:
  assumes "\<And>s x s'. x \<in> set xs \<Longrightarrow> step s x = Inr s' \<longleftrightarrow> P x \<and> reg s (key x) = Some s'" and "wf s"
  shows "(\<exists>s'. try_fold step s xs = Inr s') \<longleftrightarrow>
    (\<forall>x\<in>set xs. P x) \<and> distinct (map (\<lambda>x. fold_case (key x)) xs)
    \<and> seen s \<inter> (\<lambda>x. fold_case (key x)) ` set xs = {}"
  using assms
proof (induction xs arbitrary: s)
  case Nil
  then show ?case by simp
next
  case (Cons x xs)
  note step = Cons.prems(1) [of x s] and wf = \<open>wf s\<close>
  have IH: "wf t \<Longrightarrow> (\<exists>s'. try_fold step t xs = Inr s') \<longleftrightarrow>
    (\<forall>x\<in>set xs. P x) \<and> distinct (map (\<lambda>x. fold_case (key x)) xs)
    \<and> seen t \<inter> (\<lambda>x. fold_case (key x)) ` set xs = {}" for t
    by (rule Cons.IH) (use Cons.prems(1) in auto)
  show ?case
  proof (cases "P x \<and> fold_case (key x) \<notin> seen s")
    case True
    with wf reg_iff obtain t where t: "reg s (key x) = Some t" by blast
    with True step have "step s x = Inr t" by simp
    with True reg_Some [OF t] IH [OF reg_wf [OF wf t]] show ?thesis by auto
  next
    case False
    with step wf reg_iff [of s "key x"] have "\<nexists>t. step s x = Inr t" by auto
    then obtain e where "step s x = Inl e" by (cases "step s x") auto
    with False show ?thesis by auto
  qed
qed

end

interpretation reg: path_registry register folded to_ascii_lowercase
  "\<lambda>r. to_ascii_lowercase ` exact r \<subseteq> folded r"
  by unfold_locales (fastforce simp: register_def split: if_splits)+

lemma register_empty_wf: "to_ascii_lowercase ` exact empty_registry \<subseteq> folded empty_registry"
  by (simp add: empty_registry_def)

end
