(* ===== verification/Validation.thy ===== *)
theory Validation
  imports Rust_Str
begin

text \<open>
  Relative paths, relative glob patterns and working directories
  (\<^verbatim>\<open>src/validation.rs\<close>). \<^verbatim>\<open>std::fs::canonicalize\<close> asks the operating system and is a
  parameter.
\<close>

datatype 'io validation_error =
    CwdNotAbsolute
  | PathNotRelative string
  | PathHasParent string
  | EmptyValue string
  | CwdOutsideRoot string string
  | InvalidPath string 'io

definition validate_relative_path :: "string \<Rightarrow> string \<Rightarrow> (string, 'io validation_error) result" where
  "validate_relative_path raw field =
     (if trim raw = [] then Inl (EmptyValue field)
      else if is_absolute raw then Inl (PathNotRelative field)
      else if list_ex (\<lambda>c. c = ParentDir) (components raw) then Inl (PathHasParent field)
      else Inr raw)"

definition validate_relative_pattern ::
  "string \<Rightarrow> string \<Rightarrow> (unit, 'io validation_error) result" where
  "validate_relative_pattern pattern field =
     (if trim pattern = [] then Inl (EmptyValue field)
      else if is_absolute pattern then Inl (PathNotRelative field)
      else if list_ex (\<lambda>c. c = ParentDir) (components pattern) then Inl (PathHasParent field)
      else Inr ())"

definition validate_cwd ::
  "(string \<Rightarrow> (string, 'io) result) \<Rightarrow> string \<Rightarrow> string \<Rightarrow> (string, 'io validation_error) result" where
  "validate_cwd canonicalize cwd allowed_root =
     (if \<not> is_absolute cwd then Inl CwdNotAbsolute
      else and_then (map_err (InvalidPath ''allowed_root'') (canonicalize allowed_root)) (\<lambda>root.
        and_then (map_err (InvalidPath ''cwd'') (canonicalize cwd)) (\<lambda>canonical_cwd.
          if \<not> path_starts_with canonical_cwd root then Inl (CwdOutsideRoot canonical_cwd root)
          else Inr canonical_cwd)))"

section \<open>Containment\<close>

text \<open>
  Where a path leads when its components are followed from a directory, without symbolic links:
  \<open>..\<close> pops a name, and stays at the root.
\<close>

fun walk :: "string list \<Rightarrow> path_component list \<Rightarrow> string list" where
  "walk cur [] = cur"
| "walk cur (RootDir # cs) = walk [] cs"
| "walk cur (CurDir # cs) = walk cur cs"
| "walk cur (ParentDir # cs) = walk (butlast cur) cs"
| "walk cur (Normal n # cs) = walk (cur @ [n]) cs"

lemma walk_append: "walk cur (xs @ ys) = walk (walk cur xs) ys"
  by (induction cur xs rule: walk.induct) auto

lemma walk_descends:
  "ParentDir \<notin> set cs \<Longrightarrow> RootDir \<notin> set cs \<Longrightarrow> prefix cur (walk cur cs)"
proof (induction cur cs rule: walk.induct)
  case (5 cur n cs)
  then have "prefix (cur @ [n]) (walk cur (Normal n # cs))" by simp
  then show ?case by (rule append_prefixD)
qed auto

lemma validate_relative_path_Inr_iff [result_simps]:
  "validate_relative_path raw field = Inr p \<longleftrightarrow>
     p = raw \<and> trim raw \<noteq> [] \<and> \<not> is_absolute raw \<and> ParentDir \<notin> set (components raw)"
  by (auto simp: validate_relative_path_def list_ex_iff)

lemma validate_relative_pattern_Inr_iff [result_simps]:
  "validate_relative_pattern raw field = Inr u \<longleftrightarrow>
     trim raw \<noteq> [] \<and> \<not> is_absolute raw \<and> ParentDir \<notin> set (components raw)"
  by (auto simp: validate_relative_pattern_def list_ex_iff)

lemma join_contained:
  assumes "root \<noteq> []" "\<not> is_absolute p" "ParentDir \<notin> set (components p)"
  shows "path_starts_with (path_join root p) root"
    and "prefix (walk cur (components root)) (walk cur (components (path_join root p)))"
proof -
  let ?rest = "filter (\<lambda>c. c \<noteq> CurDir) (components p)"
  note eq = components_join [OF assms(1,2)]
  from eq show "path_starts_with (path_join root p) root" by (simp add: path_starts_with_def)
  have "ParentDir \<notin> set ?rest" "RootDir \<notin> set ?rest"
    using assms RootDir_in_components [of p] by auto
  from walk_descends [OF this]
  show "prefix (walk cur (components root)) (walk cur (components (path_join root p)))"
    by (simp add: eq walk_append)
qed

text \<open>
  C31. A path that passes \<open>validate_relative_path\<close> is returned unchanged, and joining it to any
  root gives a path whose components extend the root's and which, followed component by
  component, leads to a place below where the root leads.
\<close>

theorem validate_relative_path_contained:
  assumes "validate_relative_path raw field = Inr p" and "root \<noteq> []"
  shows "p = raw \<and> path_starts_with (path_join root p) root
    \<and> prefix (walk [] (components root)) (walk [] (components (path_join root p)))"
  using assms join_contained [of root p] by (auto simp: result_simps)

theorem validate_relative_path_contained_witness:
  "validate_relative_path ''crates/app'' ''cwd'' = (Inr ''crates/app'' :: (string, unit validation_error) result)
   \<and> walk [] (components (path_join ''/srv/ws'' ''crates/app'')) = [''srv'', ''ws'', ''crates'', ''app'']
   \<and> path_starts_with (path_join ''/srv/ws'' ''crates/app'') ''/srv/ws''"
proof -
  have v: "validate_relative_path ''crates/app'' ''cwd''
    = (Inr ''crates/app'' :: (string, unit validation_error) result)" by code_simp
  moreover have "walk [] (components (path_join ''/srv/ws'' ''crates/app''))
    = [''srv'', ''ws'', ''crates'', ''app'']" by code_simp
  ultimately show ?thesis
    using validate_relative_path_contained [OF v, of "''/srv/ws''"] by simp
qed

end
