(* ===== verification/Protocol.thy ===== *)
theory Protocol
  imports Path_Registry Validation
begin

text \<open>
  Wire data and its validation (\<^verbatim>\<open>src/protocol.rs\<close>): requests, updates and action bodies,
  the events of the three response streams, identifiers, revisions and update paths. The JSON
  reader (\<^verbatim>\<open>serde_json::from_slice\<close>) and the derived deserialisers (\<^verbatim>\<open>from_value\<close>) are
  third-party or generated code and are parameters.
\<close>

section \<open>Data\<close>

datatype json =
    JNull
  | JBool bool
  | JNumber string
  | JString string
  | JArray "json list"
  | JObject "(string \<times> json) list"

fun as_object :: "json \<Rightarrow> (string \<times> json) list option" where
  "as_object (JObject kvs) = Some kvs"
| "as_object _ = None"

fun as_str :: "json \<Rightarrow> string option" where
  "as_str (JString s) = Some s"
| "as_str _ = None"

definition REQUEST_SCHEMA_VERSION :: string where "REQUEST_SCHEMA_VERSION = ''1''"

definition SESSION_REQUEST_SCHEMA_VERSION :: string where "SESSION_REQUEST_SCHEMA_VERSION = ''1''"

definition SESSION_UPDATE_SCHEMA_VERSION :: string where "SESSION_UPDATE_SCHEMA_VERSION = ''1''"

definition MAX_REQUEST_ID_LEN :: usize where "MAX_REQUEST_ID_LEN = 128"

definition MAX_TASK_ID_LEN :: usize where "MAX_TASK_ID_LEN = 64"

definition MAX_SESSION_ID_LEN :: usize where "MAX_SESSION_ID_LEN = 128"

definition MAX_ACTION_ID_LEN :: usize where "MAX_ACTION_ID_LEN = 128"

definition MAX_SESSION_ACTION_BODY_BYTES :: usize where "MAX_SESSION_ACTION_BODY_BYTES = 64 * 1024"

definition MAX_SESSION_UPDATE_METADATA_BYTES :: usize where
  "MAX_SESSION_UPDATE_METADATA_BYTES = 64 * 1024"

datatype source_format = Zip

record source_metadata =
  sm_format :: source_format

record request =
  rq_schema_version :: string
  rq_request_id :: "string option"
  rq_task :: string
  rq_source :: source_metadata

record session_start_request =
  ss_schema_version :: string
  ss_request_id :: "string option"
  ss_task :: string
  ss_source :: source_metadata

record session_action_request =
  sa_schema_version :: string
  sa_input :: "(string \<times> json) list"

datatype session_update_change =
    FileChange (change_path: string) (change_sha256: string)
  | DeleteChange (change_path: string)

record session_update_request =
  su_schema_version :: string
  su_request_id :: string
  su_base_revision :: string
  su_source :: source_metadata
  su_changes :: "session_update_change list"

record session_update_evidence =
  ev_path :: string
  ev_sha256 :: string

record session_update_response =
  ur_session_id :: string
  ur_update_id :: string
  ur_request_id :: string
  ur_base_revision :: string
  ur_workspace_revision :: string
  ur_changed :: "session_update_evidence list"
  ur_deleted :: "session_update_evidence list"

datatype request_error =
    NotObject
  | MissingSchemaVersion
  | InvalidSchemaVersionType
  | UnsupportedSchemaVersion string
  | InvalidJson string
  | InvalidTask
  | InvalidRequestId

datatype session_action_request_error =
    SA_TooLarge
  | SA_NotObject
  | SA_MissingSchemaVersion
  | SA_InvalidSchemaVersionType
  | SA_UnsupportedSchemaVersion string
  | SA_MissingInput
  | SA_InputNotObject
  | SA_InvalidJson string

text \<open>Results and events reported to the client.\<close>

record artifact_archive =
  aa_path :: string
  aa_size :: u64

datatype build_phase = Setup | Run

fun build_phase_as_str :: "build_phase \<Rightarrow> string" where
  "build_phase_as_str Setup = ''setup''"
| "build_phase_as_str Run = ''run''"

record phase_result =
  pr_phase :: build_phase
  pr_duration_ms :: nat
  pr_exit_code :: int
  pr_timed_out :: bool

record artifact_restrictions =
  ar_omitted_count :: usize
  ar_matched_patterns :: "string list"

record session_teardown_result =
  td_duration_ms :: nat
  td_exit_code :: "int option"
  td_timed_out :: bool
  td_error_code :: "string option"

record session_stop_response =
  sr_session_id :: string
  sr_teardown :: session_teardown_result
  sr_artifacts :: "artifact_archive option"
  sr_artifact_restrictions :: "artifact_restrictions option"

datatype session_start_status = SS_Started | SS_PhaseStarted | SS_PhaseFinished | SS_StartingServices

datatype session_start_event =
    SE_Session string session_start_status "build_phase option" "nat option" "int option" "bool option"
  | SE_Stdout string
  | SE_Stderr string
  | SE_Error string "string option" "build_phase option"
  | SE_Ready string string "phase_result list"
  | SE_Exit int bool "build_phase option" "phase_result list"

datatype session_action_status = SA_Started | SA_Snapshotting

datatype session_action_event =
    AE_Action string string string string session_action_status
  | AE_Stdout string
  | AE_Stderr string
  | AE_Error string "string option"
  | AE_Exit string string string string int bool "artifact_archive option"
      "artifact_restrictions option"

datatype response_event =
    RE_Build string string "build_phase option" "nat option" "int option" "bool option"
  | RE_Stdout string
  | RE_Stderr string
  | RE_Error string "string option" "string option" "build_phase option"
  | RE_Exit int bool "artifact_archive option" "artifact_restrictions option"
      "build_phase option" "phase_result list"

section \<open>Identifiers and revisions\<close>

definition validate_identifier :: "string \<Rightarrow> usize \<Rightarrow> bool \<Rightarrow> (unit, unit) result" where
  "validate_identifier value max_len allow_dot =
     (if value = [] \<or> length value > max_len then Inl ()
      else if list_all (\<lambda>c. is_ascii_alphanumeric c \<or> c = CHR ''_'' \<or> c = CHR ''-''
             \<or> (allow_dot \<and> c = CHR ''.'')) value
      then Inr () else Inl ())"

definition valid_task_id :: "string \<Rightarrow> bool" where
  "valid_task_id value = is_ok (validate_identifier value MAX_TASK_ID_LEN False)"

definition valid_request_id :: "string \<Rightarrow> bool" where
  "valid_request_id value = is_ok (validate_identifier value MAX_REQUEST_ID_LEN True)"

definition valid_session_id :: "string \<Rightarrow> bool" where
  "valid_session_id value = is_ok (validate_identifier value MAX_SESSION_ID_LEN False)"

definition valid_action_id :: "string \<Rightarrow> bool" where
  "valid_action_id value = is_ok (validate_identifier value MAX_ACTION_ID_LEN False)"

definition revision_string :: "u64 \<Rightarrow> string" where
  "revision_string revision = ''rev_'' @ show_nat (unat revision)"

definition parse_revision :: "string \<Rightarrow> u64 option" where
  "parse_revision value =
     (case strip_prefix ''rev_'' value of
        None \<Rightarrow> None
      | Some decimal \<Rightarrow>
          if decimal = [] \<or> (length decimal > 1 \<and> take 1 decimal = ''0'')
             \<or> \<not> list_all is_ascii_digit decimal
          then None
          else (case parse_u64 decimal of
                  None \<Rightarrow> None
                | Some revision \<Rightarrow>
                    if revision_string revision = value then Some revision else None))"

definition validate_update_path :: "string \<Rightarrow> usize \<Rightarrow> (unit, request_error) result" where
  "validate_update_path path max_depth =
     (if path = [] \<or> \<not> is_ascii path \<or> list_ex (\<lambda>c. c = CHR 0x5C \<or> c = CHR 0x00) path
         \<or> hd path = CHR ''/'' \<or> last path = CHR ''/''
         \<or> list_ex (\<lambda>component. component = [] \<or> component = ''.'' \<or> component = ''..'')
             (split_on (CHR ''/'') path)
      then Inl (InvalidJson ''change path is invalid'')
      else if length (split_on (CHR ''/'') path) > max_depth
      then Inl (InvalidJson (''change path exceeds configured max_depth ('' @ show_nat max_depth @ '')''))
      else let first = hd (split_on (CHR ''/'') path) in
        if eq_ignore_ascii_case first ''.indentured'' \<or> eq_ignore_ascii_case first ''.sessions''
        then Inl (InvalidJson ''change path targets reserved session storage'')
        else Inr ())"

section \<open>Request parsers\<close>

text \<open>The version check that the metadata parsers open with.\<close>

definition check_schema_version :: "json \<Rightarrow> string \<Rightarrow> (unit, request_error) result" where
  "check_schema_version value expected =
     and_then (ok_or (as_object value) NotObject) (\<lambda>object.
     and_then (ok_or (map_of object ''schema_version'') MissingSchemaVersion) (\<lambda>v.
     and_then (ok_or (as_str v) InvalidSchemaVersionType) (\<lambda>version.
     ensure (version = expected) (UnsupportedSchemaVersion version))))"

definition parse_request_metadata ::
  "(bytes \<Rightarrow> (json, string) result) \<Rightarrow> (json \<Rightarrow> (request, string) result) \<Rightarrow> bytes
   \<Rightarrow> (request, request_error) result" where
  "parse_request_metadata from_slice from_value data =
     and_then (map_err InvalidJson (from_slice data)) (\<lambda>value.
     and_then (check_schema_version value REQUEST_SCHEMA_VERSION) (\<lambda>_.
     and_then (map_err InvalidJson (from_value value)) (\<lambda>request.
     and_then (map_err (\<lambda>_. InvalidTask)
       (validate_identifier (rq_task request) MAX_TASK_ID_LEN False)) (\<lambda>_.
     and_then (case rq_request_id request of
         None \<Rightarrow> Inr ()
       | Some request_id \<Rightarrow> map_err (\<lambda>_. InvalidRequestId)
           (validate_identifier request_id MAX_REQUEST_ID_LEN True)) (\<lambda>_.
     Inr request)))))"

definition parse_session_start_metadata ::
  "(bytes \<Rightarrow> (json, string) result) \<Rightarrow> (json \<Rightarrow> (session_start_request, string) result) \<Rightarrow> bytes
   \<Rightarrow> (session_start_request, request_error) result" where
  "parse_session_start_metadata from_slice from_value data =
     and_then (map_err InvalidJson (from_slice data)) (\<lambda>value.
     and_then (check_schema_version value SESSION_REQUEST_SCHEMA_VERSION) (\<lambda>_.
     and_then (map_err InvalidJson (from_value value)) (\<lambda>request.
     and_then (map_err (\<lambda>_. InvalidTask)
       (validate_identifier (ss_task request) MAX_TASK_ID_LEN False)) (\<lambda>_.
     and_then (case ss_request_id request of
         None \<Rightarrow> Inr ()
       | Some request_id \<Rightarrow> map_err (\<lambda>_. InvalidRequestId)
           (validate_identifier request_id MAX_REQUEST_ID_LEN True)) (\<lambda>_.
     Inr request)))))"

definition valid_sha256_hex :: "string \<Rightarrow> bool" where
  "valid_sha256_hex sha256 = (length sha256 = 64
     \<and> list_all (\<lambda>c. is_ascii_digit c \<or> (97 \<le> byte c \<and> byte c \<le> 102)) sha256)"

text \<open>The body of the loop over \<^verbatim>\<open>request.changes\<close>.\<close>

definition check_change ::
  "usize \<Rightarrow> registry \<Rightarrow> session_update_change \<Rightarrow> (registry, request_error) result" where
  "check_change max_depth r change =
     and_then (validate_update_path (change_path change) max_depth) (\<lambda>_.
     and_then (ok_or (register r (change_path change))
       (InvalidJson ''changes contains duplicate or case-colliding paths'')) (\<lambda>r'.
     case change of
       FileChange _ sha256 \<Rightarrow>
         if \<not> valid_sha256_hex sha256
         then Inl (InvalidJson ''sha256 must be 64 lowercase hexadecimal characters'')
         else Inr r'
     | DeleteChange _ \<Rightarrow> Inr r'))"

definition parse_session_update_metadata ::
  "(bytes \<Rightarrow> (json, string) result) \<Rightarrow> (json \<Rightarrow> (session_update_request, string) result)
   \<Rightarrow> bytes \<Rightarrow> usize \<Rightarrow> usize \<Rightarrow> (session_update_request, request_error) result" where
  "parse_session_update_metadata from_slice from_value data max_files max_depth =
     and_then (map_err InvalidJson (from_slice data)) (\<lambda>value.
     and_then (check_schema_version value SESSION_UPDATE_SCHEMA_VERSION) (\<lambda>_.
     and_then (map_err InvalidJson (from_value value)) (\<lambda>request.
     and_then (map_err (\<lambda>_. InvalidRequestId)
       (validate_identifier (su_request_id request) MAX_REQUEST_ID_LEN True)) (\<lambda>_.
     and_then (ok_or (parse_revision (su_base_revision request))
       (InvalidJson ''base_revision must be rev_<decimal>'')) (\<lambda>_.
     and_then (ensure (su_changes request \<noteq> []) (InvalidJson ''changes must not be empty'')) (\<lambda>_.
     and_then (ensure (length (su_changes request) \<le> max_files)
       (InvalidJson (''changes exceeds configured max_files ('' @ show_nat max_files @ '')''))) (\<lambda>_.
     and_then (try_fold (check_change max_depth) empty_registry (su_changes request)) (\<lambda>_.
     Inr request))))))))"

definition parse_session_action_request ::
  "(bytes \<Rightarrow> (json, string) result) \<Rightarrow> (json \<Rightarrow> (session_action_request, string) result)
   \<Rightarrow> bytes \<Rightarrow> (session_action_request, session_action_request_error) result" where
  "parse_session_action_request from_slice from_value data =
     (if length data > MAX_SESSION_ACTION_BODY_BYTES then Inl SA_TooLarge
      else
        and_then (map_err SA_InvalidJson (from_slice data)) (\<lambda>value.
        and_then (ok_or (as_object value) SA_NotObject) (\<lambda>object.
        and_then (ok_or (map_of object ''schema_version'') SA_MissingSchemaVersion) (\<lambda>v.
        and_then (ok_or (as_str v) SA_InvalidSchemaVersionType) (\<lambda>version.
        and_then (ensure (version = SESSION_REQUEST_SCHEMA_VERSION)
          (SA_UnsupportedSchemaVersion version)) (\<lambda>_.
        and_then (ok_or (map_of object ''input'') SA_MissingInput) (\<lambda>input.
        and_then (ensure (as_object input \<noteq> None) SA_InputNotObject) (\<lambda>_.
        map_err SA_InvalidJson (from_value value)))))))))"

section \<open>What is accepted\<close>

lemma validate_identifier_Inr_iff [result_simps]:
  "validate_identifier value max_len allow_dot = Inr u \<longleftrightarrow>
     value \<noteq> [] \<and> length value \<le> max_len \<and>
     list_all (\<lambda>c. is_ascii_alphanumeric c \<or> c \<in> {CHR ''_'', CHR ''-''}
       \<or> (allow_dot \<and> c = CHR ''.'')) value"
  by (auto simp: validate_identifier_def)

lemma valid_id_simps:
  "valid_task_id v \<longleftrightarrow> validate_identifier v MAX_TASK_ID_LEN False = Inr ()"
  "valid_request_id v \<longleftrightarrow> validate_identifier v MAX_REQUEST_ID_LEN True = Inr ()"
  "valid_session_id v \<longleftrightarrow> validate_identifier v MAX_SESSION_ID_LEN False = Inr ()"
  "valid_action_id v \<longleftrightarrow> validate_identifier v MAX_ACTION_ID_LEN False = Inr ()"
  by (simp_all add: valid_task_id_def valid_request_id_def valid_session_id_def
      valid_action_id_def is_ok_iff)

text \<open>An identifier that never contains a dot is a single path component.\<close>

lemma identifier_is_component:
  assumes "validate_identifier ident n False = Inr u"
  shows "components ident = [Normal ident]"
proof -
  from assms have v: "ident \<noteq> []" "list_all (\<lambda>c. is_ascii_alphanumeric c \<or> c \<in> {CHR ''_'', CHR ''-''}) ident"
    by (simp_all add: result_simps)
  then have "CHR ''/'' \<notin> set ident" "CHR ''.'' \<notin> set ident"
    by (auto simp: list_all_iff ascii_class_defs)
  moreover from this v have "take 1 ident \<noteq> ''/''" "ident \<noteq> ''.''" "ident \<noteq> ''..''"
    by (cases ident; auto)+
  ultimately show ?thesis using v
    by (simp add: components_def split_on_single List.map_filter_def parse_component_def
        is_absolute_def Let_def)
qed

lemma parse_revision_SomeD: "parse_revision v = Some r \<Longrightarrow> v = revision_string r"
  by (auto simp: parse_revision_def split: option.splits if_splits)

lemma parse_u64_show: "parse_u64 (show_nat (unat r)) = Some r"
proof -
  let ?d = "show_nat (unat r)"
  have "CHR ''+'' \<noteq> hd ?d" using show_nat_digits [of "unat r"]
    by (cases ?d) (auto simp: is_ascii_digit_def)
  then have "strip_prefix ''+'' ?d = None" by (cases ?d) (auto simp: strip_prefix_def)
  moreover have "unat r < 2 ^ 64" using unsigned_less [of r] by simp
  ultimately show ?thesis by (simp add: parse_u64_def)
qed

lemma parse_revision_string [simp]: "parse_revision (revision_string r) = Some r"
proof -
  let ?d = "show_nat (unat r)"
  have "\<not> (length ?d > 1 \<and> take 1 ?d = ''0'')"
  proof
    assume a: "length ?d > 1 \<and> take 1 ?d = ''0''"
    then have "hd ?d = CHR ''0''" by (cases ?d) auto
    then have "unat r = 0" by (simp only: hd_show_nat)
    with a show False by (simp add: show_nat_zero)
  qed
  moreover have "strip_prefix ''rev_'' (revision_string r) = Some ?d"
    by (simp add: str_simps revision_string_def)
  ultimately show ?thesis by (auto simp: parse_revision_def parse_u64_show)
qed

text \<open>
  C32. A revision string is accepted exactly when it is \<^verbatim>\<open>rev_\<close> followed by the canonical decimal
  form of a 64-bit number, and that number is returned: parsing inverts formatting, and no second
  spelling (leading zeros, a sign, an overflowing number) is accepted.
\<close>

theorem parse_revision_iff: "parse_revision v = Some r \<longleftrightarrow> v = revision_string r"
  using parse_revision_SomeD by auto

lemma reserved_lower:
  "to_ascii_lowercase ''.indentured'' = ''.indentured''"
  "to_ascii_lowercase ''.sessions'' = ''.sessions''"
  by code_simp+

lemma validate_update_path_Inr_iff [result_simps]:
  "validate_update_path path max_depth = Inr u \<longleftrightarrow>
     is_ascii path \<and> CHR 0x5C \<notin> set path \<and> CHR 0x00 \<notin> set path
     \<and> (\<forall>c\<in>set (split_on (CHR ''/'') path). plain_name c)
     \<and> length (split_on (CHR ''/'') path) \<le> max_depth
     \<and> to_ascii_lowercase (hd (split_on (CHR ''/'') path)) \<notin> {''.indentured'', ''.sessions''}"
proof -
  have "(path = [] \<or> \<not> is_ascii path \<or> list_ex (\<lambda>c. c = CHR 0x5C \<or> c = CHR 0x00) path
         \<or> hd path = CHR ''/'' \<or> last path = CHR ''/''
         \<or> list_ex (\<lambda>component. component = [] \<or> component = ''.'' \<or> component = ''..'')
             (split_on (CHR ''/'') path))
    \<longleftrightarrow> \<not> (is_ascii path \<and> CHR 0x5C \<notin> set path \<and> CHR 0x00 \<notin> set path
     \<and> (\<forall>c\<in>set (split_on (CHR ''/'') path). plain_name c))"
    unfolding list_ex_iff plain_name_def using plain_ends [of path] by blast
  then show ?thesis
    by (simp add: validate_update_path_def Let_def eq_ignore_ascii_case_def reserved_lower
        del: to_ascii_lowercase_simps)
qed

fun change_hash_ok :: "session_update_change \<Rightarrow> bool" where
  "change_hash_ok (FileChange _ sha256) = valid_sha256_hex sha256"
| "change_hash_ok (DeleteChange _) = True"

lemma check_change_Inr_iff:
  "check_change max_depth r c = Inr r' \<longleftrightarrow>
     (validate_update_path (change_path c) max_depth = Inr () \<and> change_hash_ok c)
     \<and> register r (change_path c) = Some r'"
  by (cases c)
    (auto simp: check_change_def and_then_Inr_iff ok_or_Inr_iff split: if_splits)

lemma changes_loop_iff:
  "(\<exists>r. try_fold (check_change max_depth) empty_registry changes = Inr r) \<longleftrightarrow>
     (\<forall>c\<in>set changes. validate_update_path (change_path c) max_depth = Inr () \<and> change_hash_ok c)
     \<and> distinct (map (\<lambda>c. to_ascii_lowercase (change_path c)) changes)"
  using reg.loop_ok_iff [of changes "check_change max_depth"
      "\<lambda>c. validate_update_path (change_path c) max_depth = Inr () \<and> change_hash_ok c"
      change_path empty_registry]
  by (simp add: check_change_Inr_iff register_empty_wf) (simp add: empty_registry_def)

lemma check_schema_version_Inr_iff [result_simps]:
  "check_schema_version v expected = Inr u \<longleftrightarrow>
     (\<exists>object. v = JObject object \<and> map_of object ''schema_version'' = Some (JString expected))"
proof -
  have "as_object v = Some obj \<longleftrightarrow> v = JObject obj" for obj by (cases v) auto
  moreover have "as_str w = Some t \<longleftrightarrow> w = JString t" for w t by (cases w) auto
  ultimately show ?thesis by (auto simp: check_schema_version_def result_simps)
qed

text \<open>
  C26. The update parser accepts exactly the metadata whose JSON declares schema version 1 and
  deserialises to a request with a valid request id, a canonical base revision, between one and
  \<^verbatim>\<open>max_files\<close> changes, all of whose paths are valid update paths with valid hashes and no two
  of which are equal up to ASCII case.
\<close>

theorem parse_session_update_metadata_iff:
  "parse_session_update_metadata from_slice from_value data max_files max_depth = Inr request \<longleftrightarrow>
     (\<exists>object. from_slice data = Inr (JObject object)
        \<and> map_of object ''schema_version'' = Some (JString ''1'')
        \<and> from_value (JObject object) = Inr request)
     \<and> valid_request_id (su_request_id request)
     \<and> (\<exists>r. parse_revision (su_base_revision request) = Some r)
     \<and> 0 < length (su_changes request) \<and> length (su_changes request) \<le> max_files
     \<and> (\<forall>c\<in>set (su_changes request).
          validate_update_path (change_path c) max_depth = Inr () \<and> change_hash_ok c)
     \<and> distinct (map (\<lambda>c. to_ascii_lowercase (change_path c)) (su_changes request))"
  unfolding parse_session_update_metadata_def
  using changes_loop_iff [of max_depth "su_changes request"]
  by (auto simp: and_then_Inr_iff map_err_Inr_iff ok_or_Inr_iff ensure_Inr_iff
      check_schema_version_Inr_iff valid_id_simps SESSION_UPDATE_SCHEMA_VERSION_def)

definition sample_update :: session_update_request where
  "sample_update = \<lparr>su_schema_version = ''1'', su_request_id = ''req.1'',
     su_base_revision = ''rev_12'', su_source = \<lparr>sm_format = Zip\<rparr>,
     su_changes = [FileChange ''src/a.rs'' (replicate 64 (CHR ''a'')), DeleteChange ''src/b.rs'']\<rparr>"

theorem parse_session_update_metadata_iff_witness:
  "parse_session_update_metadata (\<lambda>_. Inr (JObject [(''schema_version'', JString ''1'')]))
     (\<lambda>_. Inr sample_update) ''{}'' 2 4 = Inr sample_update"
proof -
  have "show_nat 12 = ''12''" by code_simp
  then have "revision_string 12 = ''rev_12''" by (simp add: revision_string_def)
  then have "parse_revision ''rev_12'' = Some 12" using parse_revision_string [of 12] by simp
  moreover have "valid_request_id ''req.1''"
    "validate_update_path ''src/a.rs'' 4 = Inr ()" "validate_update_path ''src/b.rs'' 4 = Inr ()"
    "valid_sha256_hex (replicate 64 (CHR ''a''))"
    "to_ascii_lowercase ''src/a.rs'' \<noteq> to_ascii_lowercase ''src/b.rs''" by code_simp+
  ultimately show ?thesis
    by (subst parse_session_update_metadata_iff) (simp add: sample_update_def)
qed

text \<open>
  C33. An accepted update path is a sequence of plain names, at most \<^verbatim>\<open>max_depth\<close> of them, so
  below any workspace root it names a place below that root, and it is not inside the reserved
  \<^verbatim>\<open>.indentured\<close> or \<^verbatim>\<open>.sessions\<close> directories in any ASCII case.
\<close>

theorem validate_update_path_safe:
  assumes "validate_update_path path max_depth = Inr ()" and "root \<noteq> []"
  shows "components path = map Normal (split_on (CHR ''/'') path)
    \<and> length (components path) \<le> max_depth
    \<and> walk [] (components (path_join root path))
        = walk [] (components root) @ split_on (CHR ''/'') path
    \<and> (\<forall>reserved\<in>{''.indentured'', ''.sessions''}.
        \<not> eq_ignore_ascii_case (hd (split_on (CHR ''/'') path)) reserved)"
proof -
  from assms have plain: "\<forall>c\<in>set (split_on (CHR ''/'') path). plain_name c" by (simp add: result_simps)
  note comps = components_plain [OF plain]
  have "walk cur (map Normal ps) = cur @ ps" for cur ps
    by (induction ps arbitrary: cur) auto
  moreover have "filter (\<lambda>c. c \<noteq> CurDir) (map Normal ps) = map Normal ps" for ps
    by (simp add: filter_map comp_def)
  ultimately have "walk [] (components (path_join root path))
      = walk [] (components root) @ split_on (CHR ''/'') path"
    using components_join [OF assms(2) plain_not_absolute [OF plain]] by (simp add: comps walk_append)
  with assms(1) comps show ?thesis
    by (simp add: validate_update_path_Inr_iff eq_ignore_ascii_case_def reserved_lower
        del: to_ascii_lowercase_simps)
qed

theorem validate_update_path_safe_witness:
  "validate_update_path ''src/main.rs'' 8 = Inr ()
   \<and> walk [] (components (path_join ''/ws'' ''src/main.rs'')) = [''ws'', ''src'', ''main.rs'']"
proof -
  have v: "validate_update_path ''src/main.rs'' 8 = Inr ()" by code_simp
  have "walk [] (components ''/ws'') = [''ws'']" "split_on (CHR ''/'') ''src/main.rs'' = [''src'', ''main.rs'']"
    by code_simp+
  with validate_update_path_safe [OF v, of "''/ws''"] v show ?thesis by simp
qed

end
