(* ===== verification/Effect.thy ===== *)
theory Effect
  imports Prelude
begin

text \<open>
  Fallible code with effects: a computation maps a state of the outside world to a result and
  the state it leaves. The state type is the component's own: the file system and fault
  schedule of the daemon's update code, the process and clock observations of the client.
  \<open>bind_io\<close> is \<^verbatim>\<open>?\<close> followed by the rest of the function; \<open>for_io\<close> and \<open>fold_io\<close> are loops
  whose body may return early with an error.
\<close>

type_synonym ('w, 'a, 'e) eff = "'w \<Rightarrow> ('a, 'e) result \<times> 'w"

definition return_io :: "'a \<Rightarrow> ('w, 'a, 'e) eff" where
  "return_io x w = (Inr x, w)"

definition fail_io :: "'e \<Rightarrow> ('w, 'a, 'e) eff" where
  "fail_io e w = (Inl e, w)"

definition bind_io :: "('w, 'a, 'e) eff \<Rightarrow> ('a \<Rightarrow> ('w, 'b, 'e) eff) \<Rightarrow> ('w, 'b, 'e) eff" where
  "bind_io m f w = (case m w of (Inl e, w') \<Rightarrow> (Inl e, w') | (Inr x, w') \<Rightarrow> f x w')"

definition map_err_io :: "('e \<Rightarrow> 'f) \<Rightarrow> ('w, 'a, 'e) eff \<Rightarrow> ('w, 'a, 'f) eff" where
  "map_err_io g m w = (case m w of (r, w') \<Rightarrow> (map_err g r, w'))"

fun for_io :: "'a list \<Rightarrow> ('a \<Rightarrow> ('w, unit, 'e) eff) \<Rightarrow> ('w, unit, 'e) eff" where
  "for_io [] f = return_io ()"
| "for_io (x # xs) f = bind_io (f x) (\<lambda>_. for_io xs f)"

fun fold_io :: "('s \<Rightarrow> 'a \<Rightarrow> ('w, 's, 'e) eff) \<Rightarrow> 's \<Rightarrow> 'a list \<Rightarrow> ('w, 's, 'e) eff" where
  "fold_io step s [] = return_io s"
| "fold_io step s (x # xs) = bind_io (step s x) (\<lambda>s'. fold_io step s' xs)"

definition lift_result :: "('a, 'e) result \<Rightarrow> ('w, 'a, 'e) eff" where
  "lift_result r w = (r, w)"

definition ensure_io :: "bool \<Rightarrow> 'e \<Rightarrow> ('w, unit, 'e) eff" where
  "ensure_io b e = (if b then return_io () else fail_io e)"

lemma bind_ioE:
  assumes "bind_io m f w = (r, w')"
  obtains (err) e where "m w = (Inl e, w')" "r = Inl e"
    | (ok) x v where "m w = (Inr x, v)" "f x v = (r, w')"
  using assms by (auto simp: bind_io_def split: prod.splits sum.splits)

lemma map_err_ioE:
  assumes "map_err_io g m w = (r, w')"
  obtains r' where "m w = (r', w')" "r = map_err g r'"
  using assms by (auto simp: map_err_io_def split: prod.splits)

lemma map_err_io_Inr: "map_err_io g m w = (Inr x, w') \<Longrightarrow> m w = (Inr x, w')"
  by (auto simp: map_err_io_def result_simps split: prod.splits)

section \<open>Relations every step respects\<close>

text \<open>
  A reflexive and transitive relation between the state before and the state after that every
  primitive step respects is respected by every computation composed of them, on the error
  paths too.
\<close>

locale effect_rel =
  fixes R :: "'w \<Rightarrow> 'w \<Rightarrow> bool"
  assumes R_refl: "R w w" and R_trans: "R u v \<Longrightarrow> R v w \<Longrightarrow> R u w"
begin

definition obeys :: "('w, 'a, 'e) eff \<Rightarrow> bool" where
  "obeys m \<longleftrightarrow> (\<forall>w. R w (snd (m w)))"

lemma obeys_return: "obeys (return_io x)"
  by (simp add: obeys_def return_io_def R_refl)

lemma obeys_fail: "obeys (fail_io e)"
  by (simp add: obeys_def fail_io_def R_refl)

lemma obeys_lift: "obeys (lift_result r)"
  by (simp add: obeys_def lift_result_def R_refl)

lemma obeys_ensure: "obeys (ensure_io b e)"
  by (simp add: ensure_io_def obeys_return obeys_fail)

lemma obeys_bind: "obeys m \<Longrightarrow> (\<And>x. obeys (f x)) \<Longrightarrow> obeys (bind_io m f)"
  unfolding obeys_def bind_io_def
  by (auto split: prod.splits sum.splits) (metis R_trans snd_conv)+

lemma obeys_map_err: "obeys m \<Longrightarrow> obeys (map_err_io g m)"
  by (simp add: obeys_def map_err_io_def split: prod.splits) (metis snd_conv)

lemma obeys_for: "(\<And>x. obeys (f x)) \<Longrightarrow> obeys (for_io xs f)"
  by (induction xs) (simp_all add: obeys_return obeys_bind)

lemma obeys_fold: "(\<And>s x. obeys (f s x)) \<Longrightarrow> obeys (fold_io f s xs)"
  by (induction xs arbitrary: s) (simp_all add: obeys_return obeys_bind)

lemma obeys_if: "(b \<Longrightarrow> obeys m) \<Longrightarrow> (\<not> b \<Longrightarrow> obeys n) \<Longrightarrow> obeys (if b then m else n)"
  by simp

lemma obeys_option:
  "obeys m \<Longrightarrow> (\<And>x. obeys (f x)) \<Longrightarrow> obeys (case x of None \<Rightarrow> m | Some y \<Rightarrow> f y)"
  by (cases x) simp_all

lemma obeys_sum:
  "(\<And>x. obeys (f x)) \<Longrightarrow> (\<And>x. obeys (g x)) \<Longrightarrow> obeys (case r of Inl x \<Rightarrow> f x | Inr y \<Rightarrow> g y)"
  by (cases r) simp_all

lemmas obeys_intros =
  obeys_return obeys_fail obeys_lift obeys_ensure obeys_bind obeys_map_err
  obeys_for obeys_fold obeys_if obeys_option obeys_sum

lemma obeysD: "obeys m \<Longrightarrow> m w = (r, w') \<Longrightarrow> R w w'"
  by (metis obeys_def snd_conv)

end

end
