(* ===== verification/Posix_Fs.thy ===== *)
theory Posix_Fs
  imports Rust_Str Effect
begin

text \<open>
  The part of a POSIX file system the daemon relies on when it changes a live workspace:
  inodes, directories reached through held descriptors, \<^verbatim>\<open>openat\<close>/\<^verbatim>\<open>fstatat\<close> without
  following links, exclusive creation, \<^verbatim>\<open>renameat\<close>, \<^verbatim>\<open>unlinkat\<close>, ownership and modes.

  A computation that performs system calls is a function on a \<open>world\<close>. Every call first
  consults the world's fault schedule, so a theorem about all worlds covers every pattern of
  I/O failures. The daemon's private staging directory is a separate map from paths to
  contents. Random UUIDs are the world's \<open>uuid\<close> sequence.
\<close>

unbundle bit_operations_syntax

datatype io_error = OsError nat string | OtherError string

fun show_io_error :: "io_error \<Rightarrow> string" where
  "show_io_error (OsError _ s) = s"
| "show_io_error (OtherError s) = s"

fun raw_os_error :: "io_error \<Rightarrow> nat option" where
  "raw_os_error (OsError n _) = Some n"
| "raw_os_error (OtherError _) = None"

definition ENOENT :: nat where "ENOENT = 2"

definition EIO :: nat where "EIO = 5"

definition EEXIST :: nat where "EEXIST = 17"

definition ENOTDIR :: nat where "ENOTDIR = 20"

definition EISDIR :: nat where "EISDIR = 21"

definition ELOOP :: nat where "ELOOP = 40"

definition S_IFMT :: u32 where "S_IFMT = 0xF000"

definition S_IFREG :: u32 where "S_IFREG = 0x8000"

definition S_IFDIR :: u32 where "S_IFDIR = 0x4000"

record file_identity =
  device :: nat
  inode :: nat

record node =
  st_mode :: u32
  st_uid :: u32
  st_gid :: u32
  content :: bytes
  entries :: "string \<Rightarrow> file_identity option"

record world =
  roots :: "string \<Rightarrow> file_identity option"
  nodes :: "file_identity \<Rightarrow> node option"
  next_inode :: nat
  staging :: "string \<Rightarrow> bytes option"
  staging_dirs :: "string list"
  ticks :: nat
  faults :: "nat \<Rightarrow> string option"
  cancel_at :: "nat \<Rightarrow> bool"
  uuid :: "nat \<Rightarrow> string"
  next_uuid :: nat

type_synonym ('a, 'e) io = "(world, 'a, 'e) eff"

text \<open>A system call fails with the scheduled error and no effect, or does its work.\<close>

definition syscall :: "('a, io_error) io \<Rightarrow> ('a, io_error) io" where
  "syscall call w =
     (let w' = w\<lparr>ticks := Suc (ticks w)\<rparr> in
      case faults w (ticks w) of
        Some s \<Rightarrow> (Inl (OsError EIO s), w')
      | None \<Rightarrow> call w')"

definition os_error :: "nat \<Rightarrow> ('a, io_error) io" where
  "os_error n = fail_io (OsError n (''os error '' @ show_nat n))"

section \<open>Directories and files\<close>

definition is_dir_mode :: "u32 \<Rightarrow> bool" where
  "is_dir_mode mode = (mode AND S_IFMT = S_IFDIR)"

definition is_regular_mode :: "u32 \<Rightarrow> bool" where
  "is_regular_mode mode = (mode AND S_IFMT = S_IFREG)"

definition dir_entry :: "world \<Rightarrow> file_identity \<Rightarrow> string \<Rightarrow> file_identity option" where
  "dir_entry w d n =
     (case nodes w d of
        Some nd \<Rightarrow> if is_dir_mode (st_mode nd) then entries nd n else None
      | None \<Rightarrow> None)"

definition set_entry ::
  "file_identity \<Rightarrow> string \<Rightarrow> file_identity option \<Rightarrow> world \<Rightarrow> world" where
  "set_entry d n x w =
     (case nodes w d of
        Some nd \<Rightarrow> w\<lparr>nodes := (nodes w)(d \<mapsto> nd\<lparr>entries := (entries nd)(n := x)\<rparr>)\<rparr>
      | None \<Rightarrow> w)"

text \<open>\<^verbatim>\<open>open(path, O_RDONLY | O_NOFOLLOW | O_DIRECTORY)\<close> of an absolute path.\<close>

definition open_root :: "string \<Rightarrow> (file_identity, io_error) io" where
  "open_root p = syscall (\<lambda>w.
     case roots w p of
       None \<Rightarrow> os_error ENOENT w
     | Some i \<Rightarrow>
         (case nodes w i of
            Some nd \<Rightarrow> if is_dir_mode (st_mode nd) then (Inr i, w) else os_error ENOTDIR w
          | None \<Rightarrow> os_error EIO w))"

definition openat_dir :: "file_identity \<Rightarrow> string \<Rightarrow> (file_identity, io_error) io" where
  "openat_dir d n = syscall (\<lambda>w.
     case dir_entry w d n of
       None \<Rightarrow> os_error ENOENT w
     | Some i \<Rightarrow>
         (case nodes w i of
            Some nd \<Rightarrow> if is_dir_mode (st_mode nd) then (Inr i, w) else os_error ENOTDIR w
          | None \<Rightarrow> os_error EIO w))"

definition fstatat :: "file_identity \<Rightarrow> string \<Rightarrow> (file_identity \<times> node, io_error) io" where
  "fstatat d n = syscall (\<lambda>w.
     case dir_entry w d n of
       None \<Rightarrow> os_error ENOENT w
     | Some i \<Rightarrow> (case nodes w i of Some nd \<Rightarrow> (Inr (i, nd), w) | None \<Rightarrow> os_error EIO w))"

text \<open>\<^verbatim>\<open>openat(.., O_RDONLY | O_NOFOLLOW)\<close>: a symbolic link is refused.\<close>

definition S_IFLNK :: u32 where "S_IFLNK = 0xA000"

definition openat_file :: "file_identity \<Rightarrow> string \<Rightarrow> (file_identity, io_error) io" where
  "openat_file d n = syscall (\<lambda>w.
     case dir_entry w d n of
       None \<Rightarrow> os_error ENOENT w
     | Some i \<Rightarrow>
         (case nodes w i of
            Some nd \<Rightarrow> if st_mode nd AND S_IFMT = S_IFLNK then os_error ELOOP w else (Inr i, w)
          | None \<Rightarrow> os_error EIO w))"

definition fstat :: "file_identity \<Rightarrow> (file_identity \<times> node, io_error) io" where
  "fstat i = syscall (\<lambda>w. case nodes w i of Some nd \<Rightarrow> (Inr (i, nd), w) | None \<Rightarrow> os_error EIO w)"

text \<open>\<^verbatim>\<open>openat(.., O_CREAT | O_EXCL, mode)\<close>.\<close>

definition create_excl :: "file_identity \<Rightarrow> string \<Rightarrow> u32 \<Rightarrow> (file_identity, io_error) io" where
  "create_excl d n mode = syscall (\<lambda>w.
     case nodes w d of
       None \<Rightarrow> os_error EIO w
     | Some dnd \<Rightarrow>
         if \<not> is_dir_mode (st_mode dnd) then os_error ENOTDIR w
         else if entries dnd n \<noteq> None then os_error EEXIST w
         else
           let i = \<lparr>device = device d, inode = next_inode w\<rparr>;
               nd = \<lparr>st_mode = S_IFREG OR (mode AND 0xFFF), st_uid = 0, st_gid = 0, content = [],
                     entries = Map.empty\<rparr>
           in (Inr i, set_entry d n (Some i)
                 (w\<lparr>nodes := (nodes w)(i \<mapsto> nd), next_inode := Suc (next_inode w)\<rparr>)))"

definition update_node :: "file_identity \<Rightarrow> (node \<Rightarrow> node) \<Rightarrow> (unit, io_error) io" where
  "update_node i f = syscall (\<lambda>w.
     case nodes w i of
       None \<Rightarrow> os_error EIO w
     | Some nd \<Rightarrow> (Inr (), w\<lparr>nodes := (nodes w)(i \<mapsto> f nd)\<rparr>))"

definition append_fd :: "file_identity \<Rightarrow> bytes \<Rightarrow> (unit, io_error) io" where
  "append_fd i bs = update_node i (\<lambda>nd. nd\<lparr>content := content nd @ bs\<rparr>)"

definition fchown :: "file_identity \<Rightarrow> u32 \<Rightarrow> u32 \<Rightarrow> (unit, io_error) io" where
  "fchown i uid gid = update_node i (\<lambda>nd. nd\<lparr>st_uid := uid, st_gid := gid\<rparr>)"

definition fchmod :: "file_identity \<Rightarrow> u32 \<Rightarrow> (unit, io_error) io" where
  "fchmod i mode =
     update_node i (\<lambda>nd. nd\<lparr>st_mode := (st_mode nd AND S_IFMT) OR (mode AND 0xFFF)\<rparr>)"

text \<open>A call whose only modelled effect is that it may fail, as \<^verbatim>\<open>fsync\<close>.\<close>

definition plain_call :: "(unit, io_error) io" where
  "plain_call = syscall (return_io ())"

definition fsync :: "(unit, io_error) io" where
  "fsync = plain_call"

definition renameat :: "file_identity \<Rightarrow> string \<Rightarrow> string \<Rightarrow> (unit, io_error) io" where
  "renameat d from to = syscall (\<lambda>w.
     case dir_entry w d from of
       None \<Rightarrow> os_error ENOENT w
     | Some i \<Rightarrow>
         (case Option.bind (dir_entry w d to) (nodes w) of
            Some nd \<Rightarrow> if is_dir_mode (st_mode nd) then os_error EISDIR w
              else (Inr (), set_entry d from None (set_entry d to (Some i) w))
          | None \<Rightarrow> (Inr (), set_entry d from None (set_entry d to (Some i) w))))"

definition unlinkat :: "file_identity \<Rightarrow> string \<Rightarrow> (unit, io_error) io" where
  "unlinkat d n = syscall (\<lambda>w.
     case dir_entry w d n of
       None \<Rightarrow> os_error ENOENT w
     | Some i \<Rightarrow>
         (case nodes w i of
            Some nd \<Rightarrow> if is_dir_mode (st_mode nd) then os_error EISDIR w
              else (Inr (), set_entry d n None w)
          | None \<Rightarrow> (Inr (), set_entry d n None w)))"

section \<open>The private staging directory\<close>

definition create_dir :: "string \<Rightarrow> (unit, io_error) io" where
  "create_dir p = syscall (\<lambda>w.
     if p \<in> set (staging_dirs w) then os_error EEXIST w
     else (Inr (), w\<lparr>staging_dirs := p # staging_dirs w\<rparr>))"

definition create_new :: "string \<Rightarrow> (unit, io_error) io" where
  "create_new p = syscall (\<lambda>w.
     if staging w p \<noteq> None then os_error EEXIST w
     else (Inr (), w\<lparr>staging := (staging w)(p \<mapsto> [])\<rparr>))"

definition append_staged :: "string \<Rightarrow> bytes \<Rightarrow> (unit, io_error) io" where
  "append_staged p bs = syscall (\<lambda>w.
     case staging w p of
       None \<Rightarrow> os_error ENOENT w
     | Some c \<Rightarrow> (Inr (), w\<lparr>staging := (staging w)(p \<mapsto> c @ bs)\<rparr>))"

definition open_staged :: "string \<Rightarrow> (bytes, io_error) io" where
  "open_staged p = syscall (\<lambda>w.
     case staging w p of None \<Rightarrow> os_error ENOENT w | Some c \<Rightarrow> (Inr c, w))"

definition remove_dir_all :: "string \<Rightarrow> world \<Rightarrow> world" where
  "remove_dir_all p w =
     w\<lparr>staging := (\<lambda>q. if prefix (p @ ''/'') q then None else staging w q),
       staging_dirs := filter (\<lambda>q. q \<noteq> p \<and> \<not> prefix (p @ ''/'') q) (staging_dirs w)\<rparr>"

text \<open>Buffered copies move 8192 bytes at a time.\<close>

function chunks :: "bytes \<Rightarrow> bytes list" where
  "chunks bs = (if bs = [] then [] else take 8192 bs # chunks (drop 8192 bs))"
  by auto
termination by (relation "measure length") auto

declare chunks.simps [simp del]

lemma chunks_code [code]:
  "chunks bs = (if bs = [] then [] else if int (length bs) \<le> 8192 then [bs]
     else take 8192 bs # chunks (drop 8192 bs))"
  by (subst chunks.simps) (simp add: chunks.simps [of "[]"])

lemma concat_chunks [simp]: "concat (chunks bs) = bs"
  by (induction bs rule: chunks.induct) (simp add: chunks.simps)

definition is_cancelled :: "world \<Rightarrow> bool \<times> world" where
  "is_cancelled w = (cancel_at w (ticks w), w\<lparr>ticks := Suc (ticks w)\<rparr>)"

definition new_uuid :: "world \<Rightarrow> string \<times> world" where
  "new_uuid w = (uuid w (next_uuid w), w\<lparr>next_uuid := Suc (next_uuid w)\<rparr>)"

end
