(* ===== verification/Zip_Archive.thy ===== *)
theory Zip_Archive
  imports Prelude
begin

text \<open>
  What the daemon sees of an archive through the \<^verbatim>\<open>zip\<close> crate, which is third-party code:
  the entries of the central directory in order, each with the metadata the crate decodes and the
  results its reader returns call by call. Nothing is assumed of them: names, sizes, modes and
  contents are whatever an uploader put there, and the declared size need not be the number of
  bytes read.
\<close>

record zip_entry =
  ze_name :: string
  ze_is_dir :: bool
  ze_is_symlink :: bool
  ze_unix_mode :: "u32 option"
  ze_size :: u64
  ze_reads :: "(bytes, string) result list"

type_synonym zip_archive = "(zip_entry, string) result list"

text \<open>
  The bytes a \<^verbatim>\<open>read\<close> loop obtains: everything up to the first empty read.
\<close>

fun read_bytes :: "(bytes, 'e) result list \<Rightarrow> (bytes, 'e) result" where
  "read_bytes [] = Inr []"
| "read_bytes (Inl e # _) = Inl e"
| "read_bytes (Inr b # rs) =
     (if b = [] then Inr [] else and_then (read_bytes rs) (\<lambda>bs. Inr (b @ bs)))"

end
