(* ===== verification/Config.thy ===== *)
theory Config
  imports Protocol Validation
begin

text \<open>
  The daemon's configuration (\<^verbatim>\<open>src/config/mod.rs\<close>): the data as deserialised, the defaults, and
  the start-up validation in the order of its checks. A \<^verbatim>\<open>HashMap\<close> is the list of its entries in
  iteration order. \<^verbatim>\<open>stat\<close> of a path and \<^verbatim>\<open>glob::Pattern::new\<close> are parameters, as are the
  environment, the file and the TOML parser of \<open>load_from_sources\<close>.
\<close>

unbundle bit_operations_syntax

section \<open>Constants and data\<close>

definition DEFAULT_CONFIG_PATH :: string where
  "DEFAULT_CONFIG_PATH = ''/etc/indentured-server/config.toml''"

definition CONFIG_SCHEMA_VERSION :: string where "CONFIG_SCHEMA_VERSION = ''12''"

definition SERVICE_READY_FD_ENV :: string where "SERVICE_READY_FD_ENV = ''INDENTURED_SERVICE_READY_FD''"

definition SCRIPT_SHELL :: string where "SCRIPT_SHELL = ''/bin/sh''"

definition MAX_SESSION_LIFETIME_SEC :: u64 where "MAX_SESSION_LIFETIME_SEC = 0xFFFFFFFF"

definition MAX_TASK_SCRIPT_BYTES :: nat where "MAX_TASK_SCRIPT_BYTES = 64 * 1024"

definition DEFAULT_SOURCE_TRANSFER_BYTES :: u64 where "DEFAULT_SOURCE_TRANSFER_BYTES = 134217728"

definition DEFAULT_SOURCE_UNCOMPRESSED_BYTES :: u64 where
  "DEFAULT_SOURCE_UNCOMPRESSED_BYTES = DEFAULT_SOURCE_TRANSFER_BYTES * 10"

definition DEFAULT_SOURCE_MAX_FILES :: nat where "DEFAULT_SOURCE_MAX_FILES = 50000"

definition DEFAULT_SOURCE_MAX_DEPTH :: nat where "DEFAULT_SOURCE_MAX_DEPTH = 64"

definition DEFAULT_SOURCE_UPLOAD_TIMEOUT_SEC :: u64 where "DEFAULT_SOURCE_UPLOAD_TIMEOUT_SEC = 120"

definition MAX_SOURCE_UPLOAD_TIMEOUT_SEC :: u64 where "MAX_SOURCE_UPLOAD_TIMEOUT_SEC = 3600"

definition DEFAULT_OUTPUT_BYTES :: u64 where "DEFAULT_OUTPUT_BYTES = 64 * 1024 * 1024"

definition DEFAULT_ARTIFACT_TRANSFER_BYTES :: u64 where
  "DEFAULT_ARTIFACT_TRANSFER_BYTES = 512 * 1024 * 1024"

definition DEFAULT_ARTIFACT_UNCOMPRESSED_BYTES :: u64 where
  "DEFAULT_ARTIFACT_UNCOMPRESSED_BYTES = 2 * 1024 * 1024 * 1024"

definition DEFAULT_ARTIFACT_MAX_FILES :: nat where "DEFAULT_ARTIFACT_MAX_FILES = 10000"

definition DEFAULT_ARTIFACT_MAX_DEPTH :: nat where "DEFAULT_ARTIFACT_MAX_DEPTH = 64"

datatype config_error =
    ConfigIo string string
  | ParseToml string "nat option" "nat option"
  | Invalid string

datatype config_path_kind = PathExplicit | PathEnv | PathDefault

type_synonym 'a table = "(string \<times> 'a) list"

record host_observation_config =
  ho_enabled :: bool
  ho_socket :: "string option"
  ho_peer_uid :: "u32 option"

record socket_config =
  so_enabled :: bool
  so_path :: string
  so_group :: "string option"
  so_mode :: string

record http_auth_config =
  au_auth_type :: string
  au_required :: bool
  au_token_files :: "string list"

record http_tls_config =
  tls_enabled :: bool
  tls_cert_path :: "string option"
  tls_key_path :: "string option"

record http_config =
  ht_enabled :: bool
  ht_listen_addr :: string
  ht_auth :: http_auth_config
  ht_tls :: http_tls_config

record service_config =
  sv_socket :: socket_config
  sv_http :: http_config
  sv_max_concurrent_builds :: usize

record build_config =
  bc_workspace_root :: string
  bc_max_timeout_sec :: u64
  bc_max_output_bytes :: u64
  bc_run_as_user :: "string option"
  bc_run_as_group :: "string option"

record artifact_spec =
  as_include :: "string list"
  as_exclude :: "string list"

text \<open>How a phase is executed; the same three fields occur in five structures.\<close>

record execution_spec =
  ex_script :: "string option"
  ex_executable :: "string option"
  ex_args :: "string list"

record task_setup_config =
  ts_exec :: execution_spec
  ts_timeout_sec :: u64

record session_teardown_config =
  te_exec :: execution_spec
  te_timeout_sec :: u64

record session_service_config =
  sc_exec :: execution_spec
  sc_startup_timeout_sec :: u64
  sc_shutdown_timeout_sec :: u64
  sc_diagnostic_tail_bytes :: u64

record session_action_config =
  ac_exec :: execution_spec
  ac_timeout_sec :: u64
  ac_artifacts :: artifact_spec

record session_action_policy_override =
  po_timeout_sec :: "u64 option"
  po_artifacts :: "artifact_spec option"

record session_action_dispatcher_config =
  di_exec :: execution_spec
  di_timeout_sec :: u64
  di_artifacts :: artifact_spec
  di_allow_unlisted :: bool
  di_actions :: "session_action_policy_override table"

record source_updates_config =
  su_timeout_sec :: u64
  su_max_transfer_bytes :: u64
  su_max_uncompressed_bytes :: u64
  su_max_files :: usize
  su_max_depth :: usize
  su_include :: "string list"
  su_exclude :: "string list"

record task_session_config =
  se_idle_timeout_sec :: u64
  se_max_lifetime_sec :: u64
  se_teardown :: session_teardown_config
  se_services :: "session_service_config table"
  se_actions :: "session_action_config table"
  se_action_dispatcher :: "session_action_dispatcher_config option"
  se_source_updates :: "source_updates_config option"

datatype workspace_policy = Fresh

record task_config =
  tc_exec :: execution_spec
  tc_setup :: "task_setup_config option"
  tc_session :: "task_session_config option"
  tc_cwd :: string
  tc_timeout_sec :: u64
  tc_environment :: "string table"
  tc_artifacts :: artifact_spec
  tc_workspace :: workspace_policy

record artifacts_config =
  af_storage_root :: string
  af_ttl_sec :: "u64 option"
  af_gc_interval_sec :: "u64 option"
  af_max_bytes :: "u64 option"
  af_max_transfer_bytes :: u64
  af_max_uncompressed_bytes :: u64
  af_max_files :: usize
  af_max_depth :: usize
  af_restricted_patterns :: "string list"

record logging_config =
  lg_directory :: "string option"
  lg_level :: string
  lg_max_bytes :: u64
  lg_max_files :: usize
  lg_console :: bool

record sources_config =
  sr_max_transfer_bytes :: u64
  sr_max_uncompressed_bytes :: u64
  sr_max_files :: usize
  sr_max_depth :: usize
  sr_upload_timeout_sec :: u64

record config =
  cf_schema_version :: string
  cf_service :: service_config
  cf_build :: build_config
  cf_tasks :: "task_config table"
  cf_host_observation :: host_observation_config
  cf_sources :: sources_config
  cf_artifacts :: artifacts_config
  cf_logging :: logging_config

section \<open>Defaults\<close>

definition default_socket :: socket_config where
  "default_socket = \<lparr>so_enabled = False, so_path = ''/run/indentured-server/control/server.sock'',
     so_group = None, so_mode = ''0600''\<rparr>"

definition default_http_auth :: http_auth_config where
  "default_http_auth = \<lparr>au_auth_type = ''bearer'', au_required = False, au_token_files = []\<rparr>"

definition default_http_tls :: http_tls_config where
  "default_http_tls = \<lparr>tls_enabled = False, tls_cert_path = None, tls_key_path = None\<rparr>"

definition default_http :: http_config where
  "default_http = \<lparr>ht_enabled = False, ht_listen_addr = ''127.0.0.1:8080'', ht_auth = default_http_auth,
     ht_tls = default_http_tls\<rparr>"

definition default_service :: service_config where
  "default_service = \<lparr>sv_socket = default_socket, sv_http = default_http, sv_max_concurrent_builds = 1\<rparr>"

definition default_build :: build_config where
  "default_build = \<lparr>bc_workspace_root = ''/var/lib/indentured-server/workspaces'', bc_max_timeout_sec = 1800,
     bc_max_output_bytes = DEFAULT_OUTPUT_BYTES, bc_run_as_user = None, bc_run_as_group = None\<rparr>"

definition default_sources :: sources_config where
  "default_sources = \<lparr>sr_max_transfer_bytes = DEFAULT_SOURCE_TRANSFER_BYTES,
     sr_max_uncompressed_bytes = DEFAULT_SOURCE_UNCOMPRESSED_BYTES, sr_max_files = DEFAULT_SOURCE_MAX_FILES,
     sr_max_depth = DEFAULT_SOURCE_MAX_DEPTH, sr_upload_timeout_sec = DEFAULT_SOURCE_UPLOAD_TIMEOUT_SEC\<rparr>"

definition default_artifacts :: artifacts_config where
  "default_artifacts = \<lparr>af_storage_root = [], af_ttl_sec = None, af_gc_interval_sec = None, af_max_bytes = None,
     af_max_transfer_bytes = DEFAULT_ARTIFACT_TRANSFER_BYTES,
     af_max_uncompressed_bytes = DEFAULT_ARTIFACT_UNCOMPRESSED_BYTES, af_max_files = DEFAULT_ARTIFACT_MAX_FILES,
     af_max_depth = DEFAULT_ARTIFACT_MAX_DEPTH, af_restricted_patterns = []\<rparr>"

definition default_logging :: logging_config where
  "default_logging = \<lparr>lg_directory = None, lg_level = ''info'', lg_max_bytes = 104857600, lg_max_files = 5,
     lg_console = True\<rparr>"

definition default_host_observation :: host_observation_config where
  "default_host_observation = \<lparr>ho_enabled = False, ho_socket = None, ho_peer_uid = None\<rparr>"

section \<open>Executions and dispatch\<close>

datatype task_execution = Script string | Executable string "string list"

text \<open>\<^const>\<open>None\<close> is the \<^verbatim>\<open>unreachable!\<close> branch, a panic.\<close>

fun execution :: "execution_spec \<Rightarrow> task_execution option" where
  "execution e =
     (case (ex_script e, ex_executable e) of
        (Some script, None) \<Rightarrow> if ex_args e = [] then Some (Script script) else None
      | (None, Some path) \<Rightarrow> Some (Executable path (ex_args e))
      | _ \<Rightarrow> None)"

declare execution.simps [simp del]

definition dispatcher_resolve ::
  "session_action_dispatcher_config \<Rightarrow> string \<Rightarrow> session_action_config option" where
  "dispatcher_resolve d action_name =
     (let policy = map_of (di_actions d) action_name in
      if policy = None \<and> \<not> di_allow_unlisted d then None
      else Some \<lparr>ac_exec = di_exec d,
        ac_timeout_sec = (case Option.bind policy po_timeout_sec of Some t \<Rightarrow> t | None \<Rightarrow> di_timeout_sec d),
        ac_artifacts = (case Option.bind policy po_artifacts of Some a \<Rightarrow> a | None \<Rightarrow> di_artifacts d)\<rparr>)"

definition uses_script :: "task_config \<Rightarrow> bool" where
  "uses_script t =
     (ex_script (tc_exec t) \<noteq> None
      \<or> (case tc_setup t of None \<Rightarrow> False | Some setup \<Rightarrow> ex_script (ts_exec setup) \<noteq> None)
      \<or> (case tc_session t of None \<Rightarrow> False | Some s \<Rightarrow>
           ex_script (te_exec (se_teardown s)) \<noteq> None
           \<or> list_ex (\<lambda>(_, x). ex_script (sc_exec x) \<noteq> None) (se_services s)
           \<or> list_ex (\<lambda>(_, x). ex_script (ac_exec x) \<noteq> None) (se_actions s)
           \<or> (case se_action_dispatcher s of None \<Rightarrow> False | Some d \<Rightarrow> ex_script (di_exec d) \<noteq> None)))"

section \<open>Validation of the parts\<close>

abbreviation require :: "bool \<Rightarrow> string \<Rightarrow> (unit, config_error) result" where
  "require b m \<equiv> ensure b (Invalid m)"

abbreviation show_u64 :: "u64 \<Rightarrow> string" where
  "show_u64 x \<equiv> show_nat (unat x)"

fun show_validation_error :: "string validation_error \<Rightarrow> string" where
  "show_validation_error CwdNotAbsolute = ''cwd must be an absolute path''"
| "show_validation_error (PathNotRelative field) = field @ '' must be a relative path''"
| "show_validation_error (PathHasParent field) = field @ '' must not contain parent directory references''"
| "show_validation_error (EmptyValue field) = field @ '' must not be empty''"
| "show_validation_error (CwdOutsideRoot cwd root) =
     ''cwd '' @ debug_str cwd @ '' is outside allowed root '' @ debug_str root"
| "show_validation_error (InvalidPath flag err) = ''invalid path for '' @ flag @ '': '' @ err"

definition validate_args :: "string list \<Rightarrow> string \<Rightarrow> (unit, config_error) result" where
  "validate_args args field =
     require (\<not> list_ex (\<lambda>arg. CHR 0x00 \<in> set arg) args) (field @ '' must not contain NUL'')"

type_synonym ('p) pattern_new = "string \<Rightarrow> ('p, string) result"

definition validate_pattern :: "'p pattern_new \<Rightarrow> string \<Rightarrow> string \<Rightarrow> (unit, config_error) result" where
  "validate_pattern pattern_new field pattern =
     and_then (map_err (\<lambda>err. Invalid (show_validation_error err)) (validate_relative_pattern pattern field)) (\<lambda>_.
     and_then (map_err (\<lambda>err. Invalid (''invalid glob in '' @ field @ '' '' @ debug_str pattern @ '': '' @ err))
       (pattern_new pattern)) (\<lambda>_. Inr ()))"

definition validate_patterns :: "'p pattern_new \<Rightarrow> string list \<Rightarrow> string \<Rightarrow> (unit, config_error) result" where
  "validate_patterns pattern_new patterns field = try_all (validate_pattern pattern_new field) patterns"

definition validate_artifact_spec ::
  "'p pattern_new \<Rightarrow> artifact_spec \<Rightarrow> string \<Rightarrow> (unit, config_error) result" where
  "validate_artifact_spec pattern_new spec field =
     and_then (validate_patterns pattern_new (as_include spec) (field @ ''.include'')) (\<lambda>_.
     validate_patterns pattern_new (as_exclude spec) (field @ ''.exclude''))"

text \<open>\<^verbatim>\<open>str::split_once\<close> at the first occurrence.\<close>

fun split_once :: "string \<Rightarrow> string \<Rightarrow> (string \<times> string) option" where
  "split_once pat [] = (if pat = [] then Some ([], []) else None)"
| "split_once pat (c # cs) =
     (case strip_prefix pat (c # cs) of
        Some rest \<Rightarrow> Some ([], rest)
      | None \<Rightarrow> map_option (\<lambda>(a, b). (c # a, b)) (split_once pat cs))"

definition environment_field :: "string \<Rightarrow> string" where
  "environment_field field =
     (case split_once ''.session'' field of
        Some (task, _) \<Rightarrow> task
      | None \<Rightarrow> (case strip_suffix ''.setup'' field of Some t \<Rightarrow> t | None \<Rightarrow> field))"

definition validate_script :: "string \<Rightarrow> string \<Rightarrow> string table \<Rightarrow> (unit, config_error) result" where
  "validate_script script field environment =
     and_then (require (\<not> (script = [] \<or> MAX_TASK_SCRIPT_BYTES < length script \<or> trim script = []))
       (field @ ''.script must contain 1 to '' @ show_nat MAX_TASK_SCRIPT_BYTES
         @ '' bytes of non-whitespace text'')) (\<lambda>_.
     and_then (require (CHR 0x00 \<notin> set script) (field @ ''.script must not contain NUL'')) (\<lambda>_.
     and_then (ok_or (map_of environment ''PATH'') (Invalid (environment_field field
         @ ''.environment.PATH is required for script tasks''))) (\<lambda>path.
     require (\<not> (path = [] \<or> list_ex (\<lambda>c. c = [] \<or> \<not> is_absolute c) (split_on (CHR '':'') path)))
       (environment_field field @ ''.environment.PATH must contain only nonempty absolute components''))))"

text \<open>\<^verbatim>\<open>std::fs::metadata\<close>: whether the path is a regular file, and its mode.\<close>

type_synonym stat = "string \<Rightarrow> (bool \<times> u32, string) result"

definition validate_executable_file :: "stat \<Rightarrow> string \<Rightarrow> string \<Rightarrow> (unit, config_error) result" where
  "validate_executable_file stat path field =
     and_then (require (is_absolute path) (field @ '' must be an absolute path'')) (\<lambda>_.
     and_then (map_err (\<lambda>err. Invalid (field @ '' is not accessible at '' @ debug_str path @ '': '' @ err))
       (stat path)) (\<lambda>(is_file, mode).
     require (is_file \<and> mode AND 0x49 \<noteq> 0) (field @ '' must be an executable regular file'')))"

definition validate_execution ::
  "stat \<Rightarrow> execution_spec \<Rightarrow> string \<Rightarrow> string table \<Rightarrow> (unit, config_error) result" where
  "validate_execution stat e field environment =
     (case (ex_script e, ex_executable e) of
        (Some _, Some _) \<Rightarrow> Inl (Invalid (field @ '' must define exactly one of script or executable''))
      | (None, None) \<Rightarrow> Inl (Invalid (field @ '' must define exactly one of script or executable''))
      | (Some script, None) \<Rightarrow>
          and_then (require (ex_args e = []) (field @ ''.args must be empty when script is set'')) (\<lambda>_.
          validate_script script field environment)
      | (None, Some executable) \<Rightarrow> validate_executable_file stat executable (field @ ''.executable''))"

definition validate_session_execution ::
  "stat \<Rightarrow> execution_spec \<Rightarrow> u64 \<Rightarrow> string \<Rightarrow> string table \<Rightarrow> u64 \<Rightarrow> (unit, config_error) result" where
  "validate_session_execution stat e timeout_sec field environment max_timeout_sec =
     and_then (validate_execution stat e field environment) (\<lambda>_.
     and_then (validate_args (ex_args e) (field @ ''.args'')) (\<lambda>_.
     require (\<not> (timeout_sec = 0 \<or> max_timeout_sec < timeout_sec))
       (field @ ''.timeout_sec must be between 1 and build.max_timeout_sec '' @ ''('' @ show_u64 max_timeout_sec @ '')'')))"

definition within_global :: "string \<Rightarrow> string \<Rightarrow> nat \<Rightarrow> nat \<Rightarrow> (unit, config_error) result" where
  "within_global field name v maximum =
     require (\<not> (v = 0 \<or> maximum < v))
       (field @ ''.'' @ name @ '' must be between 1 and the global sources.'' @ name
         @ '' ('' @ show_nat maximum @ '')'')"

definition source_updates_validate ::
  "'p pattern_new \<Rightarrow> source_updates_config \<Rightarrow> string \<Rightarrow> u64 \<Rightarrow> sources_config \<Rightarrow> (unit, config_error) result" where
  "source_updates_validate pattern_new u field max_timeout_sec sources =
     and_then (require (\<not> (su_timeout_sec u = 0 \<or> max_timeout_sec < su_timeout_sec u
         \<or> sr_upload_timeout_sec sources < su_timeout_sec u))
       (field @ ''.timeout_sec must be between 1 and both build.max_timeout_sec ('' @ show_u64 max_timeout_sec
         @ '') and sources.upload_timeout_sec ('' @ show_u64 (sr_upload_timeout_sec sources) @ '')'')) (\<lambda>_.
     and_then (within_global field ''max_transfer_bytes'' (unat (su_max_transfer_bytes u))
       (unat (sr_max_transfer_bytes sources))) (\<lambda>_.
     and_then (within_global field ''max_uncompressed_bytes'' (unat (su_max_uncompressed_bytes u))
       (unat (sr_max_uncompressed_bytes sources))) (\<lambda>_.
     and_then (within_global field ''max_files'' (su_max_files u) (sr_max_files sources)) (\<lambda>_.
     and_then (within_global field ''max_depth'' (su_max_depth u) (sr_max_depth sources)) (\<lambda>_.
     and_then (require (su_include u \<noteq> []) (field @ ''.include must not be empty'')) (\<lambda>_.
     and_then (validate_patterns pattern_new (su_include u) (field @ ''.include'')) (\<lambda>_.
     validate_patterns pattern_new (su_exclude u) (field @ ''.exclude''))))))))"

definition validate_service ::
  "stat \<Rightarrow> string \<Rightarrow> string table \<Rightarrow> u64 \<Rightarrow> u64 \<Rightarrow> string \<times> session_service_config \<Rightarrow> (unit, config_error) result"
  where
  "validate_service stat field environment max_timeout_sec max_output_bytes = (\<lambda>(service_name, x).
     let service_field = field @ ''.services.'' @ service_name in
     and_then (require (valid_task_id service_name) (''service name '' @ debug_str service_name @ '' in '' @ field
       @ ''.services must match [A-Za-z0-9_-]+ and be at most 64 bytes'')) (\<lambda>_.
     and_then (validate_execution stat (sc_exec x) service_field environment) (\<lambda>_.
     and_then (validate_args (ex_args (sc_exec x)) (service_field @ ''.args'')) (\<lambda>_.
     and_then (try_all (\<lambda>(name, v). require (\<not> (v = 0 \<or> max_timeout_sec < v))
         (service_field @ ''.'' @ name @ '' must be between 1 and build.max_timeout_sec ''
           @ ''('' @ show_u64 max_timeout_sec @ '')''))
       [(''startup_timeout_sec'', sc_startup_timeout_sec x), (''shutdown_timeout_sec'', sc_shutdown_timeout_sec x)]) (\<lambda>_.
     require (\<not> (sc_diagnostic_tail_bytes x = 0 \<or> max_output_bytes < sc_diagnostic_tail_bytes x))
       (service_field @ ''.diagnostic_tail_bytes must be between 1 and build.max_output_bytes ''
         @ ''('' @ show_u64 max_output_bytes @ '')''))))))"

definition validate_action ::
  "stat \<Rightarrow> 'p pattern_new \<Rightarrow> string \<Rightarrow> string table \<Rightarrow> u64 \<Rightarrow> string \<times> session_action_config
     \<Rightarrow> (unit, config_error) result" where
  "validate_action stat pattern_new field environment max_timeout_sec = (\<lambda>(action_name, x).
     let action_field = field @ ''.actions.'' @ action_name in
     and_then (require (valid_task_id action_name) (''action name '' @ debug_str action_name @ '' in '' @ field
       @ ''.actions must match [A-Za-z0-9_-]+ and be at most 64 bytes'')) (\<lambda>_.
     and_then (validate_session_execution stat (ac_exec x) (ac_timeout_sec x) action_field environment
       max_timeout_sec) (\<lambda>_.
     validate_artifact_spec pattern_new (ac_artifacts x) (action_field @ ''.artifacts''))))"

definition validate_policy ::
  "'p pattern_new \<Rightarrow> string \<Rightarrow> u64 \<Rightarrow> string \<times> session_action_policy_override \<Rightarrow> (unit, config_error) result" where
  "validate_policy pattern_new field max_timeout_sec = (\<lambda>(action_name, x).
     let policy_field = field @ ''.actions.'' @ action_name in
     and_then (require (valid_task_id action_name) (''action name '' @ debug_str action_name @ '' in '' @ field
       @ ''.actions must match [A-Za-z0-9_-]+ and be at most 64 bytes'')) (\<lambda>_.
     and_then (case po_timeout_sec x of None \<Rightarrow> Inr () | Some t \<Rightarrow>
         require (\<not> (t = 0 \<or> max_timeout_sec < t))
           (policy_field @ ''.timeout_sec must be between 1 and build.max_timeout_sec ''
             @ ''('' @ show_u64 max_timeout_sec @ '')'')) (\<lambda>_.
     case po_artifacts x of None \<Rightarrow> Inr () | Some a \<Rightarrow>
       validate_artifact_spec pattern_new a (policy_field @ ''.artifacts''))))"

definition validate_dispatcher ::
  "stat \<Rightarrow> 'p pattern_new \<Rightarrow> string \<Rightarrow> string table \<Rightarrow> u64 \<Rightarrow> session_action_dispatcher_config
     \<Rightarrow> (unit, config_error) result" where
  "validate_dispatcher stat pattern_new field environment max_timeout_sec d =
     (let dispatcher_field = field @ ''.action_dispatcher'' in
     and_then (validate_session_execution stat (di_exec d) (di_timeout_sec d) dispatcher_field environment
       max_timeout_sec) (\<lambda>_.
     and_then (validate_artifact_spec pattern_new (di_artifacts d) (dispatcher_field @ ''.artifacts'')) (\<lambda>_.
     try_all (validate_policy pattern_new dispatcher_field max_timeout_sec) (di_actions d))))"

definition task_session_validate ::
  "stat \<Rightarrow> 'p pattern_new \<Rightarrow> task_session_config \<Rightarrow> string \<Rightarrow> string table \<Rightarrow> u64 \<Rightarrow> u64 \<Rightarrow> sources_config
     \<Rightarrow> (unit, config_error) result" where
  "task_session_validate stat pattern_new s task_name environment max_timeout_sec max_output_bytes sources =
     (let field = ''tasks.'' @ task_name @ ''.session'' in
     and_then (require (se_idle_timeout_sec s \<noteq> 0) (field @ ''.idle_timeout_sec must be greater than zero'')) (\<lambda>_.
     and_then (require (se_max_lifetime_sec s \<noteq> 0) (field @ ''.max_lifetime_sec must be greater than zero'')) (\<lambda>_.
     and_then (require (se_max_lifetime_sec s \<le> MAX_SESSION_LIFETIME_SEC)
       (field @ ''.max_lifetime_sec must be no greater than '' @ show_u64 MAX_SESSION_LIFETIME_SEC)) (\<lambda>_.
     and_then (require (se_idle_timeout_sec s < se_max_lifetime_sec s)
       (field @ ''.idle_timeout_sec must be less than '' @ field @ ''.max_lifetime_sec'')) (\<lambda>_.
     and_then (try_all (validate_service stat field environment max_timeout_sec max_output_bytes) (se_services s)) (\<lambda>_.
     and_then (validate_session_execution stat (te_exec (se_teardown s)) (te_timeout_sec (se_teardown s))
       (field @ ''.teardown'') environment max_timeout_sec) (\<lambda>_.
     and_then (require ((se_actions s = []) \<noteq> (se_action_dispatcher s = None))
       (field @ '' must configure exactly one of named actions or action_dispatcher'')) (\<lambda>_.
     and_then (try_all (validate_action stat pattern_new field environment max_timeout_sec) (se_actions s)) (\<lambda>_.
     and_then (case se_source_updates s of None \<Rightarrow> Inr () | Some u \<Rightarrow>
       source_updates_validate pattern_new u (field @ ''.source_updates'') max_timeout_sec sources) (\<lambda>_.
     case se_action_dispatcher s of None \<Rightarrow> Inr () | Some d \<Rightarrow>
       validate_dispatcher stat pattern_new field environment max_timeout_sec d))))))))))"

definition validate_environment_entry :: "string \<Rightarrow> string \<times> string \<Rightarrow> (unit, config_error) result" where
  "validate_environment_entry name = (\<lambda>(key, v).
     and_then (require (key \<noteq> SERVICE_READY_FD_ENV)
       (''tasks.'' @ name @ ''.environment.'' @ SERVICE_READY_FD_ENV @ '' is reserved for managed services'')) (\<lambda>_.
     require (\<not> (key = [] \<or> CHR ''='' \<in> set key \<or> CHR 0x00 \<in> set key \<or> CHR 0x00 \<in> set v))
       (''tasks.'' @ name @ ''.environment contains an invalid key or value'')))"

definition task_total_timeout ::
  "stat \<Rightarrow> string \<Rightarrow> task_config \<Rightarrow> (u64, config_error) result" where
  "task_total_timeout stat name t =
     (case tc_setup t of
        None \<Rightarrow> Inr (tc_timeout_sec t)
      | Some setup \<Rightarrow>
          and_then (validate_execution stat (ts_exec setup) (''tasks.'' @ name @ ''.setup'') (tc_environment t)) (\<lambda>_.
          and_then (validate_args (ex_args (ts_exec setup)) (''tasks.'' @ name @ ''.setup.args'')) (\<lambda>_.
          and_then (require (ts_timeout_sec setup \<noteq> 0)
            (''tasks.'' @ name @ ''.setup.timeout_sec must be greater than zero'')) (\<lambda>_.
          ok_or (checked_add (ts_timeout_sec setup) (tc_timeout_sec t))
            (Invalid (''tasks.'' @ name @ '' phase timeouts overflow''))))))"

definition timeout_message :: "string \<Rightarrow> task_config \<Rightarrow> u64 \<Rightarrow> string" where
  "timeout_message name t max_timeout_sec =
     (if tc_setup t \<noteq> None
      then ''tasks.'' @ name @ '' setup and run timeouts must total no more than build.max_timeout_sec ''
        @ ''('' @ show_u64 max_timeout_sec @ '')''
      else ''tasks.'' @ name @ ''.timeout_sec must be between 1 and build.max_timeout_sec ''
        @ ''('' @ show_u64 max_timeout_sec @ '')'')"

definition task_validate ::
  "stat \<Rightarrow> 'p pattern_new \<Rightarrow> u64 \<Rightarrow> u64 \<Rightarrow> sources_config \<Rightarrow> string \<times> task_config \<Rightarrow> (unit, config_error) result" where
  "task_validate stat pattern_new max_timeout_sec max_output_bytes sources = (\<lambda>(name, t).
     and_then (require (valid_task_id name)
       (''task name '' @ debug_str name @ '' must match [A-Za-z0-9_-]+ and be at most 64 bytes'')) (\<lambda>_.
     and_then (validate_execution stat (tc_exec t) (''tasks.'' @ name) (tc_environment t)) (\<lambda>_.
     and_then (validate_args (ex_args (tc_exec t)) (''tasks.'' @ name @ ''.args'')) (\<lambda>_.
     and_then (map_err (\<lambda>err. Invalid (show_validation_error err))
       (validate_relative_path (tc_cwd t) (''tasks.'' @ name @ ''.cwd''))) (\<lambda>_.
     and_then (require (tc_timeout_sec t \<noteq> 0) (''tasks.'' @ name @ ''.timeout_sec must be greater than zero'')) (\<lambda>_.
     and_then (task_total_timeout stat name t) (\<lambda>total_timeout.
     and_then (require (total_timeout \<le> max_timeout_sec) (timeout_message name t max_timeout_sec)) (\<lambda>_.
     and_then (case tc_session t of None \<Rightarrow> Inr () | Some s \<Rightarrow>
       task_session_validate stat pattern_new s name (tc_environment t) max_timeout_sec max_output_bytes sources) (\<lambda>_.
     and_then (try_all (validate_environment_entry name) (tc_environment t)) (\<lambda>_.
     validate_artifact_spec pattern_new (tc_artifacts t) (''tasks.'' @ name @ ''.artifacts'')))))))))))"

section \<open>The whole configuration\<close>

text \<open>\<^verbatim>\<open>u32::from_str_radix(s, 8)\<close> for at most four characters.\<close>

definition is_octal :: "char \<Rightarrow> bool" where
  "is_octal c = (48 \<le> byte c \<and> byte c \<le> 55)"

definition from_str_radix8 :: "string \<Rightarrow> u32 option" where
  "from_str_radix8 s =
     (let t = (case s of c # cs \<Rightarrow> if c = CHR ''+'' \<and> cs \<noteq> [] then cs else s | [] \<Rightarrow> []) in
      if t \<noteq> [] \<and> list_all is_octal t
      then Some (of_nat (foldl (\<lambda>v c. v * 8 + (byte c - 48)) 0 t)) else None)"

datatype socket_mode_error = InvalidLength | InvalidDigit

definition parse_socket_mode :: "string \<Rightarrow> (u32, socket_mode_error) result" where
  "parse_socket_mode mode =
     (let v = trim mode in
      if length v \<noteq> 4 then Inl InvalidLength
      else
        let digits = dropWhile (\<lambda>c. c = CHR ''0'') v in
        if digits = [] then Inr 0
        else ok_or (from_str_radix8 digits) InvalidDigit)"

fun show_socket_mode_error :: "socket_mode_error \<Rightarrow> string" where
  "show_socket_mode_error InvalidLength = ''socket mode must be a 4-digit octal string''"
| "show_socket_mode_error InvalidDigit = ''socket mode must be octal digits''"

definition parse_mode :: "socket_config \<Rightarrow> (u32, config_error) result" where
  "parse_mode so = map_err (\<lambda>e. Invalid (show_socket_mode_error e)) (parse_socket_mode (so_mode so))"

text \<open>The components of \<^verbatim>\<open>Path::parent\<close>.\<close>

definition path_parent :: "string \<Rightarrow> path_component list option" where
  "path_parent p =
     (let cs = components p in if cs = [] \<or> last cs = RootDir then None else Some (butlast cs))"

definition file_name :: "string \<Rightarrow> string option" where
  "file_name p =
     (let cs = components p in
      if cs = [] then None else (case last cs of Normal n \<Rightarrow> Some n | _ \<Rightarrow> None))"

definition validate_socket :: "socket_config \<Rightarrow> (unit, config_error) result" where
  "validate_socket so =
     (if \<not> so_enabled so then Inr ()
      else
        and_then (case so_group so of None \<Rightarrow> Inr () | Some g \<Rightarrow>
          require (trim g \<noteq> []) ''service.socket.group must not be empty when set'') (\<lambda>_.
        and_then (require (is_absolute (so_path so)) ''service.socket.path must be an absolute path'') (\<lambda>_.
        and_then (require (path_parent (so_path so) \<notin> Some ` set (map components
            [''/run'', ''/var/run'', ''/private/var/run'']))
          ''service.socket.path must use a dedicated protected runtime directory'') (\<lambda>_.
        and_then (parse_mode so) (\<lambda>_. Inr ())))))"

definition validate_token_file :: "string \<Rightarrow> (unit, config_error) result" where
  "validate_token_file path =
     and_then (require (is_absolute path) ''service.http.auth.token_files entries must be absolute paths'') (\<lambda>_.
     let runtime_path = path_starts_with path ''/run'' \<or> path_starts_with path ''/var/run''
           \<or> path_starts_with path ''/private/var/run'' in
     require (\<not> (path_starts_with path ''/nix/store'' \<or> \<not> runtime_path))
       (''service.http.auth.token_files must reference /run, /var/run, or /private/var/run ''
         @ ''and never the Nix store''))"

definition validate_tls_path :: "string \<times> string option \<Rightarrow> (unit, config_error) result" where
  "validate_tls_path = (\<lambda>(field, path).
     case path of
       None \<Rightarrow> Inl (Invalid (''service.http.tls.'' @ field @ '' must be set when built-in TLS is enabled''))
     | Some p \<Rightarrow> require (is_absolute p) (''service.http.tls.'' @ field @ '' must be an absolute path''))"

definition validate_http :: "http_config \<Rightarrow> (unit, config_error) result" where
  "validate_http h =
     (if \<not> ht_enabled h then Inr ()
      else
        and_then (require (trim (ht_listen_addr h) \<noteq> []) ''service.http.listen_addr must not be empty'') (\<lambda>_.
        and_then (require (\<not> (au_required (ht_auth h) \<and> au_token_files (ht_auth h) = []))
          ''service.http.auth.token_files must not be empty when auth is required'') (\<lambda>_.
        and_then (try_all validate_token_file (au_token_files (ht_auth h))) (\<lambda>_.
        and_then (require (au_auth_type (ht_auth h) = ''bearer'') (''service.http.auth.type must be '' @ [CHR 0x27] @ ''bearer'' @ [CHR 0x27])) (\<lambda>_.
        if tls_enabled (ht_tls h)
        then try_all validate_tls_path
          [(''cert_path'', tls_cert_path (ht_tls h)), (''key_path'', tls_key_path (ht_tls h))]
        else Inr ())))))"

definition validate_limits :: "config \<Rightarrow> (unit, config_error) result" where
  "validate_limits c =
     (let build = cf_build c; sources = cf_sources c in
     and_then (require (is_absolute (bc_workspace_root build)) ''build.workspace_root must be an absolute path'') (\<lambda>_.
     and_then (require (sv_max_concurrent_builds (cf_service c) \<noteq> 0)
       ''service.max_concurrent_builds must be greater than zero'') (\<lambda>_.
     and_then (require (bc_max_timeout_sec build \<noteq> 0) ''build.max_timeout_sec must be greater than zero'') (\<lambda>_.
     and_then (require (bc_max_output_bytes build \<noteq> 0) ''build.max_output_bytes must be greater than zero'') (\<lambda>_.
     and_then (require (sr_max_transfer_bytes sources \<noteq> 0) ''sources.max_transfer_bytes must be greater than zero'') (\<lambda>_.
     and_then (require (sr_max_uncompressed_bytes sources \<noteq> 0)
       ''sources.max_uncompressed_bytes must be greater than zero'') (\<lambda>_.
     and_then (require (\<not> (sr_max_files sources = 0 \<or> sr_max_depth sources = 0))
       ''sources.max_files and sources.max_depth must be greater than zero'') (\<lambda>_.
     require (\<not> (sr_upload_timeout_sec sources = 0 \<or> MAX_SOURCE_UPLOAD_TIMEOUT_SEC < sr_upload_timeout_sec sources))
       (''sources.upload_timeout_sec must be between 1 and '' @ show_u64 MAX_SOURCE_UPLOAD_TIMEOUT_SEC)))))))))"

definition validate_run_as :: "config \<Rightarrow> (unit, config_error) result" where
  "validate_run_as c =
     (let build = cf_build c; so = sv_socket (cf_service c) in
     and_then (case bc_run_as_user build of None \<Rightarrow> Inr () | Some u \<Rightarrow>
       require (trim u \<noteq> []) ''build.run_as_user must not be empty'') (\<lambda>_.
     and_then (case bc_run_as_group build of None \<Rightarrow> Inr () | Some g \<Rightarrow>
       require (trim g \<noteq> []) ''build.run_as_group must not be empty'') (\<lambda>_.
     if \<not> so_enabled so then Inr ()
     else
       and_then (require (bc_run_as_user build \<noteq> None)
         ''enabled unauthenticated service.socket requires a dedicated build.run_as_user'') (\<lambda>_.
       and_then (parse_mode so) (\<lambda>mode.
       require (\<not> (mode AND 0x3F \<noteq> 0 \<or> so_group so \<noteq> None))
         (''service.socket must use no group and mode 0600 or stricter ''
           @ ''so the task identity cannot access it''))))))"

definition host_observation_validate :: "host_observation_config \<Rightarrow> (unit, config_error) result" where
  "host_observation_validate h =
     and_then (require (\<not> (ho_enabled h \<and> (ho_socket h = None \<or> ho_peer_uid h = None)))
       ''enabled host_observation requires socket and peer_uid'') (\<lambda>_.
     case ho_socket h of
       None \<Rightarrow> Inr ()
     | Some socket \<Rightarrow>
         require (\<not> (\<not> is_absolute socket \<or> file_name socket = None
             \<or> list_ex (\<lambda>c. \<not> (case c of RootDir \<Rightarrow> True | Normal _ \<Rightarrow> True | _ \<Rightarrow> False)) (components socket)))
           ''host_observation.socket must be an absolute socket path without traversal'')"

definition validate_restricted_pattern :: "'p pattern_new \<Rightarrow> string \<Rightarrow> (unit, config_error) result" where
  "validate_restricted_pattern pattern_new pattern =
     and_then (map_err (\<lambda>err. Invalid (show_validation_error err))
       (validate_relative_pattern pattern ''artifacts.restricted_patterns'')) (\<lambda>_.
     and_then (map_err (\<lambda>err. Invalid (''invalid glob pattern in artifacts.restricted_patterns ''
         @ debug_str pattern @ '': '' @ err)) (pattern_new pattern)) (\<lambda>_. Inr ()))"

definition artifacts_validate :: "'p pattern_new \<Rightarrow> artifacts_config \<Rightarrow> (unit, config_error) result" where
  "artifacts_validate pattern_new a =
     and_then (require (af_storage_root a \<noteq> []) ''artifacts.storage_root must not be empty'') (\<lambda>_.
     and_then (require (is_absolute (af_storage_root a)) ''artifacts.storage_root must be an absolute path'') (\<lambda>_.
     and_then (require (af_ttl_sec a \<noteq> Some 0) ''artifacts.ttl_sec must be greater than zero'') (\<lambda>_.
     and_then (require (af_gc_interval_sec a \<noteq> Some 0) ''artifacts.gc_interval_sec must be greater than zero'') (\<lambda>_.
     and_then (require (af_max_bytes a \<noteq> Some 0) ''artifacts.max_bytes must be greater than zero'') (\<lambda>_.
     and_then (require (\<not> (af_max_transfer_bytes a = 0 \<or> af_max_uncompressed_bytes a = 0
         \<or> af_max_files a = 0 \<or> af_max_depth a = 0))
       (''artifact transfer, uncompressed, file-count, and depth limits '' @ ''must be greater than zero'')) (\<lambda>_.
     try_all (validate_restricted_pattern pattern_new) (af_restricted_patterns a)))))))"

datatype log_level = TRACE | DEBUG | INFO | WARN | ERROR

definition parse_level :: "string \<Rightarrow> (log_level, string) result" where
  "parse_level v =
     (let l = to_ascii_lowercase (trim v) in
      if l = ''trace'' then Inr TRACE
      else if l = ''debug'' then Inr DEBUG
      else if l = ''info'' then Inr INFO
      else if l = ''warn'' \<or> l = ''warning'' then Inr WARN
      else if l = ''error'' then Inr ERROR
      else Inl v)"

record logging_settings =
  ls_level :: log_level
  ls_directory :: "string option"
  ls_max_bytes :: u64
  ls_max_files :: usize
  ls_console :: bool

datatype logging_error =
    InvalidLevel string string
  | InvalidMaxBytes u64
  | InvalidMaxFiles usize

fun show_logging_error :: "logging_error \<Rightarrow> string" where
  "show_logging_error (InvalidLevel field v) = ''invalid log level for '' @ field @ '': '' @ v"
| "show_logging_error (InvalidMaxBytes _) =
     ''logging.max_bytes must be greater than zero when logging.directory is set''"
| "show_logging_error (InvalidMaxFiles _) =
     ''logging.max_files must be greater than zero when logging.directory is set''"

definition logging_from_config :: "logging_config \<Rightarrow> (logging_settings, logging_error) result" where
  "logging_from_config cfg =
     and_then (map_err (InvalidLevel ''logging.level'') (parse_level (lg_level cfg))) (\<lambda>level.
     and_then (ensure (\<not> (lg_directory cfg \<noteq> None \<and> lg_max_bytes cfg = 0)) (InvalidMaxBytes (lg_max_bytes cfg))) (\<lambda>_.
     and_then (ensure (\<not> (lg_directory cfg \<noteq> None \<and> lg_max_files cfg = 0)) (InvalidMaxFiles (lg_max_files cfg))) (\<lambda>_.
     Inr \<lparr>ls_level = level, ls_directory = lg_directory cfg, ls_max_bytes = lg_max_bytes cfg,
       ls_max_files = lg_max_files cfg, ls_console = lg_console cfg\<rparr>)))"

definition config_validate :: "stat \<Rightarrow> 'p pattern_new \<Rightarrow> config \<Rightarrow> (unit, config_error) result" where
  "config_validate stat pattern_new c =
     and_then (require (cf_schema_version c = CONFIG_SCHEMA_VERSION)
       (''unsupported schema_version '' @ cf_schema_version c @ '', expected '' @ CONFIG_SCHEMA_VERSION)) (\<lambda>_.
     and_then (require (\<not> (\<not> so_enabled (sv_socket (cf_service c)) \<and> \<not> ht_enabled (sv_http (cf_service c))))
       ''at least one of service.socket.enabled or service.http.enabled must be true'') (\<lambda>_.
     and_then (validate_socket (sv_socket (cf_service c))) (\<lambda>_.
     and_then (validate_http (sv_http (cf_service c))) (\<lambda>_.
     and_then (validate_limits c) (\<lambda>_.
     and_then (try_all (task_validate stat pattern_new (bc_max_timeout_sec (cf_build c))
       (bc_max_output_bytes (cf_build c)) (cf_sources c)) (cf_tasks c)) (\<lambda>_.
     and_then (if list_ex (\<lambda>(_, t). uses_script t) (cf_tasks c)
       then validate_executable_file stat SCRIPT_SHELL ''script shell'' else Inr ()) (\<lambda>_.
     and_then (validate_run_as c) (\<lambda>_.
     and_then (host_observation_validate (cf_host_observation c)) (\<lambda>_.
     and_then (require (\<not> (ho_enabled (cf_host_observation c) \<and> ht_enabled (sv_http (cf_service c))
         \<and> \<not> au_required (ht_auth (sv_http (cf_service c)))))
       ''host_observation requires authenticated HTTP'') (\<lambda>_.
     and_then (artifacts_validate pattern_new (cf_artifacts c)) (\<lambda>_.
     and_then (map_err (\<lambda>err. Invalid (show_logging_error err)) (logging_from_config (cf_logging c))) (\<lambda>_.
     Inr ()))))))))))))"

section \<open>Loading\<close>

definition resolve_path :: "(string \<Rightarrow> string option) \<Rightarrow> string option \<Rightarrow> string \<times> config_path_kind" where
  "resolve_path env cli_path =
     (case cli_path of
        Some p \<Rightarrow> (p, PathExplicit)
      | None \<Rightarrow>
          (case env ''INDENTURED_SERVER_CONFIG'' of
             Some p \<Rightarrow> (p, PathEnv)
           | None \<Rightarrow> (DEFAULT_CONFIG_PATH, PathDefault)))"

definition apply_env_overrides :: "(string \<Rightarrow> string option) \<Rightarrow> config \<Rightarrow> config" where
  "apply_env_overrides env c =
     (case env ''INDENTURED_SERVER_LOG_LEVEL'' of
        Some level \<Rightarrow> if trim level \<noteq> [] then c\<lparr>cf_logging := (cf_logging c)\<lparr>lg_level := level\<rparr>\<rparr> else c
      | None \<Rightarrow> c)"

text \<open>
  Line and column of a byte offset. The parser's offsets lie on character boundaries; a column
  counts characters, which are the bytes that do not continue one.
\<close>

definition parse_error_location :: "string \<Rightarrow> nat option \<Rightarrow> nat option \<times> nat option" where
  "parse_error_location raw offset =
     (case offset of
        None \<Rightarrow> (None, None)
      | Some off \<Rightarrow>
          if length raw < off then (None, None)
          else
            let before = take off raw;
                line = length (filter (\<lambda>c. c = CHR 0x0A) before) + 1;
                column = length (filter (\<lambda>c. \<not> (128 \<le> byte c \<and> byte c \<le> 191))
                  (rev (takeWhile (\<lambda>c. c \<noteq> CHR 0x0A) (rev before)))) + 1
            in (Some line, Some column))"

definition format_parse_location :: "nat option \<Rightarrow> nat option \<Rightarrow> string" where
  "format_parse_location line column =
     (case (line, column) of
        (Some l, Some c) \<Rightarrow> '' at line '' @ show_nat l @ '', column '' @ show_nat c
      | _ \<Rightarrow> [])"

definition load_from_sources ::
  "stat \<Rightarrow> 'p pattern_new \<Rightarrow> (string \<Rightarrow> string option) \<Rightarrow> (string \<Rightarrow> (string, string) result)
     \<Rightarrow> (string \<Rightarrow> (config, nat option) result) \<Rightarrow> string option \<Rightarrow> (config, config_error) result" where
  "load_from_sources stat pattern_new env read_file toml cli_path =
     (let path = fst (resolve_path env cli_path) in
     and_then (map_err (ConfigIo path) (read_file path)) (\<lambda>raw.
     and_then (map_err (\<lambda>start. let (line, column) = parse_error_location raw start
         in ParseToml path line column) (toml raw)) (\<lambda>c0.
     let c = apply_env_overrides env c0 in
     and_then (config_validate stat pattern_new c) (\<lambda>_. Inr c))))"

end
