(* ===== verification/Source_Update.thy ===== *)
theory Source_Update
  imports Posix_Fs Zip_Archive Config
begin

text \<open>
  Live source updates (\<^verbatim>\<open>src/source_updates.rs\<close>): staging and verifying the uploaded archive,
  then applying it to the session's workspace with backups and rollback. SHA-256 (hexadecimal),
  the glob matcher and the zip reader are parameters.
\<close>

datatype update_error_kind = BadRequest | Limit | Internal | Cancelled

record update_error =
  ue_kind :: update_error_kind
  ue_message :: string
  ue_rollback_proven :: bool

text \<open>A computation ends in an error value or in a panic.\<close>

datatype 'e raised = Raise 'e | Panic string

definition bad :: "string \<Rightarrow> update_error" where
  "bad message = \<lparr>ue_kind = BadRequest, ue_message = message, ue_rollback_proven = True\<rparr>"

definition limit_error :: "string \<Rightarrow> update_error" where
  "limit_error message = \<lparr>ue_kind = Limit, ue_message = message, ue_rollback_proven = True\<rparr>"

definition internal :: "string \<Rightarrow> update_error" where
  "internal message = \<lparr>ue_kind = Internal, ue_message = message, ue_rollback_proven = True\<rparr>"

definition worker_panicked :: update_error where
  "worker_panicked = \<lparr>ue_kind = Internal, ue_message = ''source update worker panicked'',
     ue_rollback_proven = False\<rparr>"

definition update_cancelled :: update_error where
  "update_cancelled = \<lparr>ue_kind = Cancelled, ue_message = ''update cancelled'',
     ue_rollback_proven = True\<rparr>"

datatype prepared_kind = PFile string string | PDelete

record prepared_change =
  pc_path :: string
  pc_kind :: prepared_kind

record prepared_update =
  pu_root :: string
  pu_changes :: "prepared_change list"

record backup =
  bk_path :: string
  bk_staged :: "string option"
  bk_original :: "file_identity option"
  bk_uid :: u32
  bk_gid :: u32
  bk_mode :: u32
  bk_sha256 :: "string option"

record applied_evidence =
  ae_changed :: "session_update_evidence list"
  ae_deleted :: "session_update_evidence list"

record target_metadata =
  tm_identity :: file_identity
  tm_uid :: u32
  tm_gid :: u32
  tm_mode :: u32

type_synonym 'a upd = "('a, update_error raised) io"

abbreviation raise_bad :: "string \<Rightarrow> update_error raised" where
  "raise_bad m \<equiv> Raise (bad m)"

abbreviation bad_io :: "string \<Rightarrow> io_error \<Rightarrow> update_error raised" where
  "bad_io m e \<equiv> Raise (bad (m @ show_io_error e))"

abbreviation internal_io :: "string \<Rightarrow> io_error \<Rightarrow> update_error raised" where
  "internal_io m e \<equiv> Raise (internal (m @ show_io_error e))"

section \<open>Preparing the archive\<close>

fun compile_patterns ::
  "(string \<Rightarrow> ('p, string) result) \<Rightarrow> string list \<Rightarrow> ('p list, update_error) result" where
  "compile_patterns pattern_new [] = Inr []"
| "compile_patterns pattern_new (p # ps) =
     and_then (map_err (\<lambda>err. internal (''configured source update glob is invalid: '' @ err))
       (pattern_new p)) (\<lambda>c.
     and_then (compile_patterns pattern_new ps) (\<lambda>cs. Inr (c # cs)))"

definition declared_files :: "session_update_request \<Rightarrow> (string \<times> string) list" where
  "declared_files request =
     List.map_filter (\<lambda>change. case change of
       FileChange path sha256 \<Rightarrow> Some (path, sha256) | DeleteChange _ \<Rightarrow> None) (su_changes request)"

text \<open>
  The entry-reading loop. It returns the bytes it staged and fed to the hasher.
\<close>

fun stage_entry ::
  "source_updates_config \<Rightarrow> u64 \<Rightarrow> u64 \<Rightarrow> string \<Rightarrow> (bytes, string) result list \<Rightarrow> u64 \<Rightarrow> bytes
   \<Rightarrow> bytes upd" where
  "stage_entry policy tot sz staged [] actual hashed = return_io hashed"
| "stage_entry policy tot sz staged (Inl err # _) actual hashed =
     fail_io (raise_bad (''failed to read update entry: '' @ err))"
| "stage_entry policy tot sz staged (Inr bytes # reads) actual hashed =
     (if bytes = [] then return_io hashed
      else
        let actual = saturating_add actual (of_nat (length bytes)) in
        if saturating_add (saturating_sub tot sz) actual > su_max_uncompressed_bytes policy
        then fail_io (Raise (limit_error (''update archive exceeds max_uncompressed_bytes ('' @
               show_nat (unat (su_max_uncompressed_bytes policy)) @ '')'')))
        else bind_io (map_err_io (internal_io ''failed to write staged update file: '')
               (append_staged staged bytes)) (\<lambda>_.
             stage_entry policy tot sz staged reads actual (hashed @ bytes)))"

definition regular_entry_mode :: "u32 \<Rightarrow> bool" where
  "regular_entry_mode mode =
     (let kind = mode AND 0xF000 in \<not> ((kind \<noteq> 0 \<and> kind \<noteq> 0x8000) \<or> mode AND 0x49 \<noteq> 0))"

record stage_state =
  st_seen :: registry
  st_total :: u64
  st_staged :: "(string \<times> string \<times> string) list"

text \<open>One iteration of the loop over the archive's entries.\<close>

definition stage_one ::
  "(bytes \<Rightarrow> string) \<Rightarrow> source_updates_config \<Rightarrow> string \<Rightarrow> (string \<times> string) list
   \<Rightarrow> stage_state \<Rightarrow> nat \<times> (zip_entry, string) result \<Rightarrow> stage_state upd" where
  "stage_one sha256 policy root declared s item = (case item of (index, by_index) \<Rightarrow>
     bind_io (lift_result (map_err (\<lambda>err. raise_bad (''failed to read update zip entry: '' @ err))
       by_index)) (\<lambda>entry.
     let name = ze_name entry in
     bind_io (lift_result (ok_or (register (st_seen s) name)
       (raise_bad ''update archive contains duplicate or case-colliding paths''))) (\<lambda>seen.
     bind_io (lift_result (ok_or (map_of declared name)
       (raise_bad ''update archive contains an undeclared file entry''))) (\<lambda>expected_hash.
     bind_io (ensure_io (\<not> (ze_is_dir entry \<or> ze_is_symlink entry))
       (raise_bad ''update archive entries must be regular non-executable files'')) (\<lambda>_.
     bind_io (ensure_io (case ze_unix_mode entry of None \<Rightarrow> True | Some mode \<Rightarrow> regular_entry_mode mode)
       (raise_bad ''update archive entries must be regular non-executable files'')) (\<lambda>_.
     let total = saturating_add (st_total s) (ze_size entry) in
     bind_io (ensure_io (\<not> total > su_max_uncompressed_bytes policy)
       (Raise (limit_error (''update archive exceeds max_uncompressed_bytes ('' @
          show_nat (unat (su_max_uncompressed_bytes policy)) @ '')'')))) (\<lambda>_.
     let staged = path_join root (''file-'' @ show_nat index) in
     bind_io (map_err_io (internal_io ''failed to stage update file: '') (create_new staged)) (\<lambda>_.
     bind_io (stage_entry policy total (ze_size entry) staged (ze_reads entry) 0 []) (\<lambda>hashed.
     bind_io (map_err_io (internal_io ''failed to sync staged file: '') fsync) (\<lambda>_.
     let actual_hash = sha256 hashed in
     bind_io (ensure_io (actual_hash = expected_hash)
       (raise_bad (''content sha256 mismatch for '' @ debug_str name))) (\<lambda>_.
     return_io \<lparr>st_seen = seen, st_total = total,
       st_staged = (name, staged, actual_hash) # st_staged s\<rparr>)))))))))))"

fun prepared_changes ::
  "session_update_change list \<Rightarrow> (string \<times> string \<times> string) list
   \<Rightarrow> (prepared_change list, update_error raised) result" where
  "prepared_changes [] staged = Inr []"
| "prepared_changes (DeleteChange path # cs) staged =
     and_then (prepared_changes cs staged) (\<lambda>r. Inr (\<lparr>pc_path = path, pc_kind = PDelete\<rparr> # r))"
| "prepared_changes (FileChange path _ # cs) staged =
     (case map_of staged path of
        None \<Rightarrow> Inl (Panic ''archive and declarations were matched'')
      | Some (file, sha256) \<Rightarrow>
          and_then (prepared_changes cs (filter (\<lambda>(k, _). k \<noteq> path) staged)) (\<lambda>r.
          Inr (\<lparr>pc_path = path, pc_kind = PFile file sha256\<rparr> # r)))"

definition prepare_archive ::
  "(bytes \<Rightarrow> string) \<Rightarrow> (string \<Rightarrow> (zip_archive, string) result)
   \<Rightarrow> string \<Rightarrow> string \<Rightarrow> session_update_request \<Rightarrow> source_updates_config
   \<Rightarrow> prepared_change list upd" where
  "prepare_archive sha256 zip_new archive_path root request policy =
     (let declared = declared_files request in
      bind_io (map_err_io (internal_io ''failed to open update archive: '') plain_call) (\<lambda>_.
      bind_io (lift_result (map_err (\<lambda>err. raise_bad (''invalid update zip archive: '' @ err))
        (zip_new archive_path))) (\<lambda>archive.
      bind_io (ensure_io (length archive \<le> su_max_files policy)
        (Raise (limit_error (''update archive exceeds max_files ('' @
           show_nat (su_max_files policy) @ '')'')))) (\<lambda>_.
      bind_io (ensure_io (length archive = card (set (map fst declared)))
        (raise_bad ''update archive must contain exactly the declared file entries'')) (\<lambda>_.
      bind_io (fold_io (stage_one sha256 policy root declared)
        \<lparr>st_seen = empty_registry, st_total = 0, st_staged = []\<rparr> (List.enumerate 0 archive)) (\<lambda>s.
      lift_result (prepared_changes (su_changes request) (st_staged s))))))))"

definition prepare_update ::
  "(bytes \<Rightarrow> string) \<Rightarrow> (string \<Rightarrow> (zip_archive, string) result)
   \<Rightarrow> (string \<Rightarrow> ('p, string) result) \<Rightarrow> ('p \<Rightarrow> string \<Rightarrow> bool)
   \<Rightarrow> string \<Rightarrow> string \<Rightarrow> string \<Rightarrow> session_update_request \<Rightarrow> source_updates_config
   \<Rightarrow> prepared_update upd" where
  "prepare_update sha256 zip_new pattern_new matches_path
     archive_path metadata_root session_id request policy =
     bind_io (lift_result (map_err Raise (compile_patterns pattern_new (su_include policy)))) (\<lambda>includes.
     bind_io (lift_result (map_err Raise (compile_patterns pattern_new (su_exclude policy)))) (\<lambda>excludes.
     bind_io (lift_result (try_all (\<lambda>change.
         ensure (list_ex (\<lambda>p. matches_path p (change_path change)) includes
               \<and> \<not> list_ex (\<lambda>p. matches_path p (change_path change)) excludes)
           (raise_bad (''change path '' @ debug_str (change_path change)
              @ '' is outside the configured source update allowlist''))) (su_changes request))) (\<lambda>_ w.
     case new_uuid w of (u, w) \<Rightarrow>
     let root = path_join metadata_root (''.'' @ session_id @ ''.update-'' @ u) in
     bind_io (map_err_io (internal_io ''failed to create update staging: '')
       (bind_io (create_dir root) (\<lambda>_. plain_call))) (\<lambda>_ w.
     case prepare_archive sha256 zip_new archive_path root request policy w of
       (Inr changes, w) \<Rightarrow> (Inr \<lparr>pu_root = root, pu_changes = changes\<rparr>, w)
     | (Inl err, w) \<Rightarrow> (Inl err, remove_dir_all root w)) w)))"

section \<open>Walking to the target's directory\<close>

definition cstring_new :: "string \<Rightarrow> io_error \<Rightarrow> (string, io_error) io" where
  "cstring_new s e = (if CHR 0x00 \<in> set s then fail_io e else return_io s)"

definition open_workspace_root :: "string \<Rightarrow> file_identity upd" where
  "open_workspace_root workspace =
     (if CHR 0x00 \<in> set workspace then fail_io (raise_bad ''session workspace path contains NUL'')
      else map_err_io (internal_io ''failed to open session workspace: '') (open_root workspace))"

definition open_workspace_parent ::
  "file_identity \<Rightarrow> string \<Rightarrow> (file_identity \<times> string, io_error) io" where
  "open_workspace_parent root_fd relative =
     (let parts = split_on (CHR ''/'') relative in
      bind_io (cstring_new (last parts) (OtherError ''path contains NUL'')) (\<lambda>final_name.
      bind_io plain_call (\<lambda>_.
      bind_io (fold_io (\<lambda>parent component.
          bind_io (cstring_new component (OtherError ''path component contains NUL''))
            (\<lambda>component. openat_dir parent component))
        root_fd (butlast parts)) (\<lambda>parent.
      return_io (parent, final_name)))))"

definition inspect_target ::
  "file_identity \<Rightarrow> string \<Rightarrow> (target_metadata option, io_error) io" where
  "inspect_target parent name w =
     (case fstatat parent name w of
        (Inl err, w) \<Rightarrow> if raw_os_error err = Some ENOENT then (Inr None, w) else (Inl err, w)
      | (Inr (i, stat), w) \<Rightarrow>
          (Inr (Some \<lparr>tm_identity = i, tm_uid = st_uid stat, tm_gid = st_gid stat,
             tm_mode = st_mode stat\<rparr>), w))"

definition fd_identity :: "file_identity \<Rightarrow> (file_identity, io_error) io" where
  "fd_identity fd = bind_io (fstat fd) (\<lambda>(i, _). return_io i)"

definition open_regular_at ::
  "file_identity \<Rightarrow> string \<Rightarrow> target_metadata \<Rightarrow> (file_identity, io_error) io" where
  "open_regular_at parent name expected =
     bind_io (openat_file parent name) (\<lambda>file.
     bind_io (fstat file) (\<lambda>(_, metadata).
     if \<not> is_regular_mode (st_mode metadata)
     then fail_io (OtherError ''target identity changed'')
     else bind_io (fd_identity file) (\<lambda>identity.
       if identity \<noteq> tm_identity expected
       then fail_io (OtherError ''target identity changed'')
       else return_io file)))"

definition validate_target_at :: "file_identity \<Rightarrow> string \<Rightarrow> backup \<Rightarrow> unit upd" where
  "validate_target_at parent name backup =
     bind_io (map_err_io (internal_io ''failed to recheck update target: '')
       (inspect_target parent name)) (\<lambda>current.
     ensure_io (case (bk_original backup, current) of
         (Some expected, Some current) \<Rightarrow>
           tm_identity current = expected \<and> is_regular_mode (tm_mode current)
       | (None, None) \<Rightarrow> True
       | _ \<Rightarrow> False)
       (raise_bad (''update target '' @ debug_str (bk_path backup) @ '' changed before mutation'')))"

definition verify_parent_still_beneath ::
  "file_identity \<Rightarrow> string \<Rightarrow> file_identity \<Rightarrow> unit upd" where
  "verify_parent_still_beneath root_fd relative held_parent =
     bind_io (map_err_io (bad_io ''update ancestor changed: '')
       (open_workspace_parent root_fd relative)) (\<lambda>(current, _).
     bind_io (map_err_io (internal_io ''failed to inspect held parent: '')
       (fd_identity held_parent)) (\<lambda>held.
     bind_io (map_err_io (internal_io ''failed to inspect current parent: '')
       (fd_identity current)) (\<lambda>current.
     ensure_io (held = current) (raise_bad ''update ancestor changed during mutation''))))"

section \<open>Copying, installing, deleting\<close>

definition set_fd_owner_mode ::
  "file_identity \<Rightarrow> u32 \<Rightarrow> u32 \<Rightarrow> u32 \<Rightarrow> (unit, io_error) io" where
  "set_fd_owner_mode fd uid gid mode = bind_io (fchown fd uid gid) (\<lambda>_. fchmod fd mode)"

definition read_fd :: "file_identity \<Rightarrow> (bytes, io_error) io" where
  "read_fd fd = bind_io (fstat fd) (\<lambda>(_, nd). return_io (content nd))"

definition copy_open_file_and_hash ::
  "(bytes \<Rightarrow> string) \<Rightarrow> file_identity \<Rightarrow> string \<Rightarrow> (string, io_error) io" where
  "copy_open_file_and_hash sha256 source destination =
     bind_io (create_new destination) (\<lambda>_.
     bind_io (read_fd source) (\<lambda>bytes.
     bind_io (for_io (chunks bytes) (append_staged destination)) (\<lambda>_.
     bind_io fsync (\<lambda>_.
     return_io (sha256 bytes)))))"

definition prepare_staged_file :: "string \<Rightarrow> (unit, io_error) io" where
  "prepare_staged_file path =
     bind_io (open_staged path) (\<lambda>_.
     bind_io plain_call (\<lambda>_.
     bind_io plain_call (\<lambda>_. plain_call)))"

definition temp_name :: "string \<Rightarrow> string" where
  "temp_name u = ''.indentured-update-'' @ u @ ''.tmp''"

text \<open>The closure inside \<^verbatim>\<open>atomic_copy_at\<close>, from the created temporary file on and as a whole.\<close>

definition fill_and_rename ::
  "bytes \<Rightarrow> file_identity \<Rightarrow> string \<Rightarrow> string \<Rightarrow> u32 \<Rightarrow> u32 \<Rightarrow> u32 \<Rightarrow> file_identity \<Rightarrow> (unit, io_error) io" where
  "fill_and_rename bytes parent temp target_name uid gid mode output =
     bind_io (for_io (chunks bytes) (append_fd output)) (\<lambda>_.
     bind_io fsync (\<lambda>_.
     bind_io (set_fd_owner_mode output uid gid mode) (\<lambda>_.
     bind_io fsync (\<lambda>_.
     bind_io (renameat parent temp target_name) (\<lambda>_.
     fsync)))))"

definition atomic_copy_body ::
  "string \<Rightarrow> file_identity \<Rightarrow> string \<Rightarrow> string \<Rightarrow> u32 \<Rightarrow> u32 \<Rightarrow> u32 \<Rightarrow> (unit, io_error) io" where
  "atomic_copy_body source parent temp target_name uid gid mode =
     bind_io (open_staged source) (\<lambda>bytes.
     bind_io plain_call (\<lambda>_.
     bind_io (create_excl parent temp 0x180) (\<lambda>output.
     fill_and_rename bytes parent temp target_name uid gid mode output)))"

definition atomic_copy_at ::
  "string \<Rightarrow> file_identity \<Rightarrow> string \<Rightarrow> u32 \<Rightarrow> u32 \<Rightarrow> u32 \<Rightarrow> (unit, io_error) io" where
  "atomic_copy_at source parent target_name uid gid mode w =
     (case new_uuid w of (u, w) \<Rightarrow>
      let temp = temp_name u in
      case atomic_copy_body source parent temp target_name uid gid mode w of
        (Inr _, w) \<Rightarrow> (Inr (), w)
      | (Inl err, w) \<Rightarrow> (case unlinkat parent temp w of (_, w) \<Rightarrow> (Inl err, w)))"

definition unlink_file_at :: "file_identity \<Rightarrow> string \<Rightarrow> (unit, io_error) io" where
  "unlink_file_at parent name = bind_io (unlinkat parent name) (\<lambda>_. fsync)"

definition restore_one :: "backup \<times> file_identity \<Rightarrow> (unit, io_error) io" where
  "restore_one bp = (case bp of (backup, parent) \<Rightarrow>
     bind_io (cstring_new (last (split_on (CHR ''/'') (bk_path backup)))
       (OtherError ''rollback path contains NUL'')) (\<lambda>name.
     case bk_staged backup of
       Some staged \<Rightarrow>
         bind_io (inspect_target parent name) (\<lambda>metadata.
         if (case metadata of Some m \<Rightarrow> \<not> is_regular_mode (tm_mode m) | None \<Rightarrow> False)
         then fail_io (OtherError ''rollback target is not a regular file'')
         else atomic_copy_at staged parent name (bk_uid backup) (bk_gid backup) (bk_mode backup))
     | None \<Rightarrow>
         bind_io (inspect_target parent name) (\<lambda>metadata.
         case metadata of
           Some m \<Rightarrow>
             if is_regular_mode (tm_mode m) then unlink_file_at parent name
             else fail_io (OtherError ''rollback target is not a regular file'')
         | None \<Rightarrow> return_io ())))"

definition rollback :: "backup list \<Rightarrow> file_identity list \<Rightarrow> (unit, io_error) io" where
  "rollback backups parents = for_io (rev (zip backups parents)) restore_one"

section \<open>Applying an update\<close>

definition backup_one ::
  "(bytes \<Rightarrow> string) \<Rightarrow> file_identity \<Rightarrow> string \<Rightarrow> u32 \<Rightarrow> u32 \<Rightarrow> nat \<times> prepared_change \<Rightarrow> backup upd" where
  "backup_one sha256 root_fd backups_root task_uid task_gid item = (case item of (index, change) \<Rightarrow>
     bind_io (map_err_io (bad_io ''invalid update ancestor: '')
       (open_workspace_parent root_fd (pc_path change))) (\<lambda>(parent, name).
     bind_io (map_err_io
         (internal_io (''failed to inspect update target '' @ debug_str (pc_path change) @ '': ''))
       (inspect_target parent name)) (\<lambda>metadata.
     bind_io (ensure_io (case metadata of Some m \<Rightarrow> is_regular_mode (tm_mode m) | None \<Rightarrow> True)
       (raise_bad (''update target '' @ debug_str (pc_path change) @ '' is not a regular file''))) (\<lambda>_.
     bind_io (ensure_io (case metadata of Some m \<Rightarrow> tm_mode m AND 0x49 = 0 | None \<Rightarrow> True)
       (raise_bad (''update target '' @ debug_str (pc_path change) @ '' is executable''))) (\<lambda>_.
     bind_io (ensure_io (\<not> (pc_kind change = PDelete \<and> metadata = None))
       (raise_bad (''delete target '' @ debug_str (pc_path change) @ '' does not exist''))) (\<lambda>_.
     let backup_path = map_option (\<lambda>_. path_join backups_root (''backup-'' @ show_nat index)) metadata in
     bind_io (case (backup_path, metadata) of
         (Some path, Some m) \<Rightarrow>
           bind_io (map_err_io (bad_io (''update target '' @ debug_str (pc_path change)
               @ '' changed during backup: '')) (open_regular_at parent name m)) (\<lambda>source.
           bind_io (map_err_io (internal_io ''failed to back up update target: '')
             (copy_open_file_and_hash sha256 source path)) (\<lambda>hash. return_io (Some hash)))
       | _ \<Rightarrow> return_io None) (\<lambda>hash.
     return_io \<lparr>bk_path = pc_path change, bk_staged = backup_path,
       bk_original = map_option tm_identity metadata,
       bk_uid = (case metadata of Some m \<Rightarrow> tm_uid m | None \<Rightarrow> task_uid),
       bk_gid = (case metadata of Some m \<Rightarrow> tm_gid m | None \<Rightarrow> task_gid),
       bk_mode = (case metadata of Some m \<Rightarrow> tm_mode m AND 0x1FF | None \<Rightarrow> 0x1A4),
       bk_sha256 = hash\<rparr>)))))))"

definition perform_change ::
  "u32 \<Rightarrow> u32 \<Rightarrow> prepared_change \<Rightarrow> file_identity \<Rightarrow> string \<Rightarrow> unit upd" where
  "perform_change task_uid task_gid change parent name =
     (case pc_kind change of
        PFile staged _ \<Rightarrow> map_err_io (internal_io ''failed to install update file: '')
          (atomic_copy_at staged parent name task_uid task_gid 0x1A4)
      | PDelete \<Rightarrow> map_err_io (internal_io ''failed to delete update target: '')
          (unlink_file_at parent name))"

text \<open>
  The mutation loop. The parents opened so far are part of the result also when an iteration
  fails, because the rollback needs them.
\<close>

fun mutate_loop ::
  "file_identity \<Rightarrow> u32 \<Rightarrow> u32 \<Rightarrow> (nat \<Rightarrow> world \<Rightarrow> world) \<Rightarrow> backup list
   \<Rightarrow> (nat \<times> prepared_change) list \<Rightarrow> file_identity list \<Rightarrow> world
   \<Rightarrow> (unit, update_error raised) result \<times> file_identity list \<times> world" where
  "mutate_loop root_fd task_uid task_gid checkpoint backups [] parents w = (Inr (), parents, w)"
| "mutate_loop root_fd task_uid task_gid checkpoint backups ((index, change) # rest) parents w =
     (case is_cancelled w of (cancelled, w) \<Rightarrow>
      if cancelled then (Inl (Raise update_cancelled), parents, w)
      else case map_err_io (bad_io ''invalid update ancestor: '')
             (open_workspace_parent root_fd (pc_path change)) w of
        (Inl err, w) \<Rightarrow> (Inl err, parents, w)
      | (Inr (parent, name), w) \<Rightarrow>
          (case validate_target_at parent name (backups ! index) w of
             (Inl err, w) \<Rightarrow> (Inl err, parents, w)
           | (Inr _, w) \<Rightarrow>
               (case perform_change task_uid task_gid change parent name w of
                  (Inl err, w) \<Rightarrow> (Inl err, parents @ [parent], w)
                | (Inr _, w) \<Rightarrow>
                    mutate_loop root_fd task_uid task_gid checkpoint backups rest
                      (parents @ [parent]) (checkpoint index w))))"

definition mutation ::
  "file_identity \<Rightarrow> u32 \<Rightarrow> u32 \<Rightarrow> (nat \<Rightarrow> world \<Rightarrow> world) \<Rightarrow> (unit, io_error) io \<Rightarrow> backup list
   \<Rightarrow> prepared_change list \<Rightarrow> world
   \<Rightarrow> (unit, update_error raised) result \<times> file_identity list \<times> world" where
  "mutation root_fd task_uid task_gid checkpoint commit_metadata backups changes w =
     (case mutate_loop root_fd task_uid task_gid checkpoint backups (List.enumerate 0 changes) [] w of
        (Inl err, parents, w) \<Rightarrow> (Inl err, parents, w)
      | (Inr _, parents, w) \<Rightarrow>
          (case for_io (zip changes parents)
                  (\<lambda>(change, parent). verify_parent_still_beneath root_fd (pc_path change) parent) w of
             (Inl err, w) \<Rightarrow> (Inl err, parents, w)
           | (Inr _, w) \<Rightarrow>
               (case is_cancelled w of (cancelled, w) \<Rightarrow>
                if cancelled then (Inl (Raise update_cancelled), parents, w)
                else case commit_metadata w of
                  (Inl err, w) \<Rightarrow>
                    (Inl (Raise \<lparr>ue_kind = Internal,
                       ue_message = ''failed to commit workspace revision: '' @ show_io_error err,
                       ue_rollback_proven = False\<rparr>), parents, w)
                | (Inr _, w) \<Rightarrow> (Inr (), parents, w))))"

fun evidence ::
  "prepared_change list \<Rightarrow> backup list \<Rightarrow> (applied_evidence, update_error raised) result" where
  "evidence (change # changes) (backup # backups) =
     (case pc_kind change of
        PFile _ sha256 \<Rightarrow> and_then (evidence changes backups) (\<lambda>e.
          Inr (e\<lparr>ae_changed := \<lparr>ev_path = pc_path change, ev_sha256 = sha256\<rparr> # ae_changed e\<rparr>))
      | PDelete \<Rightarrow>
          (case bk_sha256 backup of
             None \<Rightarrow> Inl (Panic ''delete target required an existing backup'')
           | Some sha256 \<Rightarrow> and_then (evidence changes backups) (\<lambda>e.
               Inr (e\<lparr>ae_deleted := \<lparr>ev_path = pc_path change, ev_sha256 = sha256\<rparr> # ae_deleted e\<rparr>))))"
| "evidence _ _ = Inr \<lparr>ae_changed = [], ae_deleted = []\<rparr>"

fun fail_rollback :: "io_error \<Rightarrow> update_error raised \<Rightarrow> update_error raised" where
  "fail_rollback e (Raise err) = Raise (err\<lparr>ue_rollback_proven := False,
     ue_message := ue_message err @ ''; rollback failed: '' @ show_io_error e\<rparr>)"
| "fail_rollback e (Panic m) = Panic m"

text \<open>One iteration of the loop that chowns and chmods the staged files.\<close>

definition prepare_one :: "prepared_change \<Rightarrow> unit upd" where
  "prepare_one change =
     (case pc_kind change of
        PFile staged _ \<Rightarrow> map_err_io (internal_io ''failed to prepare staged file: '')
          (prepare_staged_file staged)
      | PDelete \<Rightarrow> return_io ())"

text \<open>
  The body of \<^verbatim>\<open>apply_update_inner_controlled\<close> from the backups on, and from its first
  cancellation check on.
\<close>

definition backup_and_mutate ::
  "(bytes \<Rightarrow> string) \<Rightarrow> string \<Rightarrow> prepared_change list \<Rightarrow> u32 \<Rightarrow> u32 \<Rightarrow> (unit, io_error) io
   \<Rightarrow> (nat \<Rightarrow> world \<Rightarrow> world) \<Rightarrow> file_identity \<Rightarrow> applied_evidence upd" where
  "backup_and_mutate sha256 backups_root changes task_uid task_gid commit_metadata checkpoint root_fd =
     bind_io (fold_io (\<lambda>backups item. bind_io
           (backup_one sha256 root_fd backups_root task_uid task_gid item)
           (\<lambda>b. return_io (backups @ [b]))) []
         (List.enumerate 0 changes)) (\<lambda>backups w.
     case mutation root_fd task_uid task_gid checkpoint commit_metadata backups changes w of
       (Inl err, parents, w) \<Rightarrow>
         (case rollback (take (length parents) backups) parents w of
            (Inl e, w) \<Rightarrow> (Inl (fail_rollback e err), w)
          | (Inr _, w) \<Rightarrow> (Inl err, w))
     | (Inr _, parents, w) \<Rightarrow> (evidence changes backups, w))"

definition apply_uncancelled ::
  "(bytes \<Rightarrow> string) \<Rightarrow> prepared_update \<Rightarrow> string \<Rightarrow> u32 \<Rightarrow> u32 \<Rightarrow> (unit, io_error) io
   \<Rightarrow> (nat \<Rightarrow> world \<Rightarrow> world) \<Rightarrow> applied_evidence upd" where
  "apply_uncancelled sha256 prepared workspace task_uid task_gid commit_metadata checkpoint =
     bind_io (open_workspace_root workspace) (\<lambda>root_fd.
     let backups_root = path_join (pu_root prepared) ''backups'' in
     bind_io (map_err_io (internal_io ''failed to create update backups: '')
       (bind_io (create_dir backups_root) (\<lambda>_. plain_call))) (\<lambda>_.
     bind_io (for_io (pu_changes prepared) prepare_one) (\<lambda>_.
     backup_and_mutate sha256 backups_root (pu_changes prepared) task_uid task_gid commit_metadata
       checkpoint root_fd)))"

definition apply_update_inner_controlled ::
  "(bytes \<Rightarrow> string) \<Rightarrow> prepared_update \<Rightarrow> string \<Rightarrow> u32 \<Rightarrow> u32 \<Rightarrow> (unit, io_error) io
   \<Rightarrow> (nat \<Rightarrow> world \<Rightarrow> world) \<Rightarrow> applied_evidence upd" where
  "apply_update_inner_controlled sha256 prepared workspace task_uid task_gid commit_metadata
     checkpoint w =
     (case is_cancelled w of (cancelled, w) \<Rightarrow>
      if cancelled then (Inl (Raise update_cancelled), w)
      else apply_uncancelled sha256 prepared workspace task_uid task_gid commit_metadata checkpoint w)"

definition apply_update ::
  "(bytes \<Rightarrow> string) \<Rightarrow> prepared_update \<Rightarrow> string \<Rightarrow> u32 \<Rightarrow> u32 \<Rightarrow> (unit, io_error) io
   \<Rightarrow> applied_evidence upd" where
  "apply_update sha256 prepared workspace task_uid task_gid commit_metadata w =
     (case apply_update_inner_controlled sha256 prepared workspace task_uid task_gid commit_metadata
             (\<lambda>_ w. w) w of
        (r, w) \<Rightarrow> (r, remove_dir_all (pu_root prepared) w))"

end
