(* ===== verification/Update_Transaction.thy ===== *)
theory Update_Transaction
  imports Source_Update
begin

text \<open>
  The workspace update is a transaction: what \<open>apply_update\<close> promises about the files of the
  workspace when it succeeds and when it fails, for every schedule of I/O faults and of
  cancellation.

  Observed is what every name of every directory refers to, except the temporary names the
  daemon generates (a temporary file can be left behind when removing it fails, too).
\<close>

section \<open>Observing the file system\<close>

definition obs :: "world \<Rightarrow> file_identity \<Rightarrow> string \<Rightarrow> (file_identity \<times> node) option" where
  "obs w d n = Option.bind (dir_entry w d n)
     (\<lambda>i. map_option (\<lambda>nd. (i, nd\<lparr>entries := Map.empty\<rparr>)) (nodes w i))"

definition is_dir :: "world \<Rightarrow> file_identity \<Rightarrow> bool" where
  "is_dir w d = (case nodes w d of Some nd \<Rightarrow> is_dir_mode (st_mode nd) | None \<Rightarrow> False)"

definition temp_names :: "world \<Rightarrow> string set" where
  "temp_names w = range (\<lambda>k. temp_name (uuid w k))"

text \<open>
  Inode numbers in use are below the next one, entries refer to existing inodes, and the UUIDs
  still to be generated are fresh.
\<close>

definition wf_fs :: "world \<Rightarrow> bool" where
  "wf_fs w = ((\<forall>i nd. nodes w i = Some nd \<longrightarrow> inode i < next_inode w)
    \<and> (\<forall>d n i. dir_entry w d n = Some i \<longrightarrow> nodes w i \<noteq> None)
    \<and> inj (uuid w)
    \<and> (\<forall>k d. next_uuid w \<le> k \<longrightarrow> dir_entry w d (temp_name (uuid w k)) = None))"

text \<open>From \<open>w\<close> to \<open>w'\<close> at most the slots in \<open>T\<close> changed.\<close>

definition keeps :: "(file_identity \<times> string) set \<Rightarrow> world \<Rightarrow> world \<Rightarrow> bool" where
  "keeps T w w' = (wf_fs w' \<and> uuid w' = uuid w \<and> is_dir w' = is_dir w
    \<and> (\<forall>d n. n \<notin> temp_names w \<longrightarrow> (d, n) \<notin> T \<longrightarrow> obs w' d n = obs w d n))"

text \<open>A step that leaves all inodes alone.\<close>

definition same_fs :: "world \<Rightarrow> world \<Rightarrow> bool" where
  "same_fs w w' = (nodes w' = nodes w \<and> next_inode w' = next_inode w \<and> uuid w' = uuid w
    \<and> next_uuid w \<le> next_uuid w' \<and> roots w' = roots w)"

definition quiet :: "('a, 'e) io \<Rightarrow> bool" where
  "quiet m = (\<forall>w r w'. m w = (r, w') \<longrightarrow> same_fs w w' \<and> staging w' = staging w)"

definition installed ::
  "world \<Rightarrow> file_identity \<Rightarrow> string \<Rightarrow> bytes \<Rightarrow> u32 \<Rightarrow> u32 \<Rightarrow> u32 \<Rightarrow> bool" where
  "installed w d n c uid gid mode = (\<exists>i. obs w d n = Some (i,
     \<lparr>st_mode = S_IFREG OR (mode AND 0xFFF), st_uid = uid, st_gid = gid, content = c,
      entries = Map.empty\<rparr>))"

lemma obs_cong: "nodes w' = nodes w \<Longrightarrow> obs w' = obs w"
  by (auto simp: fun_eq_iff obs_def dir_entry_def)

lemma is_dir_cong: "nodes w' = nodes w \<Longrightarrow> is_dir w' = is_dir w"
  by (simp add: fun_eq_iff is_dir_def)

lemma dir_entry_cong: "nodes w' = nodes w \<Longrightarrow> dir_entry w' = dir_entry w"
  by (simp add: fun_eq_iff dir_entry_def)

lemma ticks_simps [simp]:
  "dir_entry (w\<lparr>ticks := t\<rparr>) = dir_entry w" "obs (w\<lparr>ticks := t\<rparr>) = obs w"
  "is_dir (w\<lparr>ticks := t\<rparr>) = is_dir w"
  by (rule dir_entry_cong obs_cong is_dir_cong, simp)+

lemma temp_names_cong: "uuid w' = uuid w \<Longrightarrow> temp_names w' = temp_names w"
  by (simp add: temp_names_def)

lemma same_fs_refl [simp]: "same_fs w w"
  by (simp add: same_fs_def)

lemma same_fs_trans: "same_fs a b \<Longrightarrow> same_fs b c \<Longrightarrow> same_fs a c"
  by (auto simp: same_fs_def)

lemma same_fs_ticks [simp]: "same_fs w (w\<lparr>ticks := t\<rparr>)"
  by (simp add: same_fs_def)

lemma same_fs_wf: "same_fs w w' \<Longrightarrow> wf_fs w \<Longrightarrow> wf_fs w'"
  unfolding same_fs_def wf_fs_def using dir_entry_cong [of w' w] by auto

lemma same_fs_keeps: "same_fs w w' \<Longrightarrow> wf_fs w \<Longrightarrow> keeps T w w'"
  using same_fs_wf [of w w'] obs_cong [of w' w] is_dir_cong [of w' w]
  by (auto simp: keeps_def same_fs_def)

lemma keeps_refl: "wf_fs w \<Longrightarrow> keeps T w w"
  by (simp add: keeps_def)

lemma keeps_trans: "keeps S u v \<Longrightarrow> keeps T v w \<Longrightarrow> keeps (S \<union> T) u w"
  using temp_names_cong [of v u] by (auto simp: keeps_def)

lemma keeps_mono: "keeps S u v \<Longrightarrow> S \<subseteq> T \<Longrightarrow> keeps T u v"
  by (auto simp: keeps_def)

lemma keeps_wf: "keeps T u v \<Longrightarrow> wf_fs v"
  by (simp add: keeps_def)

lemma keeps_obs: "keeps T w w' \<Longrightarrow> n \<notin> temp_names w \<Longrightarrow> (d, n) \<notin> T \<Longrightarrow> obs w' d n = obs w d n"
  by (simp add: keeps_def)

lemma keeps_is_dir: "keeps T w w' \<Longrightarrow> is_dir w' = is_dir w"
  by (simp add: keeps_def)

lemma keeps_temp_names: "keeps T w w' \<Longrightarrow> temp_names w' = temp_names w"
  by (simp add: keeps_def temp_names_def)

section \<open>Reasoning about computations\<close>

text \<open>
  From a world in \<open>P\<close> the computation ends in \<open>Q\<close> of its result, or fails in \<open>R\<close>.
\<close>

definition hoare ::
  "(world \<Rightarrow> bool) \<Rightarrow> ('a, 'e) io \<Rightarrow> ('a \<Rightarrow> world \<Rightarrow> bool) \<Rightarrow> (world \<Rightarrow> bool) \<Rightarrow> bool" where
  "hoare P m Q R =
     (\<forall>w. P w \<longrightarrow> (case m w of (Inl _, w') \<Rightarrow> R w' | (Inr x, w') \<Rightarrow> Q x w'))"

lemma hoare_bind:
  "hoare P m Q R \<Longrightarrow> (\<And>x. hoare (Q x) (f x) S R) \<Longrightarrow> hoare P (bind_io m f) S R"
  by (fastforce simp: hoare_def bind_io_def split: prod.splits sum.splits)

lemma hoare_cases:
  assumes "hoare P m Q R" and "P w" and "m w = (r, w')"
  obtains (err) e where "r = Inl e" "R w'" | (ok) x where "r = Inr x" "Q x w'"
  using assms by (cases r) (auto simp: hoare_def split: prod.splits)

lemma hoare_syscall:
  assumes "\<And>w t. P w \<Longrightarrow> P (w\<lparr>ticks := t\<rparr>)" and "hoare P m Q R" and "\<And>w. P w \<Longrightarrow> R w"
  shows "hoare P (syscall m) Q R"
  using assms by (fastforce simp: hoare_def syscall_def Let_def split: option.splits)

lemma syscallE:
  assumes "syscall m w = (r, w')"
  obtains (fault) s where "r = Inl (OsError EIO s)" "w' = w\<lparr>ticks := Suc (ticks w)\<rparr>"
    | (call) "m (w\<lparr>ticks := Suc (ticks w)\<rparr>) = (r, w')"
  using assms by (auto simp: syscall_def Let_def split: option.splits)

named_theorems quiet_intros \<open>computations that change neither inodes nor staged files\<close>

lemma quiet_return [quiet_intros]: "quiet (return_io x)"
  by (simp add: quiet_def return_io_def)

lemma quiet_fail [quiet_intros]: "quiet (fail_io e)"
  by (simp add: quiet_def fail_io_def)

lemma quiet_lift [quiet_intros]: "quiet (lift_result r)"
  by (simp add: quiet_def lift_result_def)

lemma quiet_ensure [quiet_intros]: "quiet (ensure_io b e)"
  by (simp add: ensure_io_def quiet_return quiet_fail)

lemma quietD: "quiet m \<Longrightarrow> m w = (r, w') \<Longrightarrow> same_fs w w' \<and> staging w' = staging w"
  by (simp add: quiet_def)

lemma quietI: "(\<And>w r w'. m w = (r, w') \<Longrightarrow> same_fs w w' \<and> staging w' = staging w) \<Longrightarrow> quiet m"
  by (simp add: quiet_def)

lemma quiet_bind [quiet_intros]:
  assumes m: "quiet m" and f: "\<And>x. quiet (f x)"
  shows "quiet (bind_io m f)"
proof (rule quietI)
  fix w r w'
  assume "bind_io m f w = (r, w')"
  then show "same_fs w w' \<and> staging w' = staging w"
  proof (cases rule: bind_ioE)
    case (err e)
    from quietD [OF m err(1)] show ?thesis .
  next
    case (ok x v)
    from quietD [OF m ok(1)] quietD [OF f ok(2)] show ?thesis by (auto intro: same_fs_trans)
  qed
qed

lemma quiet_map_err [quiet_intros]: "quiet m \<Longrightarrow> quiet (map_err_io g m)"
  by (rule quietI) (erule map_err_ioE, drule (1) quietD)

lemma quiet_syscall [quiet_intros]:
  assumes m: "quiet m"
  shows "quiet (syscall m)"
proof (rule quietI)
  fix w r w'
  assume "syscall m w = (r, w')"
  then show "same_fs w w' \<and> staging w' = staging w"
  proof (cases rule: syscallE)
    case call
    from quietD [OF m call] show ?thesis by (simp add: same_fs_def)
  qed simp
qed

lemma quiet_for [quiet_intros]: "(\<And>x. quiet (f x)) \<Longrightarrow> quiet (for_io xs f)"
  by (induction xs) (simp_all add: quiet_return quiet_bind)

lemma quiet_fold [quiet_intros]: "(\<And>s x. quiet (f s x)) \<Longrightarrow> quiet (fold_io f s xs)"
  by (induction xs arbitrary: s) (simp_all add: quiet_return quiet_bind)

lemma quiet_plain_call [quiet_intros]: "quiet plain_call" "quiet fsync"
  by (simp_all add: plain_call_def fsync_def quiet_intros)

lemma quiet_reads [quiet_intros]:
  "quiet (fstatat d n)" "quiet (fstat i)" "quiet (openat_dir d n)" "quiet (openat_file d n)"
  "quiet (open_staged p)" "quiet (open_root p)"
  unfolding fstatat_def fstat_def openat_dir_def openat_file_def open_staged_def open_root_def
  by (rule quiet_syscall,
      force simp: quiet_def os_error_def fail_io_def split: option.splits if_splits)+

lemma quiet_inspect [quiet_intros]: "quiet (inspect_target d n)"
  using quiet_reads(1) [of d n]
  by (fastforce simp: quiet_def inspect_target_def split: prod.splits sum.splits if_splits)

lemma quiet_cstring [quiet_intros]: "quiet (cstring_new s e)"
  by (simp add: cstring_new_def quiet_intros)

lemma quiet_fd_identity [quiet_intros]: "quiet (fd_identity i)"
  unfolding fd_identity_def by (auto intro!: quiet_intros)

lemma quiet_walk [quiet_intros]: "quiet (open_workspace_parent d p)"
  unfolding open_workspace_parent_def Let_def by (intro quiet_intros)

lemma quiet_open_root [quiet_intros]: "quiet (open_workspace_root p)"
  by (auto simp: open_workspace_root_def intro: quiet_intros)

lemma quiet_validate [quiet_intros]: "quiet (validate_target_at d n b)"
  unfolding validate_target_at_def by (intro quiet_intros)

lemma quiet_open_regular [quiet_intros]: "quiet (open_regular_at d n m)"
  unfolding open_regular_at_def by (auto intro!: quiet_intros split: prod.splits)

lemma quiet_verify [quiet_intros]: "quiet (verify_parent_still_beneath root p d)"
  unfolding verify_parent_still_beneath_def by (auto intro!: quiet_intros split: prod.splits)

lemma quiet_read_fd [quiet_intros]: "quiet (read_fd i)"
  unfolding read_fd_def by (auto intro!: quiet_intros split: prod.splits)

lemma quiet_prepare_staged [quiet_intros]: "quiet (prepare_staged_file p)"
  unfolding prepare_staged_file_def by (intro quiet_intros)

lemma quiet_cancelled: "is_cancelled w = (b, w') \<Longrightarrow> same_fs w w' \<and> staging w' = staging w"
  by (auto simp: is_cancelled_def)

section \<open>What the reading operations return\<close>

lemma inspect_target_obs:
  assumes "inspect_target d n w = (Inr m, w')" and "wf_fs w"
  shows "(case m of
      None \<Rightarrow> obs w d n = None
    | Some t \<Rightarrow> \<exists>nd. obs w d n = Some (tm_identity t, nd) \<and> st_mode nd = tm_mode t
        \<and> st_uid nd = tm_uid t \<and> st_gid nd = tm_gid t)"
proof -
  have "raw_os_error (OsError EIO s) \<noteq> Some ENOENT" for s by (simp add: EIO_def ENOENT_def)
  moreover have "dir_entry (w\<lparr>ticks := t\<rparr>) = dir_entry w" for t by (rule dir_entry_cong) simp
  moreover have "dir_entry w d n = Some i \<Longrightarrow> \<exists>nd. nodes w i = Some nd" for i
    using assms(2) by (auto simp: wf_fs_def)
  ultimately show ?thesis
    using assms(1)
    by (auto simp: inspect_target_def fstatat_def syscall_def os_error_def fail_io_def obs_def Let_def
        split: prod.splits sum.splits if_splits option.splits)
qed

text \<open>Resolving a path's parent directory without following links.\<close>

fun resolve :: "world \<Rightarrow> file_identity \<Rightarrow> string list \<Rightarrow> file_identity option" where
  "resolve w d [] = Some d"
| "resolve w d (c # cs) =
     (case obs w d c of
        Some (i, nd) \<Rightarrow> if is_dir_mode (st_mode nd) then resolve w i cs else None
      | None \<Rightarrow> None)"

lemma resolve_cong: "nodes w' = nodes w \<Longrightarrow> resolve w' d cs = resolve w d cs"
  using obs_cong [of w' w] by (induction cs arbitrary: d) (simp_all split: option.splits)

lemma openat_dir_Inr:
  assumes "openat_dir d c w = (Inr i, w')"
  shows "\<exists>nd. obs w d c = Some (i, nd) \<and> is_dir_mode (st_mode nd)"
  using assms [unfolded openat_dir_def]
proof (cases rule: syscallE)
  case call
  then show ?thesis
    by (auto simp: obs_def os_error_def fail_io_def split: option.splits if_splits)
qed simp

definition walk_step :: "io_error \<Rightarrow> file_identity \<Rightarrow> string \<Rightarrow> (file_identity, io_error) io" where
  "walk_step e parent component =
     bind_io (cstring_new component e) (\<lambda>component. openat_dir parent component)"

lemma walk_step_Inr: "walk_step e d c w = (Inr i, w') \<Longrightarrow> openat_dir d c w = (Inr i, w')"
  by (simp add: walk_step_def bind_io_def cstring_new_def return_io_def fail_io_def split: if_splits)

lemma walk_resolve: "fold_io (walk_step e) d cs w = (Inr p, w') \<Longrightarrow> resolve w d cs = Some p"
proof (induction cs arbitrary: d w)
  case Nil
  then show ?case by (simp add: return_io_def)
next
  case (Cons c cs)
  from Cons.prems have "bind_io (walk_step e d c) (\<lambda>d'. fold_io (walk_step e) d' cs) w = (Inr p, w')"
    by simp
  then show ?case
  proof (cases rule: bind_ioE)
    case (ok i v)
    note i = walk_step_Inr [OF ok(1)]
    have "nodes v = nodes w" using quietD [OF quiet_reads(3) i] by (simp add: same_fs_def)
    with Cons.IH [OF ok(2)] openat_dir_Inr [OF i] show ?thesis
      using resolve_cong [of v w] by auto
  qed simp
qed

definition slot_of :: "world \<Rightarrow> file_identity \<Rightarrow> string \<Rightarrow> (file_identity \<times> string) option" where
  "slot_of w root path = (let parts = split_on (CHR ''/'') path in
     map_option (\<lambda>p. (p, last parts)) (resolve w root (butlast parts)))"

lemma open_workspace_parent_slot:
  assumes "open_workspace_parent root path w = (Inr (p, n), w')"
  shows "slot_of w root path = Some (p, n)"
proof -
  let ?parts = "split_on (CHR ''/'') path" and ?e = "OtherError ''path component contains NUL''"
  have "bind_io plain_call (\<lambda>_. bind_io (fold_io (walk_step ?e) root (butlast ?parts))
      (\<lambda>parent. return_io (parent, last ?parts))) w = (Inr (p, n), w')"
    using assms unfolding open_workspace_parent_def Let_def walk_step_def [abs_def]
    by (simp add: cstring_new_def bind_io_def [of "fail_io _"] bind_io_def [of "return_io _"]
        fail_io_def return_io_def split: if_splits)
  then show ?thesis
  proof (cases rule: bind_ioE)
    case (ok u v)
    from quietD [OF quiet_plain_call(1) ok(1)] have v: "nodes v = nodes w" by (simp add: same_fs_def)
    from ok(2) show ?thesis
    proof (cases rule: bind_ioE)
      case (ok q v')
      from walk_resolve [OF ok(1)] ok(2) resolve_cong [OF v] show ?thesis
        by (simp add: slot_of_def Let_def return_io_def)
    qed simp
  qed simp
qed

lemma resolve_is_dir: "resolve w d cs = Some p \<Longrightarrow> is_dir w d \<Longrightarrow> is_dir w p"
proof (induction cs arbitrary: d)
  case (Cons c cs)
  then obtain i nd where "obs w d c = Some (i, nd)" "is_dir_mode (st_mode nd)" "resolve w i cs = Some p"
    by (auto split: option.splits if_splits)
  moreover from this have "is_dir w i" by (auto simp: obs_def is_dir_def bind_eq_Some_conv)
  ultimately show ?case using Cons.IH by blast
qed simp

lemma slot_of_is_dir: "slot_of w root path = Some (p, n) \<Longrightarrow> is_dir w root \<Longrightarrow> is_dir w p"
  by (auto simp: slot_of_def Let_def resolve_is_dir)

section \<open>What the changing operations do\<close>

text \<open>
  All changes of the workspace have one form: the entries of one directory change, and one fresh
  non-directory inode may be added.
\<close>

lemma keeps_dir_update:
  assumes wf: "wf_fs w" and d: "nodes w d = Some dnd" "is_dir_mode (st_mode dnd)"
    and i: "nodes w i = None" "ndopt \<noteq> None \<Longrightarrow> inode i < next_inode w'" "next_inode w \<le> next_inode w'"
      "\<And>nd. ndopt = Some nd \<Longrightarrow> \<not> is_dir_mode (st_mode nd)"
    and nodes': "nodes w' = (nodes w)(i := ndopt, d \<mapsto> dnd\<lparr>entries := E\<rparr>)"
    and E: "\<And>m j. E m = Some j \<Longrightarrow> entries dnd m = Some j \<or> (j = i \<and> ndopt \<noteq> None)"
      "\<And>m. m \<notin> temp_names w \<Longrightarrow> (d, m) \<notin> T \<Longrightarrow> E m = entries dnd m"
      "\<And>k. next_uuid w' \<le> k \<Longrightarrow> E (temp_name (uuid w k)) = None"
    and uuid: "uuid w' = uuid w" "next_uuid w \<le> next_uuid w'"
  shows "keeps T w w'"
proof -
  have di: "d \<noteq> i" using d(1) i(1) by auto
  have entry: "dir_entry w' e m = (if e = d then E m else dir_entry w e m)" for e m
    using d di i nodes' by (auto simp: dir_entry_def split: option.splits)
  have old: "dir_entry w d m = entries dnd m" for m using d by (simp add: dir_entry_def)
  have target: "dir_entry w e m = Some j \<Longrightarrow> j \<noteq> i \<and> nodes w j \<noteq> None" for e m j
    using wf i(1) unfolding wf_fs_def by metis
  have node_stripped: "j \<noteq> i \<Longrightarrow> map_option (\<lambda>nd. (j, nd\<lparr>entries := Map.empty\<rparr>)) (nodes w' j)
      = map_option (\<lambda>nd. (j, nd\<lparr>entries := Map.empty\<rparr>)) (nodes w j)" for j
    using d di nodes' by auto
  have "obs w' e m = obs w e m" if "m \<notin> temp_names w" "(e, m) \<notin> T" for e m
  proof -
    have "dir_entry w' e m = dir_entry w e m" using entry old E(2) that by auto
    then show ?thesis
      unfolding obs_def by (cases "dir_entry w e m") (auto simp: node_stripped dest: target)
  qed
  moreover have "is_dir w' = is_dir w"
    using d di i nodes' by (auto simp: fun_eq_iff is_dir_def split: option.splits)
  moreover have "wf_fs w'"
  proof -
    have "inode j < next_inode w'" if "nodes w' j = Some nd" for j nd
      using that nodes' i d(1) wf by (auto simp: wf_fs_def split: if_splits)
    moreover have "nodes w' j \<noteq> None" if "dir_entry w' e m = Some j" for e m j
      using that entry [of e m] E(1) [of m j] old [of m] target [of e m j] nodes' d(1)
      by (auto split: if_splits)
    moreover have "dir_entry w' e (temp_name (uuid w' k)) = None" if "next_uuid w' \<le> k" for e k
      using that entry E(3) [of k] wf uuid by (auto simp: wf_fs_def)
    ultimately show ?thesis using wf uuid by (simp add: wf_fs_def)
  qed
  ultimately show ?thesis using uuid by (simp add: keeps_def)
qed

lemma temp_name_inj: "temp_name u = temp_name v \<longleftrightarrow> u = v"
  by (simp add: temp_name_def)

lemma regular_mode_mask:
  "(S_IFREG OR (m AND 0xFFF)) AND S_IFMT = S_IFREG"
proof -
  have "(m AND 0xFFF) AND 0xF000 = (0 :: u32)" for m :: u32
    by (simp add: and.assoc)
  then show ?thesis by (simp add: S_IFREG_def S_IFMT_def bit.conj_disj_distrib2)
qed

lemma regular_mode [simp]:
  "is_regular_mode (S_IFREG OR (m AND 0xFFF))" "\<not> is_dir_mode (S_IFREG OR (m AND 0xFFF))"
  using regular_mode_mask [of m]
  by (simp_all add: is_regular_mode_def is_dir_mode_def) (simp add: S_IFREG_def S_IFDIR_def)

lemma regular_not_dir: "is_regular_mode m \<Longrightarrow> \<not> is_dir_mode m"
  by (simp add: is_regular_mode_def is_dir_mode_def S_IFREG_def S_IFDIR_def)

text \<open>
  While an atomic copy is under way only the temporary name is new: inode \<open>i\<close> is fresh and the
  directory's entries \<open>E\<close> differ from the original ones at the temporary name.
\<close>

definition copying ::
  "world \<Rightarrow> file_identity \<Rightarrow> node \<Rightarrow> file_identity \<Rightarrow> node \<Rightarrow> (string \<Rightarrow> file_identity option) \<Rightarrow> world
   \<Rightarrow> bool" where
  "copying w d dnd i nd E w' =
     (nodes w' = (nodes w)(i \<mapsto> nd, d \<mapsto> dnd\<lparr>entries := E\<rparr>)
      \<and> next_inode w' = Suc (next_inode w) \<and> uuid w' = uuid w \<and> next_uuid w' = Suc (next_uuid w)
      \<and> staging w' = staging w)"

lemma copying_ticks [simp]: "copying w d dnd i nd E (w'\<lparr>ticks := t\<rparr>) = copying w d dnd i nd E w'"
  by (simp add: copying_def)

lemma copying_quiet:
  assumes "copying w d dnd i nd E v" and "quiet m" and "m v = (r, v')" and "next_uuid v' = next_uuid v"
  shows "copying w d dnd i nd E v'"
  using assms quietD [OF assms(2,3)] by (simp add: copying_def same_fs_def)

lemma copying_update_node:
  assumes "copying w d dnd i nd E v" and "i \<noteq> d" and "update_node i f v = (r, v')"
  shows "copying w d dnd i nd E v' \<and> \<not> is_ok r \<or> copying w d dnd i (f nd) E v' \<and> r = Inr ()"
  using assms unfolding update_node_def
  by (auto elim!: syscallE simp: copying_def fun_upd_twist)

lemma copying_append:
  assumes "copying w d dnd i nd E v" and "i \<noteq> d" and "for_io cs (append_fd i) v = (r, v')"
  shows "\<exists>c. copying w d dnd i (nd\<lparr>content := c\<rparr>) E v' \<and> (is_ok r \<longrightarrow> c = content nd @ concat cs)"
  using assms
proof (induction cs arbitrary: v nd)
  case Nil
  then show ?case by (intro exI [of _ "content nd"]) (simp add: return_io_def)
next
  case (Cons b cs)
  from Cons.prems(3) have "bind_io (append_fd i b) (\<lambda>_. for_io cs (append_fd i)) v = (r, v')" by simp
  then show ?case
  proof (cases rule: bind_ioE)
    case (err e)
    from copying_update_node [OF Cons.prems(1,2) err(1) [unfolded append_fd_def]] err(2)
    show ?thesis by (intro exI [of _ "content nd"]) simp
  next
    case (ok x u)
    from copying_update_node [OF Cons.prems(1,2) ok(1) [unfolded append_fd_def]]
    have "copying w d dnd i (nd\<lparr>content := content nd @ b\<rparr>) E u" by simp
    from Cons.IH [OF this Cons.prems(2) ok(2)] show ?thesis by simp
  qed
qed

lemma copying_keeps:
  assumes wf: "wf_fs w" and d: "nodes w d = Some dnd" "is_dir_mode (st_mode dnd)"
    and i: "nodes w i = None" "inode i = next_inode w" and nd: "\<not> is_dir_mode (st_mode nd)"
    and t: "t = temp_name (uuid w (next_uuid w))"
    and E: "E = (entries dnd)(t := x, n := y)" "x = None \<or> x = Some i"
      "y = entries dnd n \<or> y = Some i" "n \<notin> temp_names w"
    and cp: "copying w d dnd i nd E w'"
  shows "keeps (if y = entries dnd n then {} else {(d, n)}) w w'"
proof (rule keeps_dir_update [OF wf d i(1), where ndopt = "Some nd" and E = E])
  have nt: "n \<noteq> t" using E(4) t by (auto simp: temp_names_def)
  show "nodes w' = (nodes w)(i := Some nd, d \<mapsto> dnd\<lparr>entries := E\<rparr>)"
    using cp by (simp add: copying_def)
  show "entries dnd m = Some j \<or> j = i \<and> Some nd \<noteq> None" if "E m = Some j" for m j
    using that E(1-3) by (auto split: if_splits)
  show "E m = entries dnd m"
    if "m \<notin> temp_names w" "(d, m) \<notin> (if y = entries dnd n then {} else {(d, n)})" for m
    using that E(1) t by (auto simp: temp_names_def split: if_splits)
  show "E (temp_name (uuid w k)) = None" if "next_uuid w' \<le> k" for k
  proof -
    from that cp have k: "next_uuid w < k" by (simp add: copying_def)
    with wf have "uuid w k \<noteq> uuid w (next_uuid w)" by (auto simp: wf_fs_def dest: injD)
    moreover have "temp_name (uuid w k) \<noteq> n" using E(4) by (auto simp: temp_names_def)
    moreover have "entries dnd (temp_name (uuid w k)) = None"
    proof -
      from wf k have "dir_entry w d (temp_name (uuid w k)) = None" by (simp add: wf_fs_def)
      with d show ?thesis by (simp add: dir_entry_def)
    qed
    ultimately show ?thesis using E(1) t by (simp add: temp_name_inj)
  qed
qed (use cp i nd in \<open>simp_all add: copying_def\<close>)

lemma hoareI:
  "(\<And>w r w'. P w \<Longrightarrow> m w = (r, w') \<Longrightarrow> (\<exists>e. r = Inl e \<and> R w') \<or> (\<exists>x. r = Inr x \<and> Q x w'))
    \<Longrightarrow> hoare P m Q R"
  by (fastforce simp: hoare_def split: prod.splits sum.splits)

lemma hoare_plain:
  assumes "\<And>w t. P w \<Longrightarrow> P (w\<lparr>ticks := t\<rparr>)" and "\<And>w. P w \<Longrightarrow> R w"
  shows "hoare P plain_call (\<lambda>_. P) R"
  using assms unfolding plain_call_def
  by (intro hoare_syscall) (auto simp: hoare_def return_io_def)

text \<open>The body of an atomic copy from the world \<open>w\<close>, phase by phase.\<close>

definition before_copy :: "world \<Rightarrow> world \<Rightarrow> bool" where
  "before_copy w v = (nodes v = nodes w \<and> next_inode v = next_inode w \<and> uuid v = uuid w
     \<and> next_uuid v = Suc (next_uuid w) \<and> staging v = staging w \<and> roots v = roots w)"

definition fresh_id :: "world \<Rightarrow> file_identity \<Rightarrow> file_identity" where
  "fresh_id w d = \<lparr>device = device d, inode = next_inode w\<rparr>"

definition temp_node :: "bytes \<Rightarrow> u32 \<Rightarrow> u32 \<Rightarrow> u32 \<Rightarrow> node" where
  "temp_node c uid gid mode = \<lparr>st_mode = S_IFREG OR (mode AND 0xFFF), st_uid = uid, st_gid = gid,
     content = c, entries = Map.empty\<rparr>"

definition copy_started :: "world \<Rightarrow> file_identity \<Rightarrow> node \<Rightarrow> string \<Rightarrow> node \<Rightarrow> world \<Rightarrow> bool" where
  "copy_started w d dnd t nd v = (\<not> is_dir_mode (st_mode nd)
     \<and> copying w d dnd (fresh_id w d) nd ((entries dnd)(t \<mapsto> fresh_id w d)) v)"

definition copy_done :: "world \<Rightarrow> file_identity \<Rightarrow> node \<Rightarrow> string \<Rightarrow> string \<Rightarrow> node \<Rightarrow> world \<Rightarrow> bool" where
  "copy_done w d dnd t n nd v =
     copying w d dnd (fresh_id w d) nd ((entries dnd)(t := None, n \<mapsto> fresh_id w d)) v"

lemma copy_phase_ticks [simp]:
  "before_copy w (v\<lparr>ticks := k\<rparr>) = before_copy w v"
  "copy_started w d dnd t nd (v\<lparr>ticks := k\<rparr>) = copy_started w d dnd t nd v"
  "copy_done w d dnd t n nd (v\<lparr>ticks := k\<rparr>) = copy_done w d dnd t n nd v"
  by (simp_all add: before_copy_def copy_started_def copy_done_def)

lemma fresh_id_unused: "wf_fs w \<Longrightarrow> nodes w (fresh_id w d) = None"
  by (cases "nodes w (fresh_id w d)") (auto simp: wf_fs_def fresh_id_def)

lemma hoare_create_temp:
  assumes "wf_fs w" and "nodes w d = Some dnd" and "is_dir_mode (st_mode dnd)"
    and "entries dnd t = None"
  shows "hoare (before_copy w) (create_excl d t 0x180)
    (\<lambda>i v. i = fresh_id w d \<and> copy_started w d dnd t (temp_node [] 0 0 0x180) v) (before_copy w)"
  unfolding create_excl_def
proof (rule hoare_syscall, simp, rule hoareI)
  fix v r v'
  assume v: "before_copy w v" and run: "(case nodes v d of None \<Rightarrow> os_error EIO v
     | Some dnd \<Rightarrow>
         if \<not> is_dir_mode (st_mode dnd) then os_error ENOTDIR v
         else if entries dnd t \<noteq> None then os_error EEXIST v
         else
           let i = \<lparr>device = device d, inode = next_inode v\<rparr>;
               nd = \<lparr>st_mode = S_IFREG OR (0x180 AND 0xFFF), st_uid = 0, st_gid = 0, content = [],
                     entries = Map.empty\<rparr>
           in (Inr i, set_entry d t (Some i)
                 (v\<lparr>nodes := (nodes v)(i \<mapsto> nd), next_inode := Suc (next_inode v)\<rparr>))) = (r, v')"
  have "fresh_id w d \<noteq> d" using fresh_id_unused [OF assms(1), of d] assms(2) by auto
  with v run assms(2-4) show "(\<exists>e. r = Inl e \<and> before_copy w v')
    \<or> (\<exists>x. r = Inr x \<and> x = fresh_id w d \<and> copy_started w d dnd t (temp_node [] 0 0 0x180) v')"
    using regular_mode(2) [of "0x180"]
    by (auto simp: before_copy_def copy_started_def copying_def temp_node_def set_entry_def Let_def
        fresh_id_def)
qed

lemma fresh_id_neq: "wf_fs w \<Longrightarrow> nodes w d = Some dnd \<Longrightarrow> fresh_id w d \<noteq> d"
  using fresh_id_unused [of w d] by auto

text \<open>Where the body of an atomic copy can stop.\<close>

definition copy_stopped ::
  "world \<Rightarrow> file_identity \<Rightarrow> node \<Rightarrow> string \<Rightarrow> string \<Rightarrow> node \<Rightarrow> world \<Rightarrow> bool" where
  "copy_stopped w d dnd t n ndf v =
     (before_copy w v \<or> (\<exists>nd. copy_started w d dnd t nd v) \<or> copy_done w d dnd t n ndf v)"

lemma hoare_write_temp:
  assumes "wf_fs w" and "nodes w d = Some dnd"
  shows "hoare (copy_started w d dnd t (temp_node [] uid gid mode))
    (for_io (chunks c) (append_fd (fresh_id w d)))
    (\<lambda>_. copy_started w d dnd t (temp_node c uid gid mode)) (copy_stopped w d dnd t n ndf)"
proof (rule hoareI)
  fix v r v'
  assume v: "copy_started w d dnd t (temp_node [] uid gid mode) v"
    and run: "for_io (chunks c) (append_fd (fresh_id w d)) v = (r, v')"
  have *: "(temp_node [] uid gid mode)\<lparr>content := b\<rparr> = temp_node b uid gid mode" for b
    by (simp add: temp_node_def)
  have **: "content (temp_node [] uid gid mode) = []" by (simp add: temp_node_def)
  from v have "copying w d dnd (fresh_id w d) (temp_node [] uid gid mode)
      ((entries dnd)(t \<mapsto> fresh_id w d)) v" by (simp add: copy_started_def)
  from copying_append [OF this fresh_id_neq [OF assms] run] obtain b where
    b: "copying w d dnd (fresh_id w d) (temp_node b uid gid mode) ((entries dnd)(t \<mapsto> fresh_id w d)) v'"
    and ok: "is_ok r \<longrightarrow> b = c" by (auto simp: * **)
  from b have "copy_started w d dnd t (temp_node b uid gid mode) v'"
    by (simp add: copy_started_def temp_node_def)
  with ok show "(\<exists>e. r = Inl e \<and> copy_stopped w d dnd t n ndf v')
    \<or> (\<exists>x. r = Inr x \<and> copy_started w d dnd t (temp_node c uid gid mode) v')"
    by (cases r) (auto simp: copy_stopped_def)
qed

lemma hoare_update_temp:
  assumes "wf_fs w" and "nodes w d = Some dnd" and "\<not> is_dir_mode (st_mode (f nd))"
  shows "hoare (copy_started w d dnd t nd) (update_node (fresh_id w d) f)
    (\<lambda>_. copy_started w d dnd t (f nd)) (copy_stopped w d dnd t n ndf)"
proof (rule hoareI)
  fix v r v'
  assume v: "copy_started w d dnd t nd v" and run: "update_node (fresh_id w d) f v = (r, v')"
  from v have "copying w d dnd (fresh_id w d) nd ((entries dnd)(t \<mapsto> fresh_id w d)) v"
    by (simp add: copy_started_def)
  from copying_update_node [OF this fresh_id_neq [OF assms(1,2)] run] v assms(3)
  show "(\<exists>e. r = Inl e \<and> copy_stopped w d dnd t n ndf v')
    \<or> (\<exists>x. r = Inr x \<and> copy_started w d dnd t (f nd) v')"
    by (cases r) (auto simp: copy_stopped_def copy_started_def)
qed

lemma hoare_owner_mode_temp:
  assumes "wf_fs w" and "nodes w d = Some dnd"
  shows "hoare (copy_started w d dnd t (temp_node c 0 0 m0)) (set_fd_owner_mode (fresh_id w d) uid gid mode)
    (\<lambda>_. copy_started w d dnd t (temp_node c uid gid mode)) (copy_stopped w d dnd t n ndf)"
proof -
  have own: "(\<lambda>nd. nd\<lparr>st_uid := uid, st_gid := gid\<rparr>) (temp_node c 0 0 m0) = temp_node c uid gid m0"
    by (simp add: temp_node_def)
  have mode: "(\<lambda>nd. nd\<lparr>st_mode := (st_mode nd AND S_IFMT) OR (mode AND 0xFFF)\<rparr>) (temp_node c uid gid m0)
      = temp_node c uid gid mode"
    by (simp add: temp_node_def regular_mode_mask)
  have reg: "\<not> is_dir_mode (st_mode (temp_node c uid gid m))" for m
    by (simp add: temp_node_def)
  show ?thesis
    unfolding set_fd_owner_mode_def fchown_def fchmod_def
    by (rule hoare_bind [OF hoare_update_temp [OF assms, of "\<lambda>nd. nd\<lparr>st_uid := uid, st_gid := gid\<rparr>"
            "temp_node c 0 0 m0", unfolded own, OF reg]
          hoare_update_temp [OF assms, of "\<lambda>nd. nd\<lparr>st_mode := (st_mode nd AND S_IFMT) OR (mode AND 0xFFF)\<rparr>"
            "temp_node c uid gid m0", unfolded mode, OF reg]])
qed

lemma hoare_rename_temp:
  assumes "wf_fs w" and "nodes w d = Some dnd" and "is_dir_mode (st_mode dnd)" and "n \<noteq> t"
  shows "hoare (copy_started w d dnd t nd) (renameat d t n)
    (\<lambda>_. copy_done w d dnd t n nd) (copy_stopped w d dnd t n ndf)"
  unfolding renameat_def
proof (rule hoare_syscall, simp, rule hoareI)
  fix v r v'
  assume v: "copy_started w d dnd t nd v"
    and run: "(case dir_entry v d t of None \<Rightarrow> os_error ENOENT v
     | Some i \<Rightarrow>
         (case Option.bind (dir_entry v d n) (nodes v) of
            None \<Rightarrow> (Inr (), set_entry d t None (set_entry d n (Some i) v))
          | Some nd \<Rightarrow> if is_dir_mode (st_mode nd) then os_error EISDIR v
              else (Inr (), set_entry d t None (set_entry d n (Some i) v)))) = (r, v')"
  from v have nodes: "nodes v d = Some (dnd\<lparr>entries := (entries dnd)(t \<mapsto> fresh_id w d)\<rparr>)"
    by (simp add: copy_started_def copying_def)
  with assms(3) have entry: "dir_entry v d t = Some (fresh_id w d)" by (simp add: dir_entry_def)
  have "copy_done w d dnd t n nd (set_entry d t None (set_entry d n (Some (fresh_id w d)) v))"
    using v nodes assms(4)
    by (simp add: copy_done_def copy_started_def copying_def set_entry_def fun_upd_twist)
  moreover have "copy_stopped w d dnd t n ndf v" using v by (auto simp: copy_stopped_def)
  ultimately show "(\<exists>e. r = Inl e \<and> copy_stopped w d dnd t n ndf v')
    \<or> (\<exists>x. r = Inr x \<and> copy_done w d dnd t n nd v')"
    using run unfolding entry
    by (auto simp: os_error_def fail_io_def split: option.splits if_splits)
qed (auto simp: copy_stopped_def)

lemma hoare_weaken: "hoare P m Q R \<Longrightarrow> (\<And>v. R v \<Longrightarrow> R' v) \<Longrightarrow> hoare P m Q R'"
  by (fastforce simp: hoare_def split: prod.splits sum.splits)

lemma hoare_pre: "hoare P m Q R \<Longrightarrow> (\<And>v. P' v \<Longrightarrow> P v) \<Longrightarrow> hoare P' m Q R"
  by (fastforce simp: hoare_def split: prod.splits sum.splits)

lemma hoare_open_staged:
  "hoare (before_copy w) (open_staged src)
    (\<lambda>c v. before_copy w v \<and> staging w src = Some c) (before_copy w)"
  unfolding open_staged_def
  by (rule hoare_syscall)
    (auto simp: hoare_def before_copy_def os_error_def fail_io_def split: option.splits)

lemma hoare_fill_and_rename:
  assumes wf: "wf_fs w" and d: "nodes w d = Some dnd" "is_dir_mode (st_mode dnd)" and t: "n \<noteq> t"
  shows "hoare (copy_started w d dnd t (temp_node [] 0 0 0x180))
    (fill_and_rename c d t n uid gid mode (fresh_id w d))
    (\<lambda>_. copy_done w d dnd t n (temp_node c uid gid mode))
    (copy_stopped w d dnd t n (temp_node c uid gid mode))"
proof -
  let ?stop = "copy_stopped w d dnd t n (temp_node c uid gid mode)"
  have fsync: "hoare P fsync (\<lambda>_. P) ?stop"
    if "\<And>v k. P v \<Longrightarrow> P (v\<lparr>ticks := k\<rparr>)" "\<And>v. P v \<Longrightarrow> ?stop v" for P
    unfolding fsync_def by (intro hoare_plain that)
  have started: "copy_started w d dnd t nd v \<Longrightarrow> ?stop v" for nd v
    by (auto simp: copy_stopped_def)
  have finished: "copy_done w d dnd t n (temp_node c uid gid mode) v \<Longrightarrow> ?stop v" for v
    by (simp add: copy_stopped_def)
  show ?thesis
    unfolding fill_and_rename_def
    by (intro hoare_bind [OF hoare_write_temp [OF wf d(1)]] hoare_bind [OF fsync]
        hoare_bind [OF hoare_owner_mode_temp [OF wf d(1)]]
        hoare_bind [OF hoare_rename_temp [OF wf d t]] fsync)
      (simp_all add: started finished)
qed

lemma hoare_copy_body:
  assumes wf: "wf_fs w" and d: "nodes w d = Some dnd" "is_dir_mode (st_mode dnd)"
    and t: "entries dnd t = None" "n \<noteq> t"
  shows "hoare (before_copy w) (atomic_copy_body src d t n uid gid mode)
    (\<lambda>_ v. \<exists>c. staging w src = Some c \<and> copy_done w d dnd t n (temp_node c uid gid mode) v)
    (\<lambda>v. before_copy w v \<or> (\<exists>c. staging w src = Some c
       \<and> copy_stopped w d dnd t n (temp_node c uid gid mode) v))"
    (is "hoare _ _ ?Q ?R")
  unfolding atomic_copy_body_def
proof (rule hoare_bind [OF hoare_weaken [OF hoare_open_staged]], simp)
  fix c
  let ?created = "\<lambda>i v. (i = fresh_id w d \<and> copy_started w d dnd t (temp_node [] 0 0 0x180) v)
    \<and> staging w src = Some c"
  have plain: "hoare (\<lambda>v. before_copy w v \<and> staging w src = Some c) plain_call
      (\<lambda>_ v. before_copy w v \<and> staging w src = Some c) ?R"
    by (rule hoare_plain) auto
  have create: "hoare (\<lambda>v. before_copy w v \<and> staging w src = Some c) (create_excl d t 0x180) ?created ?R"
    using hoare_create_temp [OF wf d t(1)]
    by (fastforce simp: hoare_def split: prod.splits sum.splits)
  have fill: "hoare (?created i) (fill_and_rename c d t n uid gid mode i) ?Q ?R" for i
    using hoare_fill_and_rename [OF wf d t(2), of c uid gid mode]
    by (fastforce simp: hoare_def split: prod.splits sum.splits)
  show "hoare (\<lambda>v. before_copy w v \<and> staging w src = Some c)
     (bind_io plain_call (\<lambda>_. bind_io (create_excl d t 0x180)
        (fill_and_rename c d t n uid gid mode))) ?Q ?R"
    by (rule hoare_bind [OF plain hoare_bind [OF create fill]])
qed

lemma copying_obs:
  assumes "copying w d dnd i nd E v" and "is_dir_mode (st_mode dnd)" and "E n = Some i" and "i \<noteq> d"
  shows "obs v d n = Some (i, nd\<lparr>entries := Map.empty\<rparr>)"
  using assms by (simp add: copying_def obs_def dir_entry_def)

lemma copying_unlink_temp:
  assumes "copying w d dnd i nd E v" and "is_dir_mode (st_mode dnd)" and "unlinkat d t v = (r, v')"
    and "E t = None \<or> E t = Some i" and "i \<noteq> d" and "\<not> is_dir_mode (st_mode nd)"
  shows "copying w d dnd i nd E v' \<or> copying w d dnd i nd (E(t := None)) v'"
proof -
  from assms(1,2) have "dir_entry v d t = E t" by (simp add: copying_def dir_entry_def)
  with assms show ?thesis unfolding unlinkat_def
    by (auto elim!: syscallE simp: os_error_def fail_io_def copying_def set_entry_def
        split: option.splits if_splits)
qed

lemma before_copy_unlink_temp:
  assumes "before_copy w v" and "dir_entry w d t = None" and "unlinkat d t v = (r, v')"
  shows "before_copy w v'"
proof -
  from assms(1,2) have "dir_entry v d t = None" by (simp add: before_copy_def dir_entry_def)
  with assms show ?thesis unfolding unlinkat_def
    by (auto elim!: syscallE simp: os_error_def fail_io_def before_copy_def)
qed

lemma before_copy_keeps: "wf_fs w \<Longrightarrow> before_copy w v \<Longrightarrow> keeps T w v \<and> obs v = obs w \<and> staging v = staging w"
  using same_fs_keeps [of w v T] obs_cong [of v w] by (simp add: before_copy_def same_fs_def)

text \<open>
  After a started or finished copy, with the temporary name removed or not, every other slot is
  as before, and the target is as before or holds the new file.
\<close>

lemma copying_outcome:
  assumes wf: "wf_fs w" and d: "nodes w d = Some dnd" "is_dir_mode (st_mode dnd)"
    and n: "n \<notin> temp_names w" and t: "t = temp_name (uuid w (next_uuid w))"
    and nd: "\<not> is_dir_mode (st_mode nd)"
    and E: "E = (entries dnd)(t := x, n := y)" "x = None \<or> x = Some (fresh_id w d)"
      "y = entries dnd n \<or> y = Some (fresh_id w d)"
    and cp: "copying w d dnd (fresh_id w d) nd E v"
  shows "keeps {(d, n)} w v \<and> staging v = staging w
    \<and> (if y = entries dnd n then obs v d n = obs w d n
       else obs v d n = Some (fresh_id w d, nd\<lparr>entries := Map.empty\<rparr>))"
proof -
  let ?T = "if y = entries dnd n then {} else {(d, n)}"
  have k: "keeps ?T w v"
    by (rule copying_keeps [OF wf d fresh_id_unused [OF wf] _ nd t E n cp]) (simp add: fresh_id_def)
  then have "keeps {(d, n)} w v" by (rule keeps_mono) auto
  moreover have "y = entries dnd n \<Longrightarrow> obs v d n = obs w d n" using k n by (simp add: keeps_obs)
  moreover have "y \<noteq> entries dnd n \<Longrightarrow> obs v d n = Some (fresh_id w d, nd\<lparr>entries := Map.empty\<rparr>)"
    using E by (intro copying_obs [OF cp d(2) _ fresh_id_neq [OF wf d(1)]]) auto
  ultimately show ?thesis using cp by (simp add: copying_def)
qed

lemma fresh_not_entry: "wf_fs w \<Longrightarrow> nodes w d = Some dnd \<Longrightarrow> is_dir_mode (st_mode dnd)
    \<Longrightarrow> entries dnd n \<noteq> Some (fresh_id w d)"
proof
  assume wf: "wf_fs w" and d: "nodes w d = Some dnd" "is_dir_mode (st_mode dnd)"
    and "entries dnd n = Some (fresh_id w d)"
  then have "dir_entry w d n = Some (fresh_id w d)" by (simp add: dir_entry_def)
  with wf have "nodes w (fresh_id w d) \<noteq> None" unfolding wf_fs_def by blast
  with fresh_id_unused [OF wf, of d] show False by simp
qed

lemma atomic_copy_at_effect:
  assumes wf: "wf_fs w" and dir: "is_dir w d" and n: "n \<notin> temp_names w"
    and run: "atomic_copy_at src d n uid gid mode w = (r, w')"
  shows "keeps {(d, n)} w w' \<and> staging w' = staging w"
    and "is_ok r \<Longrightarrow> \<exists>c. staging w src = Some c \<and> installed w' d n c uid gid mode"
    and "obs w' d n = obs w d n \<or> (\<exists>c. staging w src = Some c \<and> installed w' d n c uid gid mode)"
proof -
  from dir obtain dnd where d: "nodes w d = Some dnd" "is_dir_mode (st_mode dnd)"
    by (auto simp: is_dir_def split: option.splits)
  define t where "t = temp_name (uuid w (next_uuid w))"
  have fresh: "dir_entry w d t = None" using wf by (simp add: wf_fs_def t_def)
  then have et: "entries dnd t = None" using d by (simp add: dir_entry_def)
  have nt: "n \<noteq> t" using n by (auto simp: temp_names_def t_def)
  let ?i = "fresh_id w d" and ?nd = "\<lambda>c. temp_node c uid gid mode"
  have start: "before_copy w (w\<lparr>next_uuid := Suc (next_uuid w)\<rparr>)" by (simp add: before_copy_def)
  obtain r1 v where body: "atomic_copy_body src d t n uid gid mode
      (w\<lparr>next_uuid := Suc (next_uuid w)\<rparr>) = (r1, v)" by fastforce
  note out = copying_outcome [OF wf d n t_def]
  have nd: "\<not> is_dir_mode (st_mode (?nd c))" for c by (simp add: temp_node_def)
  have inst: "obs u d n = Some (?i, (?nd c)\<lparr>entries := Map.empty\<rparr>) \<Longrightarrow> installed u d n c uid gid mode" for u c
    by (auto simp: installed_def temp_node_def)
  have done_out: "keeps {(d, n)} w u \<and> staging u = staging w \<and> installed u d n c uid gid mode"
    if "copying w d dnd ?i (?nd c) ((entries dnd)(t := None, n \<mapsto> ?i)) u" for c u
    using out [OF nd refl _ _ that] fresh_not_entry [OF wf d, of n] inst by auto
  have idem: "(entries dnd)(t := x) = (entries dnd)(t := x, n := entries dnd n)" for x
    using nt by (simp add: fun_upd_twist fun_upd_idem)
  have start_out: "keeps {(d, n)} w u \<and> staging u = staging w \<and> obs u d n = obs w d n"
    if "copying w d dnd ?i nd0 ((entries dnd)(t := x)) u" "\<not> is_dir_mode (st_mode nd0)"
      "x = None \<or> x = Some ?i" for nd0 x u
    using out [OF that(2) idem that(3) _ that(1)] by simp
  have final: "keeps {(d, n)} w w' \<and> staging w' = staging w
    \<and> (is_ok r \<longrightarrow> (\<exists>c. staging w src = Some c \<and> installed w' d n c uid gid mode))
    \<and> (obs w' d n = obs w d n \<or> (\<exists>c. staging w src = Some c \<and> installed w' d n c uid gid mode))"
  proof (cases rule: hoare_cases [OF hoare_copy_body [OF wf d et nt] start body])
    case (2 x)
    with run body have "w' = v" by (simp add: atomic_copy_at_def new_uuid_def t_def)
    with 2(2) done_out show ?thesis by (auto simp: copy_done_def)
  next
    case (1 e)
    with run body obtain r2 where un: "unlinkat d t v = (r2, w')" and r: "r = Inl e"
      by (auto simp: atomic_copy_at_def new_uuid_def t_def split: prod.splits)
    have "before_copy w v \<Longrightarrow> ?thesis"
      using before_copy_keeps [OF wf before_copy_unlink_temp [OF _ fresh un]] r by simp
    moreover have "?thesis" if st: "copy_started w d dnd t nd0 v" for nd0
    proof -
      from st have cp: "copying w d dnd ?i nd0 ((entries dnd)(t \<mapsto> ?i)) v"
        and nd0: "\<not> is_dir_mode (st_mode nd0)" by (simp_all add: copy_started_def)
      from copying_unlink_temp [OF cp d(2) un _ fresh_id_neq [OF wf d(1)] nd0]
      have "\<exists>x. (x = None \<or> x = Some ?i) \<and> copying w d dnd ?i nd0 ((entries dnd)(t := x)) w'"
        by auto
      with start_out [OF _ nd0] r show ?thesis by fastforce
    qed
    moreover have "?thesis" if st: "copy_done w d dnd t n (?nd c) v" "staging w src = Some c" for c
    proof -
      let ?E = "(entries dnd)(t := None, n \<mapsto> ?i)"
      from nt have "?E t = None" by simp
      moreover from this have "?E(t := None) = ?E" by (rule fun_upd_idem)
      ultimately have "copying w d dnd ?i (?nd c) ?E w'"
        using copying_unlink_temp [OF st(1) [unfolded copy_done_def] d(2) un _ fresh_id_neq [OF wf d(1)] nd]
        by simp
      with done_out st(2) r show ?thesis by auto
    qed
    ultimately show ?thesis using 1(2) unfolding copy_stopped_def by blast
  qed
  from final show "keeps {(d, n)} w w' \<and> staging w' = staging w" by simp
  from final show "is_ok r \<Longrightarrow> \<exists>c. staging w src = Some c \<and> installed w' d n c uid gid mode" by simp
  from final show "obs w' d n = obs w d n \<or> (\<exists>c. staging w src = Some c \<and> installed w' d n c uid gid mode)"
    by simp
qed

lemma set_entry_None_keeps:
  assumes wf: "wf_fs w" and d: "nodes w d = Some dnd" "is_dir_mode (st_mode dnd)"
  shows "keeps {(d, n)} w (set_entry d n None w)" and "obs (set_entry d n None w) d n = None"
proof -
  let ?E = "(entries dnd)(n := None)"
  have w: "set_entry d n None w = w\<lparr>nodes := (nodes w)(d \<mapsto> dnd\<lparr>entries := ?E\<rparr>)\<rparr>"
    using d by (simp add: set_entry_def)
  with d(2) show "obs (set_entry d n None w) d n = None" by (simp add: obs_def dir_entry_def)
  have i: "nodes w (fresh_id w d) = None" by (rule fresh_id_unused [OF wf])
  have temp: "entries dnd (temp_name (uuid w k)) = None" if "next_uuid w \<le> k" for k
  proof -
    from wf that have "dir_entry w d (temp_name (uuid w k)) = None" by (simp add: wf_fs_def)
    with d show ?thesis by (simp add: dir_entry_def)
  qed
  show "keeps {(d, n)} w (set_entry d n None w)"
  proof (rule keeps_dir_update [OF wf d i, where ndopt = None and E = ?E])
    show "nodes (set_entry d n None w) = (nodes w)(fresh_id w d := None, d \<mapsto> dnd\<lparr>entries := ?E\<rparr>)"
      unfolding w using i by (simp add: fun_upd_idem)
    show "entries dnd m = Some j \<or> j = fresh_id w d \<and> None \<noteq> None" if "?E m = Some j" for m j
      using that by (simp split: if_splits)
    show "?E (temp_name (uuid w k)) = None" if "next_uuid (set_entry d n None w) \<le> k" for k
      using that temp by (simp add: w)
  qed (simp_all add: w)
qed

lemma unlinkat_cases:
  assumes "unlinkat d n w = (r, w')"
  shows "is_ok r \<and> (\<exists>t. w' = (set_entry d n None w)\<lparr>ticks := t\<rparr>)
    \<or> \<not> is_ok r \<and> (\<exists>t. w' = w\<lparr>ticks := t\<rparr>)"
  using assms unfolding unlinkat_def
proof (cases rule: syscallE)
  case fault
  then show ?thesis by auto
next
  case call
  have "set_entry d n None (w\<lparr>ticks := t\<rparr>) = (set_entry d n None w)\<lparr>ticks := t\<rparr>" for t
    by (simp add: set_entry_def split: option.splits)
  with call show ?thesis
    by (auto simp: os_error_def fail_io_def split: option.splits if_splits)
qed

lemma unlink_file_at_effect:
  assumes wf: "wf_fs w" and dir: "is_dir w d" and run: "unlink_file_at d n w = (r, w')"
  shows "keeps {(d, n)} w w' \<and> staging w' = staging w"
    and "is_ok r \<Longrightarrow> obs w' d n = None"
    and "obs w' d n = obs w d n \<or> obs w' d n = None"
proof -
  from dir obtain dnd where d: "nodes w d = Some dnd" "is_dir_mode (st_mode dnd)"
    by (auto simp: is_dir_def split: option.splits)
  let ?u = "set_entry d n None w"
  have u: "staging ?u = staging w" using d by (simp add: set_entry_def)
  have gone: "keeps {(d, n)} w v \<and> obs v d n = None" if "same_fs ?u v" for v
  proof -
    note k = set_entry_None_keeps [OF wf d, of n]
    from keeps_trans [OF k(1) same_fs_keeps [OF that keeps_wf [OF k(1)], of "{}"]]
    show ?thesis using k(2) obs_cong [of v ?u] that by (simp add: same_fs_def)
  qed
  have kept: "keeps {(d, n)} w (w\<lparr>ticks := t\<rparr>)" for t
    by (rule same_fs_keeps [OF same_fs_ticks wf])
  from run [unfolded unlink_file_at_def]
  have "same_fs ?u w' \<and> staging w' = staging w \<or> \<not> is_ok r \<and> (\<exists>t. w' = w\<lparr>ticks := t\<rparr>)"
  proof (cases rule: bind_ioE)
    case (err e)
    with unlinkat_cases [OF err(1)] show ?thesis by auto
  next
    case (ok x v)
    from unlinkat_cases [OF ok(1)] obtain t where "v = ?u\<lparr>ticks := t\<rparr>" by auto
    with quietD [OF quiet_plain_call(2) ok(2)] u show ?thesis by (simp add: same_fs_def)
  qed
  with gone kept show "keeps {(d, n)} w w' \<and> staging w' = staging w"
    and "is_ok r \<Longrightarrow> obs w' d n = None" and "obs w' d n = obs w d n \<or> obs w' d n = None"
    by auto
qed

section \<open>Rolling back\<close>

text \<open>
  A log of undo steps, each of which puts one key of a view back. Running it to the end restores
  every logged key, whatever the order and also when a key is logged twice, and nothing else.
\<close>

locale undo_log =
  fixes undo :: "'b \<Rightarrow> (unit, 'e) io"
    and key :: "'b \<Rightarrow> 'k"
    and view :: "world \<Rightarrow> 'k \<Rightarrow> 'v"
    and good :: "'v \<Rightarrow> 'v \<Rightarrow> bool"
    and inv :: "world \<Rightarrow> bool"
    and saved :: "('k \<Rightarrow> 'v) \<Rightarrow> 'b \<Rightarrow> world \<Rightarrow> bool"
  assumes undo_good: "inv w \<Longrightarrow> saved old b w \<Longrightarrow> undo b w = (Inr (), w') \<Longrightarrow>
      good (old (key b)) (view w' (key b))"
    and undo_inv: "inv w \<Longrightarrow> saved old b w \<Longrightarrow> undo b w = (Inr (), w') \<Longrightarrow> inv w'"
    and undo_frame: "inv w \<Longrightarrow> saved old b w \<Longrightarrow> undo b w = (Inr (), w') \<Longrightarrow> k \<noteq> key b \<Longrightarrow>
      view w' k = view w k"
    and undo_saved: "inv w \<Longrightarrow> saved old b w \<Longrightarrow> undo b w = (Inr (), w') \<Longrightarrow> saved old c w \<Longrightarrow>
      saved old c w'"
begin

lemma undo_all:
  assumes "inv w" and "\<forall>b\<in>set bs. saved old b w" and "for_io bs undo w = (Inr (), w')"
  shows "inv w' \<and> (\<forall>b\<in>set bs. good (old (key b)) (view w' (key b)))
    \<and> (\<forall>k. k \<notin> key ` set bs \<longrightarrow> view w' k = view w k)"
  using assms
proof (induction bs arbitrary: w)
  case Nil
  then show ?case by (simp add: return_io_def)
next
  case (Cons b bs)
  from Cons.prems(3) have "bind_io (undo b) (\<lambda>_. for_io bs undo) w = (Inr (), w')" by simp
  then show ?case
  proof (cases rule: bind_ioE)
    case (ok u v)
    have u: "undo b w = (Inr (), v)" using ok(1) by simp
    have sb: "saved old b w" using Cons.prems(2) by simp
    have IH: "inv w' \<and> (\<forall>b\<in>set bs. good (old (key b)) (view w' (key b)))
      \<and> (\<forall>k. k \<notin> key ` set bs \<longrightarrow> view w' k = view v k)"
      by (rule Cons.IH [OF undo_inv [OF Cons.prems(1) sb u] _ ok(2)])
        (use Cons.prems(2) undo_saved [OF Cons.prems(1) sb u] in auto)
    have "good (old (key b)) (view w' (key b))"
    proof (cases "key b \<in> key ` set bs")
      case True
      then show ?thesis using IH by auto
    next
      case False
      then show ?thesis using IH undo_good [OF Cons.prems(1) sb u] by simp
    qed
    moreover have "view w' k = view w k" if "k \<notin> key ` set (b # bs)" for k
      using that IH undo_frame [OF Cons.prems(1) sb u, of k] by auto
    ultimately show ?thesis using IH by simp
  qed simp
qed

end

text \<open>
  What a file is restored to: the same bytes, owner and permission bits, in a new inode. Set-id
  and sticky bits are not among the bits a backup records.
\<close>

definition same_file :: "(file_identity \<times> node) option \<Rightarrow> (file_identity \<times> node) option \<Rightarrow> bool" where
  "same_file a b = (a = b \<or> (\<exists>i nd j. a = Some (i, nd) \<and> is_regular_mode (st_mode nd)
     \<and> b = Some (j, nd\<lparr>st_mode := S_IFREG OR (st_mode nd AND 0x1FF)\<rparr>)))"

definition slot_view :: "world \<Rightarrow> file_identity \<times> string \<Rightarrow> (file_identity \<times> node) option" where
  "slot_view w s = (if snd s \<in> temp_names w then None else obs w (fst s) (snd s))"

definition backup_slot :: "backup \<times> file_identity \<Rightarrow> file_identity \<times> string" where
  "backup_slot bp = (snd bp, last (split_on (CHR ''/'') (bk_path (fst bp))))"

definition backup_of ::
  "(file_identity \<times> node) option \<Rightarrow> (string \<Rightarrow> bytes option) \<Rightarrow> backup \<Rightarrow> bool" where
  "backup_of old stg b =
     (case old of
        None \<Rightarrow> bk_staged b = None \<and> bk_original b = None
      | Some (i, nd) \<Rightarrow> is_regular_mode (st_mode nd) \<and> entries nd = Map.empty
          \<and> bk_original b = Some i \<and> bk_uid b = st_uid nd \<and> bk_gid b = st_gid nd
          \<and> bk_mode b = st_mode nd AND 0x1FF
          \<and> (\<exists>p. bk_staged b = Some p \<and> stg p = Some (content nd)))"

definition backup_saved ::
  "(file_identity \<times> string \<Rightarrow> (file_identity \<times> node) option) \<Rightarrow> backup \<times> file_identity \<Rightarrow> world \<Rightarrow> bool" where
  "backup_saved old bp w = (is_dir w (snd bp) \<and> snd (backup_slot bp) \<notin> temp_names w
     \<and> backup_of (old (backup_slot bp)) (staging w) (fst bp))"

lemma bk_mode_mask: "(m AND 0x1FF) AND 0xFFF = (m AND 0x1FF :: u32)"
  by (simp add: and.assoc)

lemma restore_one_effect:
  assumes wf: "wf_fs w" and dir: "is_dir w d" and n: "n \<notin> temp_names w"
    and n_def: "n = last (split_on (CHR ''/'') (bk_path b))"
    and bk: "backup_of old (staging w) b"
    and run: "restore_one (b, d) w = (Inr (), w')"
  shows "keeps {(d, n)} w w' \<and> staging w' = staging w \<and> same_file old (obs w' d n)"
proof -
  from run obtain m v where insp: "inspect_target d n w = (Inr m, v)"
    and rest: "(case bk_staged b of
        Some staged \<Rightarrow> if (case m of Some m \<Rightarrow> \<not> is_regular_mode (tm_mode m) | None \<Rightarrow> False)
          then fail_io (OtherError ''rollback target is not a regular file'')
          else atomic_copy_at staged d n (bk_uid b) (bk_gid b) (bk_mode b)
      | None \<Rightarrow> (case m of
           Some m \<Rightarrow> if is_regular_mode (tm_mode m) then unlink_file_at d n
             else fail_io (OtherError ''rollback target is not a regular file'')
         | None \<Rightarrow> return_io ())) v = (Inr (), w')"
    unfolding restore_one_def n_def [symmetric] prod.case
    by (cases "bk_staged b")
      (auto simp: cstring_new_def return_io_def fail_io_def elim!: bind_ioE split: if_splits)
  note q = quietD [OF quiet_inspect insp]
  have v: "wf_fs v" "is_dir v d" "n \<notin> temp_names v" "staging v = staging w" "keeps {(d, n)} w v"
    "obs v = obs w"
    using q same_fs_wf [OF _ wf] same_fs_keeps [OF _ wf] is_dir_cong [of v w] dir n obs_cong [of v w]
    by (auto simp: same_fs_def temp_names_def)
  have trans: "keeps {(d, n)} v w' \<Longrightarrow> keeps {(d, n)} w w'"
    using keeps_trans [OF v(5), of "{(d, n)}" w'] by simp
  show ?thesis
  proof (cases old)
    case None
    with bk have "bk_staged b = None" by (simp add: backup_of_def)
    with rest have "w' = v \<and> obs w d n = None \<or> unlink_file_at d n v = (Inr (), w')"
      using inspect_target_obs [OF insp wf]
      by (auto simp: return_io_def fail_io_def split: option.splits if_splits)
    then show ?thesis
      using unlink_file_at_effect [OF v(1,2)] trans v None by (auto simp: same_file_def)
  next
    case (Some f)
    obtain i nd where f: "f = (i, nd)" by (cases f)
    from bk Some f obtain p where b: "bk_staged b = Some p" "staging w p = Some (content nd)"
      "bk_uid b = st_uid nd" "bk_gid b = st_gid nd" "bk_mode b = st_mode nd AND 0x1FF"
      "is_regular_mode (st_mode nd)" "entries nd = Map.empty" by (auto simp: backup_of_def)
    with rest have copy: "atomic_copy_at p d n (st_uid nd) (st_gid nd) (st_mode nd AND 0x1FF) v = (Inr (), w')"
      by (auto simp: fail_io_def split: if_splits)
    note eff = atomic_copy_at_effect [OF v(1,2,3) copy]
    from eff(2) b(2) v(4) have inst: "installed w' d n (content nd) (st_uid nd) (st_gid nd) (st_mode nd AND 0x1FF)"
      by simp
    have "nd\<lparr>st_mode := m\<rparr> = \<lparr>st_mode = m, st_uid = st_uid nd, st_gid = st_gid nd, content = content nd,
        entries = Map.empty\<rparr>" for m
      using b(7) by (cases nd) simp
    with inst b(6) Some f have "same_file old (obs w' d n)"
      by (auto simp: installed_def same_file_def bk_mode_mask)
    with eff(1) trans v(4) show ?thesis by simp
  qed
qed

interpretation rollback_log: undo_log restore_one backup_slot slot_view same_file
  "\<lambda>w. wf_fs w \<and> uuid w = u" backup_saved for u
proof
  fix w w' :: world and old and b c :: "backup \<times> file_identity"
  assume wf_u: "wf_fs w \<and> uuid w = u" and s: "backup_saved old b w" and run: "restore_one b w = (Inr (), w')"
  from wf_u have wf: "wf_fs w" by simp
  obtain bk d where b: "b = (bk, d)" by (cases b)
  let ?n = "last (split_on (CHR ''/'') (bk_path bk))"
  from s b have "is_dir w d" "?n \<notin> temp_names w" "backup_of (old (d, ?n)) (staging w) bk"
    by (simp_all add: backup_saved_def backup_slot_def)
  from restore_one_effect [OF wf this(1,2) refl this(3) run [unfolded b]]
  have e: "keeps {(d, ?n)} w w'" "staging w' = staging w" "same_file (old (d, ?n)) (obs w' d ?n)"
    by simp_all
  have slot: "backup_slot b = (d, ?n)" by (simp add: b backup_slot_def)
  show "same_file (old (backup_slot b)) (slot_view w' (backup_slot b))"
    using e s by (simp add: slot slot_view_def keeps_temp_names backup_saved_def)
  show "wf_fs w' \<and> uuid w' = u" using e(1) wf_u by (simp add: keeps_def)
  show "slot_view w' k = slot_view w k" if "k \<noteq> backup_slot b" for k
    using that e(1) slot by (cases k) (auto simp: slot_view_def keeps_temp_names keeps_obs)
  show "backup_saved old c w'" if "backup_saved old c w"
    using that e by (simp add: backup_saved_def keeps_temp_names keeps_is_dir)
qed

section \<open>Taking backups\<close>

lemma append_staged_cases:
  assumes "for_io cs (append_staged p) w = (r, w')" and "staging w p = Some c"
  shows "same_fs w w' \<and> (\<exists>c'. staging w' = (staging w)(p \<mapsto> c') \<and> (is_ok r \<longrightarrow> c' = c @ concat cs))"
  using assms
proof (induction cs arbitrary: w c)
  case Nil
  then show ?case by (auto simp: return_io_def fun_upd_idem intro!: exI [of _ c])
next
  case (Cons b cs)
  have one: "same_fs w v \<and> staging v = (staging w)(p \<mapsto> (if is_ok r1 then c @ b else c))"
    if "append_staged p b w = (r1, v)" for r1 v
    using that Cons.prems(2) unfolding append_staged_def
    by (auto elim!: syscallE simp: same_fs_def fun_upd_idem)
  from Cons.prems(1) have "bind_io (append_staged p b) (\<lambda>_. for_io cs (append_staged p)) w = (r, w')" by simp
  then show ?case
  proof (cases rule: bind_ioE)
    case (err e)
    with one [OF err(1)] show ?thesis by auto
  next
    case (ok x v)
    from one [OF ok(1)] have v: "same_fs w v" "staging v = (staging w)(p \<mapsto> c @ b)" by simp_all
    from Cons.IH [OF ok(2), of "c @ b"] v obtain c' where "same_fs v w'"
      "staging w' = (staging v)(p \<mapsto> c')" "is_ok r \<longrightarrow> c' = (c @ b) @ concat cs" by fastforce
    with v have "same_fs w w'" "staging w' = (staging w)(p \<mapsto> c')" "is_ok r \<longrightarrow> c' = c @ concat (b # cs)"
      by (simp_all add: same_fs_def)
    then show ?thesis by blast
  qed
qed

text \<open>Staged files are only added.\<close>

definition adds_staged :: "world \<Rightarrow> world \<Rightarrow> bool" where
  "adds_staged w w' = (same_fs w w' \<and> (\<forall>p. staging w p \<noteq> None \<longrightarrow> staging w' p = staging w p))"

lemma adds_staged_quiet: "quiet m \<Longrightarrow> m w = (r, w') \<Longrightarrow> adds_staged w w'"
  using quietD [of m w r w'] by (simp add: adds_staged_def)

lemma adds_staged_trans: "adds_staged u v \<Longrightarrow> adds_staged v w \<Longrightarrow> adds_staged u w"
  by (auto simp: adds_staged_def intro: same_fs_trans)

lemma adds_staged_refl [simp]: "adds_staged w w"
  by (simp add: adds_staged_def)

lemma create_new_cases:
  assumes "create_new p w = (r, w')"
  shows "(is_ok r \<and> staging w p = None \<and> (\<exists>t. w' = w\<lparr>staging := (staging w)(p \<mapsto> []), ticks := t\<rparr>))
    \<or> (\<not> is_ok r \<and> (\<exists>t. w' = w\<lparr>ticks := t\<rparr>))"
  using assms unfolding create_new_def
proof (cases rule: syscallE)
  case fault
  then show ?thesis by auto
next
  case call
  then show ?thesis
    by (cases "staging w p")
      (auto simp: os_error_def fail_io_def intro!: exI [of _ "Suc (ticks w)"])
qed

lemma read_fd_Inr: "read_fd i w = (Inr c, w') \<Longrightarrow> \<exists>nd. nodes w i = Some nd \<and> c = content nd"
  unfolding read_fd_def fstat_def
  by (auto elim!: bind_ioE syscallE simp: return_io_def os_error_def fail_io_def split: option.splits)

lemma copy_and_hash_effect:
  assumes "copy_open_file_and_hash sha256 i p w = (r, w')"
  shows "adds_staged w w'"
    and "r = Inr h \<Longrightarrow> \<exists>nd. nodes w i = Some nd \<and> staging w' p = Some (content nd) \<and> h = sha256 (content nd)"
proof -
  from assms have "adds_staged w w' \<and> (r = Inr h \<longrightarrow>
    (\<exists>nd. nodes w i = Some nd \<and> staging w' p = Some (content nd) \<and> h = sha256 (content nd)))" for h
    unfolding copy_open_file_and_hash_def
  proof (cases rule: bind_ioE)
    case (err e)
    with create_new_cases [OF err(1)] show ?thesis by (auto simp: adds_staged_def)
  next
    case (ok x v)
    from create_new_cases [OF ok(1)] have
      v: "staging w p = None" "same_fs w v" "staging v = (staging w)(p \<mapsto> [])"
      by (auto simp: same_fs_def)
    from ok(2) show ?thesis
    proof (cases rule: bind_ioE)
      case (err e)
      with v quietD [OF quiet_read_fd err(1)] show ?thesis by (auto simp: adds_staged_def intro: same_fs_trans)
    next
      case (ok c u)
      from quietD [OF quiet_read_fd ok(1)] v have
        u: "same_fs w u" "staging u = (staging w)(p \<mapsto> [])" by (auto intro: same_fs_trans)
      from read_fd_Inr [OF ok(1)] v obtain nd where nd: "nodes w i = Some nd" "c = content nd"
        by (auto simp: same_fs_def)
      have *: "adds_staged w w2" if "same_fs u w2" "staging w2 = (staging u)(p \<mapsto> c')" for w2 c'
        using that u v by (auto simp: adds_staged_def intro: same_fs_trans)
      from ok(2) show ?thesis
      proof (cases rule: bind_ioE)
        case (err e)
        from append_staged_cases [OF err(1), of "[]"] u * err(2) show ?thesis by auto
      next
        case (ok y u2)
        from append_staged_cases [OF ok(1), of "[]"] u have
          u2: "same_fs u u2" "staging u2 = (staging u)(p \<mapsto> c)" by auto
        have "same_fs u2 w' \<and> staging w' = staging u2 \<and> (r = Inr h \<longrightarrow> h = sha256 c)"
          using ok(2)
        proof (cases rule: bind_ioE)
          case (ok z u3)
          then show ?thesis using quietD [OF quiet_plain_call(2) ok(1)] by (auto simp: return_io_def)
        qed (use quietD [OF quiet_plain_call(2)] in auto)
        with u2 * [of w' c] nd show ?thesis by (auto intro: same_fs_trans)
      qed
    qed
  qed
  then show "adds_staged w w'"
    and "r = Inr h \<Longrightarrow> \<exists>nd. nodes w i = Some nd \<and> staging w' p = Some (content nd) \<and> h = sha256 (content nd)"
    by blast+
qed

lemma open_regular_at_Inr:
  assumes "open_regular_at d n m w = (Inr i, w')"
  shows "i = tm_identity m"
proof -
  have fd: "fd_identity j v = (Inr k, v') \<Longrightarrow> k = j" for j k v v'
    unfolding fd_identity_def fstat_def
    by (auto elim!: bind_ioE syscallE simp: return_io_def os_error_def fail_io_def split: option.splits)
  show ?thesis
    using assms unfolding open_regular_at_def
    by (auto elim!: bind_ioE simp: fail_io_def return_io_def split: if_splits dest!: fd)
qed

text \<open>The part of \<open>backup_one\<close> that copies the target, given what was found there.\<close>

lemma backup_copy_effect:
  assumes run: "(case (backup_path, metadata) of
         (Some path, Some m) \<Rightarrow>
           bind_io (map_err_io g1 (open_regular_at parent name m)) (\<lambda>source.
           bind_io (map_err_io g2 (copy_open_file_and_hash sha256 source path)) (\<lambda>hash. return_io (Some hash)))
       | _ \<Rightarrow> return_io None) w = (r, w')"
  shows "adds_staged w w'"
    and "r = Inr h \<Longrightarrow> backup_path = Some p \<Longrightarrow> metadata = Some m \<Longrightarrow>
      \<exists>nd. nodes w (tm_identity m) = Some nd \<and> staging w' p = Some (content nd) \<and> h = Some (sha256 (content nd))"
proof -
  have "adds_staged w w' \<and> (r = Inr h \<longrightarrow> (\<forall>p m. backup_path = Some p \<longrightarrow> metadata = Some m \<longrightarrow>
      (\<exists>nd. nodes w (tm_identity m) = Some nd \<and> staging w' p = Some (content nd)
        \<and> h = Some (sha256 (content nd)))))"
  proof (cases "\<exists>p m. backup_path = Some p \<and> metadata = Some m")
    case True
    then obtain p m where pm: "backup_path = Some p" "metadata = Some m" by blast
    from run have "bind_io (map_err_io g1 (open_regular_at parent name m)) (\<lambda>source.
      bind_io (map_err_io g2 (copy_open_file_and_hash sha256 source p)) (\<lambda>hash. return_io (Some hash))) w = (r, w')"
      by (simp add: pm)
    then show ?thesis
    proof (cases rule: bind_ioE)
      case (err e)
      with adds_staged_quiet [OF quiet_map_err [OF quiet_open_regular] err(1)] show ?thesis by simp
    next
      case (ok i v)
      note q = quietD [OF quiet_map_err [OF quiet_open_regular] ok(1)]
      have i: "i = tm_identity m" by (rule open_regular_at_Inr [OF map_err_io_Inr [OF ok(1)]])
      from ok(2) show ?thesis
      proof (cases rule: bind_ioE)
        case (err e)
        then obtain r2 where "copy_open_file_and_hash sha256 i p v = (r2, w')" by (auto elim!: map_err_ioE)
        from copy_and_hash_effect(1) [OF this] q err(2) show ?thesis
          by (auto simp: adds_staged_def intro: same_fs_trans)
      next
        case (ok hh u)
        from copy_and_hash_effect [OF map_err_io_Inr [OF ok(1)]] q ok(2) i pm show ?thesis
          by (auto simp: adds_staged_def return_io_def same_fs_def)
      qed
    qed
  next
    case False
    with run have "w' = w \<and> r = Inr None" by (auto simp: return_io_def split: option.splits)
    with False show ?thesis by auto
  qed
  then show "adds_staged w w'"
    and "r = Inr h \<Longrightarrow> backup_path = Some p \<Longrightarrow> metadata = Some m \<Longrightarrow>
      \<exists>nd. nodes w (tm_identity m) = Some nd \<and> staging w' p = Some (content nd) \<and> h = Some (sha256 (content nd))"
    by blast+
qed

lemma backup_one_effect:
  assumes wf: "wf_fs w"
    and run: "backup_one sha256 root backups_root uid gid (index, change) w = (r, w')"
  shows "adds_staged w w'"
    and "r = Inr b \<Longrightarrow> bk_path b = pc_path change \<and> (\<exists>d n. slot_of w root (pc_path change) = Some (d, n)
        \<and> backup_of (obs w d n) (staging w') b)
        \<and> (pc_kind change = PDelete \<longrightarrow> bk_sha256 b \<noteq> None)"
proof -
  let ?post = "\<lambda>r w'. adds_staged w w' \<and> (\<forall>b. r = Inr b \<longrightarrow> bk_path b = pc_path change
    \<and> (\<exists>d n. slot_of w root (pc_path change) = Some (d, n) \<and> backup_of (obs w d n) (staging w') b)
    \<and> (pc_kind change = PDelete \<longrightarrow> bk_sha256 b \<noteq> None))"
  have "?post r w'"
    using run unfolding backup_one_def prod.case
  proof (cases rule: bind_ioE)
    case (err e)
    with adds_staged_quiet [OF quiet_map_err [OF quiet_walk] err(1)] show ?thesis by simp
  next
    case (ok dn v)
    obtain d n where dn: "dn = (d, n)" by (cases dn)
    have slot: "slot_of w root (pc_path change) = Some (d, n)"
      using map_err_io_Inr [OF ok(1)] dn by (simp add: open_workspace_parent_slot)
    note q1 = quietD [OF quiet_map_err [OF quiet_walk] ok(1)]
    have wfv: "wf_fs v" "obs v = obs w" "nodes v = nodes w"
      using q1 same_fs_wf [OF _ wf] obs_cong [of v w] by (auto simp: same_fs_def)
    from ok(2) [unfolded dn prod.case] show ?thesis
    proof (cases rule: bind_ioE)
      case (err e)
      with q1 adds_staged_quiet [OF quiet_map_err [OF quiet_inspect] err(1)] show ?thesis
        by (auto simp: adds_staged_def intro: same_fs_trans)
    next
      case (ok m u)
      note insp = map_err_io_Inr [OF ok(1)]
      note q2 = quietD [OF quiet_inspect insp] and io = inspect_target_obs [OF insp wfv(1)]
      let ?path = "map_option (\<lambda>_. path_join backups_root (''backup-'' @ show_nat index)) m"
      have early: "?post (Inl e) u" for e
        using q1 q2 by (auto simp: adds_staged_def intro: same_fs_trans)
      show ?thesis
      proof (cases "(case m of Some m \<Rightarrow> is_regular_mode (tm_mode m) \<and> tm_mode m AND 0x49 = 0 | None \<Rightarrow> True)
          \<and> \<not> (pc_kind change = PDelete \<and> m = None)")
        case False
        with ok(2) have "\<exists>e. r = Inl e \<and> w' = u"
          by (auto simp: ensure_io_def bind_io_def return_io_def fail_io_def split: option.splits if_splits)
        with early show ?thesis by auto
      next
        case True
        with ok(2) obtain g1 g2 where run2: "bind_io (case (?path, m) of
             (Some path, Some m) \<Rightarrow>
               bind_io (map_err_io g1 (open_regular_at d n m)) (\<lambda>source.
               bind_io (map_err_io g2 (copy_open_file_and_hash sha256 source path)) (\<lambda>hash. return_io (Some hash)))
           | _ \<Rightarrow> return_io None) (\<lambda>hash.
         return_io \<lparr>bk_path = pc_path change, bk_staged = ?path, bk_original = map_option tm_identity m,
           bk_uid = (case m of Some m \<Rightarrow> tm_uid m | None \<Rightarrow> uid),
           bk_gid = (case m of Some m \<Rightarrow> tm_gid m | None \<Rightarrow> gid),
           bk_mode = (case m of Some m \<Rightarrow> tm_mode m AND 0x1FF | None \<Rightarrow> 0x1A4), bk_sha256 = hash\<rparr>) u = (r, w')"
          by (auto simp: ensure_io_def bind_io_def [of "return_io ()"] return_io_def [of "()"] Let_def
              split: option.splits)
        from run2 show ?thesis
        proof (cases rule: bind_ioE)
          case (err e)
          with backup_copy_effect(1) [OF err(1)] q1 q2 show ?thesis
            by (auto simp: adds_staged_def intro: same_fs_trans)
        next
          case (ok h x)
          note c = backup_copy_effect [OF ok(1)]
          have staged: "adds_staged w x" using c(1) q1 q2 by (auto simp: adds_staged_def intro: same_fs_trans)
          from ok(2) have w': "w' = x" by (simp add: return_io_def)
          show ?thesis
          proof (cases m)
            case None
            with io wfv True ok(2) staged slot show ?thesis
              by (auto simp: return_io_def backup_of_def)
          next
            case (Some t)
            from io Some wfv obtain nd where o: "obs w d n = Some (tm_identity t, nd)" "st_mode nd = tm_mode t"
              "st_uid nd = tm_uid t" "st_gid nd = tm_gid t" by auto
            then obtain nd' where nd': "nodes w (tm_identity t) = Some nd'" "content nd' = content nd"
              "entries nd = Map.empty" by (auto simp: obs_def bind_eq_Some_conv)
            from c(2) [OF refl _ Some] Some q2 wfv nd'
            have "staging x (path_join backups_root (''backup-'' @ show_nat index)) = Some (content nd)
              \<and> h \<noteq> None" by (auto simp: same_fs_def)
            with True Some o nd' ok(2) staged slot w' show ?thesis
              by (auto simp: return_io_def backup_of_def)
          qed
        qed
      qed
    qed
  qed
  then show "adds_staged w w'"
    and "r = Inr b \<Longrightarrow> bk_path b = pc_path change \<and> (\<exists>d n. slot_of w root (pc_path change) = Some (d, n)
        \<and> backup_of (obs w d n) (staging w') b)
        \<and> (pc_kind change = PDelete \<longrightarrow> bk_sha256 b \<noteq> None)" by blast+
qed

text \<open>A backup records what the change's slot held.\<close>

definition logged ::
  "world \<Rightarrow> file_identity \<Rightarrow> (string \<Rightarrow> bytes option) \<Rightarrow> prepared_change \<Rightarrow> backup \<Rightarrow> bool" where
  "logged w root stg change b = (bk_path b = pc_path change
     \<and> (\<exists>d n. slot_of w root (pc_path change) = Some (d, n) \<and> backup_of (obs w d n) stg b)
     \<and> (pc_kind change = PDelete \<longrightarrow> bk_sha256 b \<noteq> None))"

lemma backup_of_mono:
  "backup_of old stg b \<Longrightarrow> (\<And>p. stg p \<noteq> None \<Longrightarrow> stg' p = stg p) \<Longrightarrow> backup_of old stg' b"
  by (fastforce simp: backup_of_def split: option.splits)

lemma logged_mono:
  "logged w root stg c b \<Longrightarrow> (\<And>p. stg p \<noteq> None \<Longrightarrow> stg' p = stg p) \<Longrightarrow> logged w root stg' c b"
  unfolding logged_def using backup_of_mono by blast

lemma slot_of_cong: "nodes w' = nodes w \<Longrightarrow> slot_of w' root p = slot_of w root p"
  using resolve_cong [of w' w] by (simp add: slot_of_def)

lemma backups_effect:
  assumes wf: "wf_fs w"
    and run: "fold_io (\<lambda>backups item. bind_io (backup_one sha256 root broot uid gid item)
      (\<lambda>b. return_io (backups @ [b]))) acc items w = (r, w')"
  shows "adds_staged w w'" and "r = Inr bs \<Longrightarrow>
    \<exists>new. bs = acc @ new \<and> list_all2 (\<lambda>item b. logged w root (staging w') (snd item) b) items new"
proof -
  from wf run have "adds_staged w w' \<and> (\<forall>bs. r = Inr bs \<longrightarrow> (\<exists>new. bs = acc @ new
    \<and> list_all2 (\<lambda>item b. logged w root (staging w') (snd item) b) items new))"
  proof (induction items arbitrary: acc w)
    case Nil
    then show ?case by (auto simp: return_io_def)
  next
    case (Cons item items)
    let ?f = "\<lambda>backups item. bind_io (backup_one sha256 root broot uid gid item)
      (\<lambda>b. return_io (backups @ [b]))"
    obtain index change where item: "item = (index, change)" by (cases item)
    from Cons.prems(2) have "bind_io (?f acc item) (\<lambda>s. fold_io ?f s items) w = (r, w')" by simp
    then show ?case
    proof (cases rule: bind_ioE)
      case (err e)
      from err(1) have "adds_staged w w'"
        using backup_one_effect(1) [OF Cons.prems(1)] item
        by (auto elim!: bind_ioE simp: return_io_def)
      with err(2) show ?thesis by simp
    next
      case (ok acc' v)
      from ok(1) obtain b where b: "backup_one sha256 root broot uid gid item w = (Inr b, v)" "acc' = acc @ [b]"
        by (auto elim!: bind_ioE simp: return_io_def)
      note one = backup_one_effect [OF Cons.prems(1) b(1) [unfolded item]]
      have same: "same_fs w v" using one(1) by (simp add: adds_staged_def)
      note IH = Cons.IH [OF same_fs_wf [OF same Cons.prems(1)] ok(2)]
      have cong: "logged v root stg c x = logged w root stg c x" for stg c x
        using same slot_of_cong [of v w] obs_cong [of v w] by (simp add: logged_def same_fs_def)
      have "logged w root (staging w') change b"
        using one(2) [OF refl] IH logged_mono [of w root "staging v" change b "staging w'"]
        by (auto simp: adds_staged_def logged_def)
      with IH b(2) item one(1) show ?thesis
        by (auto simp: cong intro: adds_staged_trans)
    qed
  qed
  then show "adds_staged w w'" and "r = Inr bs \<Longrightarrow>
    \<exists>new. bs = acc @ new \<and> list_all2 (\<lambda>item b. logged w root (staging w') (snd item) b) items new"
    by blast+
qed

section \<open>Mutating\<close>

definition nondir :: "(file_identity \<times> node) option \<Rightarrow> bool" where
  "nondir x = (case x of Some (_, nd) \<Rightarrow> \<not> is_dir_mode (st_mode nd) | None \<Rightarrow> True)"

text \<open>Only the slots in \<open>T\<close> changed, and none of them was or is a directory.\<close>

definition tame :: "(file_identity \<times> string) set \<Rightarrow> world \<Rightarrow> world \<Rightarrow> bool" where
  "tame T w w' = (keeps T w w' \<and> (\<forall>d n. (d, n) \<in> T \<longrightarrow> n \<notin> temp_names w
     \<and> nondir (obs w d n) \<and> nondir (obs w' d n)))"

definition no_temp :: "world \<Rightarrow> string \<Rightarrow> bool" where
  "no_temp w path = (\<forall>part\<in>set (split_on (CHR ''/'') path). part \<notin> temp_names w)"

lemma tame_refl: "wf_fs w \<Longrightarrow> tame {} w w"
  by (simp add: tame_def keeps_refl)

lemma tame_same_fs: "tame T w0 w \<Longrightarrow> same_fs w v \<Longrightarrow> tame T w0 v"
  using keeps_trans [of T w0 w "{}" v] same_fs_keeps [of w v "{}"] keeps_wf [of T w0 w] obs_cong [of v w]
  by (auto simp: tame_def same_fs_def)

lemma tame_step:
  assumes "tame T w0 w" and "keeps {(d, n)} w w'" and "n \<notin> temp_names w0"
    and "nondir (obs w d n)" and "nondir (obs w' d n)"
  shows "tame (insert (d, n) T) w0 w'"
proof -
  have "keeps (insert (d, n) T) w0 w'"
    using keeps_trans [of T w0 w "{(d, n)}" w'] assms(1,2) by (simp add: tame_def)
  moreover have "nondir (obs w0 d n)"
    using assms(1,3,4) keeps_obs [of T w0 w n d] by (cases "(d, n) \<in> T") (auto simp: tame_def)
  moreover have "nondir (obs w' e m)" if "(e, m) \<in> T" for e m
  proof (cases "(e, m) = (d, n)")
    case False
    with that assms(1,2) have "obs w' e m = obs w e m"
      using keeps_temp_names [of T w0 w] by (intro keeps_obs [of "{(d, n)}"]) (auto simp: tame_def)
    with that assms(1) show ?thesis by (simp add: tame_def)
  qed (use assms(5) in simp)
  ultimately show ?thesis using assms(1,3,5) by (auto simp: tame_def)
qed

lemma resolve_tame:
  assumes "tame T w w'" and "\<forall>c\<in>set cs. c \<notin> temp_names w"
  shows "resolve w' d cs = resolve w d cs"
  using assms(2)
proof (induction cs arbitrary: d)
  case (Cons c cs)
  show ?case
  proof (cases "(d, c) \<in> T")
    case True
    with assms(1) have "nondir (obs w d c)" "nondir (obs w' d c)" by (auto simp: tame_def)
    then show ?thesis by (auto simp: nondir_def split: option.splits)
  next
    case False
    with assms(1) Cons.prems have "obs w' d c = obs w d c"
      by (auto simp: tame_def intro: keeps_obs)
    with Cons show ?thesis by (auto split: option.splits)
  qed
qed simp

lemma slot_of_tame:
  assumes "tame T w w'" and "no_temp w path"
  shows "slot_of w' root path = slot_of w root path"
proof -
  have "\<forall>c\<in>set (butlast (split_on (CHR ''/'') path)). c \<notin> temp_names w"
    using assms(2) by (auto simp: no_temp_def dest: in_set_butlastD)
  from resolve_tame [OF assms(1) this] show ?thesis by (simp add: slot_of_def Let_def)
qed

text \<open>The files of the workspace, without their inode numbers, and what an update makes of them.\<close>

definition file_view :: "world \<Rightarrow> file_identity \<times> string \<Rightarrow> node option" where
  "file_view w s = map_option snd (obs w (fst s) (snd s))"

definition new_file :: "(string \<Rightarrow> bytes option) \<Rightarrow> u32 \<Rightarrow> u32 \<Rightarrow> prepared_change \<Rightarrow> node option" where
  "new_file stg uid gid change =
     (case pc_kind change of
        PFile staged _ \<Rightarrow> map_option (\<lambda>c. \<lparr>st_mode = S_IFREG OR 0x1A4, st_uid = uid, st_gid = gid,
          content = c, entries = Map.empty\<rparr>) (stg staged)
      | PDelete \<Rightarrow> None)"

fun spec_apply ::
  "(prepared_change \<Rightarrow> (file_identity \<times> string) option) \<Rightarrow> (prepared_change \<Rightarrow> node option)
   \<Rightarrow> prepared_change list \<Rightarrow> (file_identity \<times> string \<Rightarrow> node option)
   \<Rightarrow> (file_identity \<times> string \<Rightarrow> node option)" where
  "spec_apply slot new [] f = f"
| "spec_apply slot new (c # cs) f =
     spec_apply slot new cs (case slot c of Some s \<Rightarrow> f(s := new c) | None \<Rightarrow> f)"

lemma perform_change_effect:
  assumes wf: "wf_fs w" and dir: "is_dir w d" and n: "n \<notin> temp_names w" and nd: "nondir (obs w d n)"
    and run: "perform_change uid gid change d n w = (r, w')"
  shows "keeps {(d, n)} w w' \<and> staging w' = staging w \<and> nondir (obs w' d n)"
    and "is_ok r \<Longrightarrow> file_view w' (d, n) = new_file (staging w) uid gid change"
proof -
  have inst: "nondir (obs w' d n) \<and> file_view w' (d, n) = Some \<lparr>st_mode = S_IFREG OR 0x1A4, st_uid = uid,
      st_gid = gid, content = c, entries = Map.empty\<rparr>" if "installed w' d n c uid gid 0x1A4" for c
    using that regular_mode(2) [of "0x1A4"] by (auto simp: installed_def nondir_def file_view_def)
  have "keeps {(d, n)} w w' \<and> staging w' = staging w \<and> nondir (obs w' d n)
    \<and> (is_ok r \<longrightarrow> file_view w' (d, n) = new_file (staging w) uid gid change)"
  proof (cases "pc_kind change")
    case (PFile staged sha)
    with run obtain r' where r': "atomic_copy_at staged d n uid gid 0x1A4 w = (r', w')" "is_ok r' = is_ok r"
      by (auto simp: perform_change_def map_err_io_def is_ok_def map_err_def split: prod.splits sum.splits)
    show ?thesis
      using atomic_copy_at_effect [OF wf dir n r'(1)] r'(2) inst nd PFile by (auto simp: new_file_def)
  next
    case PDelete
    with run obtain r' where r': "unlink_file_at d n w = (r', w')" "is_ok r' = is_ok r"
      by (auto simp: perform_change_def map_err_io_def is_ok_def map_err_def split: prod.splits sum.splits)
    show ?thesis
      using unlink_file_at_effect [OF wf dir r'(1)] r'(2) nd PDelete
      by (auto simp: new_file_def file_view_def nondir_def)
  qed
  then show "keeps {(d, n)} w w' \<and> staging w' = staging w \<and> nondir (obs w' d n)"
    and "is_ok r \<Longrightarrow> file_view w' (d, n) = new_file (staging w) uid gid change" by simp_all
qed

lemma validate_target_nondir:
  assumes "validate_target_at d n b w = (Inr u, w')" and "wf_fs w"
  shows "nondir (obs w d n)"
proof -
  from assms(1) obtain m v where insp: "inspect_target d n w = (Inr m, v)"
    and m: "case (bk_original b, m) of (Some expected, Some t) \<Rightarrow>
        tm_identity t = expected \<and> is_regular_mode (tm_mode t) | (None, None) \<Rightarrow> True | _ \<Rightarrow> False"
    unfolding validate_target_at_def
    by (auto elim!: bind_ioE dest!: map_err_io_Inr simp: ensure_io_def fail_io_def split: if_splits)
  show ?thesis
  proof (cases m)
    case None
    with inspect_target_obs [OF insp assms(2)] show ?thesis by (simp add: nondir_def)
  next
    case (Some t)
    with m have "is_regular_mode (tm_mode t)" by (auto split: option.splits)
    with inspect_target_obs [OF insp assms(2)] Some show ?thesis
      using regular_not_dir by (auto simp: nondir_def)
  qed
qed

definition touched :: "prepared_change list \<Rightarrow> file_identity list \<Rightarrow> (file_identity \<times> string) set" where
  "touched cs ps = set (map2 (\<lambda>c p. (p, last (split_on (CHR ''/'') (pc_path c)))) cs ps)"

lemma touched_simps [simp]:
  "touched [] ps = {}" "touched cs [] = {}"
  "touched (c # cs) (p # ps) = insert (p, last (split_on (CHR ''/'') (pc_path c))) (touched cs ps)"
  by (simp_all add: touched_def)

lemma slot_name: "slot_of w root path = Some (d, n) \<Longrightarrow> n = last (split_on (CHR ''/'') path)"
  by (auto simp: slot_of_def Let_def)

lemma slot_no_temp: "slot_of w root path = Some (d, n) \<Longrightarrow> no_temp w path \<Longrightarrow> n \<notin> temp_names w"
  by (auto dest!: slot_name simp: no_temp_def)

text \<open>
  One iteration of the mutation loop: it stops before touching anything, or it touches its
  change's slot.
\<close>

lemma mutate_step:
  assumes w0: "wf_fs w0" "is_dir w0 root" and T: "tame T w0 w" and c: "no_temp w0 (pc_path change)"
    and run: "mutate_loop root uid gid (\<lambda>_ w. w) bs ((k, change) # items) ps w = (r, ps', w')"
  obtains (stopped) "\<not> is_ok r" "ps' = ps" "same_fs w w'" "staging w' = staging w"
    | (failed) d n where "slot_of w0 root (pc_path change) = Some (d, n)" "\<not> is_ok r" "ps' = ps @ [d]"
        "tame (insert (d, n) T) w0 w'" "staging w' = staging w"
    | (step) d n v where "slot_of w0 root (pc_path change) = Some (d, n)"
        "tame (insert (d, n) T) w0 v" "staging v = staging w"
        "file_view v (d, n) = new_file (staging w) uid gid change"
        "\<And>s. snd s \<notin> temp_names w0 \<Longrightarrow> s \<noteq> (d, n) \<Longrightarrow> file_view v s = file_view w s"
        "mutate_loop root uid gid (\<lambda>_ w. w) bs items (ps @ [d]) v = (r, ps', w')"
proof -
  obtain b w1 where w1: "is_cancelled w = (b, w1)" by fastforce
  note q1 = quiet_cancelled [OF w1]
  show ?thesis
  proof (cases b)
    case True
    with run w1 q1 show ?thesis by (intro stopped) auto
  next
    case False
    obtain r2 w2 where w2: "map_err_io (bad_io ''invalid update ancestor: '')
        (open_workspace_parent root (pc_path change)) w1 = (r2, w2)" by fastforce
    note q2 = quietD [OF quiet_map_err [OF quiet_walk] w2]
    have s2: "same_fs w w2" "staging w2 = staging w" using q1 q2 by (auto intro: same_fs_trans)
    show ?thesis
    proof (cases r2)
      case (Inl e)
      with run w1 w2 False s2 show ?thesis by (intro stopped) auto
    next
      case (Inr dn)
      obtain d n where dn: "dn = (d, n)" by (cases dn)
      have slot1: "slot_of w1 root (pc_path change) = Some (d, n)"
        using w2 Inr dn by (auto intro: open_workspace_parent_slot dest: map_err_io_Inr)
      have slot: "slot_of w0 root (pc_path change) = Some (d, n)"
        using slot1 slot_of_tame [OF tame_same_fs [OF T], of w1] q1 c by simp
      obtain r3 w3 where w3: "validate_target_at d n (bs ! k) w2 = (r3, w3)" by fastforce
      note q3 = quietD [OF quiet_validate w3]
      have s3: "same_fs w w3" "staging w3 = staging w" using s2 q3 by (auto intro: same_fs_trans)
      show ?thesis
      proof (cases r3)
        case (Inl e)
        with run w1 w2 w3 \<open>r2 = Inr dn\<close> dn False s3 show ?thesis by (intro stopped) auto
      next
        case (Inr u)
        have t3: "tame T w0 w3" by (rule tame_same_fs [OF T s3(1)])
        have t2: "tame T w0 w2" by (rule tame_same_fs [OF T s2(1)])
        have n: "n \<notin> temp_names w0" by (rule slot_no_temp [OF slot c])
        have wf3: "wf_fs w3" "is_dir w3 d" "n \<notin> temp_names w3"
          using t3 slot_of_is_dir [OF slot w0(2)] n
          by (auto simp: tame_def keeps_wf keeps_is_dir keeps_temp_names)
        have nd: "nondir (obs w3 d n)"
          using validate_target_nondir [of d n "bs ! k" w2 u w3] w3 Inr t2 q3 obs_cong [of w3 w2]
          by (auto simp: tame_def keeps_wf same_fs_def)
        obtain r4 w4 where w4: "perform_change uid gid change d n w3 = (r4, w4)" by fastforce
        note eff = perform_change_effect [OF wf3 nd w4]
        have t4: "tame (insert (d, n) T) w0 w4" by (rule tame_step [OF t3 _ n nd]) (use eff in simp_all)
        show ?thesis
        proof (cases r4)
          case (Inl e)
          with run w1 w2 w3 w4 \<open>r2 = Inr dn\<close> dn \<open>r3 = Inr u\<close> False slot t4 eff(1) s3 show ?thesis
            by (intro failed [of d n]) auto
        next
          case (Inr x)
          have fv: "file_view w4 s = file_view w s" if "snd s \<notin> temp_names w0" "s \<noteq> (d, n)" for s
            using that eff(1) keeps_obs [of "{(d, n)}" w3 w4 "snd s" "fst s"] t3 s3 obs_cong [of w3 w]
            by (cases s) (auto simp: file_view_def tame_def keeps_temp_names same_fs_def)
          from run w1 w2 w3 w4 \<open>r2 = Inr dn\<close> dn \<open>r3 = Inr u\<close> Inr False
          have "mutate_loop root uid gid (\<lambda>_ w. w) bs items (ps @ [d]) w4 = (r, ps', w')" by simp
          with slot t4 eff s3 Inr fv show ?thesis by (intro step [of d n w4]) auto
        qed
      qed
    qed
  qed
qed

lemma spec_apply_cong:
  "\<forall>s. P s \<longrightarrow> f s = g s \<Longrightarrow> P s \<Longrightarrow> spec_apply slot new cs f s = spec_apply slot new cs g s"
proof (induction cs arbitrary: f g)
  case (Cons c cs)
  let ?u = "\<lambda>f. case slot c of Some t \<Rightarrow> f(t := new c) | None \<Rightarrow> f"
  from Cons.prems(1) have "\<forall>s. P s \<longrightarrow> ?u f s = ?u g s" by (simp split: option.splits)
  from Cons.IH [OF this Cons.prems(2)] show ?case by simp
next
  case Nil
  then show ?case by (simp only: spec_apply.simps)
qed

definition parents_of :: "world \<Rightarrow> file_identity \<Rightarrow> prepared_change list \<Rightarrow> file_identity list \<Rightarrow> bool" where
  "parents_of w root = list_all2 (\<lambda>c p. slot_of w root (pc_path c)
     = Some (p, last (split_on (CHR ''/'') (pc_path c))))"

lemma mutate_loop_effect:
  assumes w0: "wf_fs w0" "is_dir w0 root" and T: "tame T w0 w"
    and cs: "\<forall>c\<in>set cs. no_temp w0 (pc_path c)"
    and run: "mutate_loop root uid gid (\<lambda>_ w. w) bs (List.enumerate k cs) ps w = (r, ps', w')"
  shows "\<exists>qs. ps' = ps @ qs \<and> length qs \<le> length cs \<and> parents_of w0 root (take (length qs) cs) qs
    \<and> tame (T \<union> touched cs qs) w0 w' \<and> staging w' = staging w
    \<and> (is_ok r \<longrightarrow> length qs = length cs \<and> (\<forall>s. snd s \<notin> temp_names w0 \<longrightarrow>
        file_view w' s = spec_apply (\<lambda>c. slot_of w0 root (pc_path c)) (new_file (staging w) uid gid) cs
          (file_view w) s))"
  using T cs run
proof (induction cs arbitrary: k ps w T)
  case Nil
  then show ?case by (simp add: parents_of_def)
next
  case (Cons c cs)
  have c: "no_temp w0 (pc_path c)" and cs: "\<forall>c\<in>set cs. no_temp w0 (pc_path c)" using Cons.prems(2) by auto
  from Cons.prems(3) have "mutate_loop root uid gid (\<lambda>_ w. w) bs ((k, c) # List.enumerate (Suc k) cs) ps w
    = (r, ps', w')" by (simp only: enumerate_simps)
  then show ?case
  proof (cases rule: mutate_step [OF w0 Cons.prems(1) c, consumes 1, case_names stopped failed step])
    case stopped
    then show ?thesis using tame_same_fs [OF Cons.prems(1)] by (intro exI [of _ "[]"]) (simp add: parents_of_def)
  next
    case (failed d n)
    then show ?thesis
      using slot_name [OF failed(1)] by (intro exI [of _ "[d]"]) (simp add: parents_of_def)
  next
    case (step d n v)
    note n = slot_name [OF step(1)]
    from Cons.IH [OF step(2) cs step(6)] obtain qs where qs: "ps' = (ps @ [d]) @ qs" "length qs \<le> length cs"
      "parents_of w0 root (take (length qs) cs) qs" "tame (insert (d, n) T \<union> touched cs qs) w0 w'"
      "staging w' = staging v"
      and ok: "is_ok r \<longrightarrow> length qs = length cs \<and> (\<forall>s. snd s \<notin> temp_names w0 \<longrightarrow>
        file_view w' s = spec_apply (\<lambda>c. slot_of w0 root (pc_path c)) (new_file (staging v) uid gid) cs
          (file_view v) s)" by blast
    have "spec_apply (\<lambda>c. slot_of w0 root (pc_path c)) (new_file (staging w) uid gid) cs (file_view v) s
      = spec_apply (\<lambda>c. slot_of w0 root (pc_path c)) (new_file (staging w) uid gid) cs
        ((file_view w)((d, n) := new_file (staging w) uid gid c)) s" if "snd s \<notin> temp_names w0" for s
      using step(4,5) that by (intro spec_apply_cong [where P = "\<lambda>s. snd s \<notin> temp_names w0"]) auto
    with qs ok step(1,3) n show ?thesis
      by (intro exI [of _ "d # qs"]) (simp add: parents_of_def)
  qed
qed

section \<open>The transaction\<close>

lemma for_io_quiet_each:
  assumes "for_io xs f w = (Inr u, w')" and "\<And>x. quiet (f x)" and "x \<in> set xs"
  shows "\<exists>v v'. staging v = staging w \<and> f x v = (Inr (), v')"
  using assms(1,3)
proof (induction xs arbitrary: w)
  case (Cons y xs)
  from Cons.prems(1) have "bind_io (f y) (\<lambda>_. for_io xs f) w = (Inr u, w')" by simp
  then show ?case
  proof (cases rule: bind_ioE)
    case (ok z v)
    show ?thesis
    proof (cases "x = y")
      case True
      with ok(1) show ?thesis by (intro exI [of _ w] exI [of _ v]) simp
    next
      case False
      with Cons.IH [OF ok(2)] Cons.prems(2) quietD [OF assms(2) ok(1)] show ?thesis by auto
    qed
  qed simp
qed simp

lemma prepare_staged_exists: "prepare_staged_file p w = (Inr u, w') \<Longrightarrow> staging w p \<noteq> None"
  unfolding prepare_staged_file_def open_staged_def
  by (auto elim!: bind_ioE syscallE simp: os_error_def fail_io_def split: option.splits)

text \<open>Every file change of the update has a staged file.\<close>

definition all_staged :: "world \<Rightarrow> prepared_change list \<Rightarrow> bool" where
  "all_staged w cs = (\<forall>c\<in>set cs. case pc_kind c of PFile staged _ \<Rightarrow> staging w staged \<noteq> None | PDelete \<Rightarrow> True)"

lemma quiet_prepare_one [quiet_intros]: "quiet (prepare_one c)"
  by (simp add: prepare_one_def quiet_intros split: prepared_kind.splits)

lemma prepared_all_staged:
  assumes "for_io cs prepare_one w = (Inr u, w')"
  shows "all_staged w cs"
  unfolding all_staged_def
proof
  fix c
  assume "c \<in> set cs"
  from for_io_quiet_each [OF assms quiet_prepare_one this] obtain v v' where
    v: "staging v = staging w" "prepare_one c v = (Inr (), v')" by blast
  then show "case pc_kind c of PFile staged _ \<Rightarrow> staging w staged \<noteq> None | PDelete \<Rightarrow> True"
    using prepare_staged_exists by (fastforce simp: prepare_one_def dest!: map_err_io_Inr split: prepared_kind.splits)
qed

lemma new_file_adds:
  "all_staged w cs \<Longrightarrow> adds_staged w v \<Longrightarrow> c \<in> set cs \<Longrightarrow>
    new_file (staging v) uid gid c = new_file (staging w) uid gid c"
  by (fastforce simp: all_staged_def adds_staged_def new_file_def split: prepared_kind.splits)

lemma spec_apply_new_cong:
  "\<forall>c\<in>set cs. new c = new' c \<Longrightarrow> spec_apply slot new cs f = spec_apply slot new' cs f"
  by (induction cs arbitrary: f) (simp_all split: option.splits)

text \<open>Apart from its last step the update cannot panic.\<close>

definition no_panic :: "('a, 'e raised) io \<Rightarrow> bool" where
  "no_panic m = (\<forall>w msg w'. m w \<noteq> (Inl (Panic msg), w'))"

lemma no_panic_map_err: "no_panic (map_err_io (\<lambda>e. Raise (g e)) m)"
  by (auto simp: no_panic_def map_err_io_def map_err_def split: prod.splits sum.splits)

lemma no_panic_fail: "no_panic (fail_io (Raise e))"
  by (simp add: no_panic_def fail_io_def)

lemma no_panicD: "no_panic m \<Longrightarrow> m w = (Inl (Panic msg), w') \<Longrightarrow> False"
  by (simp add: no_panic_def)

lemma no_panicI: "(\<And>w msg w'. m w = (Inl (Panic msg), w') \<Longrightarrow> False) \<Longrightarrow> no_panic m"
  by (auto simp: no_panic_def)

lemma no_panic_bind:
  assumes m: "no_panic m" and f: "\<And>x. no_panic (f x)"
  shows "no_panic (bind_io m f)"
proof (rule no_panicI)
  fix w msg w'
  assume "bind_io m f w = (Inl (Panic msg), w')"
  then show False
  proof (cases rule: bind_ioE)
    case (err e)
    with no_panicD [OF m] show ?thesis by auto
  next
    case (ok x v)
    from no_panicD [OF f ok(2)] show ?thesis .
  qed
qed

lemma no_panic_ensure: "no_panic (ensure_io b (Raise e))"
  by (simp add: no_panic_def ensure_io_def return_io_def fail_io_def)

lemma no_panic_for: "(\<And>x. no_panic (f x)) \<Longrightarrow> no_panic (for_io xs f)"
  by (induction xs) (simp_all add: no_panic_bind, simp add: no_panic_def return_io_def)

lemma no_panic_return: "no_panic (return_io x)"
  by (simp add: no_panic_def return_io_def)

lemmas no_panic_intros = no_panic_map_err no_panic_bind no_panic_ensure no_panic_for no_panic_return

lemma no_panic_steps:
  "no_panic (validate_target_at d n b)" "no_panic (perform_change uid gid c d n)"
  "no_panic (verify_parent_still_beneath root p d)"
  unfolding validate_target_at_def perform_change_def verify_parent_still_beneath_def
  by (auto intro!: no_panic_intros split: prepared_kind.splits prod.splits)

lemma no_panic_open_root: "no_panic (open_workspace_root ws)"
  by (simp add: open_workspace_root_def no_panic_fail no_panic_map_err)

lemma no_panic_prepare_one: "no_panic (prepare_one c)"
  by (simp add: prepare_one_def no_panic_intros split: prepared_kind.splits)

lemma mutate_loop_no_panic:
  "mutate_loop root uid gid ck bs items ps w = (r, ps', w') \<Longrightarrow> r \<noteq> Inl (Panic m)"
proof (induction items arbitrary: ps w)
  case (Cons item items)
  obtain index change where item: "item = (index, change)" by (cases item)
  obtain b w1 where w1: "is_cancelled w = (b, w1)" by fastforce
  obtain r2 w2 where w2: "map_err_io (bad_io ''invalid update ancestor: '')
      (open_workspace_parent root (pc_path change)) w1 = (r2, w2)" by fastforce
  show ?case
  proof (cases "b \<or> (\<exists>e. r2 = Inl e)")
    case True
    have "r2 \<noteq> Inl (Panic m)" using w2 by (auto dest: no_panicD [OF no_panic_map_err])
    moreover have "r = Inl (Raise update_cancelled) \<or> (\<exists>e. r2 = Inl e \<and> r = Inl e)"
      using Cons.prems True w1 w2 item by (cases b) auto
    ultimately show ?thesis by auto
  next
    case False
    then obtain d n where r2: "r2 = Inr (d, n)" and b: "\<not> b" by (cases r2) auto
    obtain r3 w3 where w3: "validate_target_at d n (bs ! index) w2 = (r3, w3)" by fastforce
    obtain r4 w4 where w4: "perform_change uid gid change d n w3 = (r4, w4)" by fastforce
    have "r3 \<noteq> Inl (Panic m)" "r4 \<noteq> Inl (Panic m)"
      using no_panicD [OF no_panic_steps(1)] no_panicD [OF no_panic_steps(2)] w3 w4 by blast+
    then show ?thesis
      using Cons.prems item w1 w2 w3 w4 r2 b Cons.IH by (cases r3; cases r4) auto
  qed
qed auto

lemma mutation_cases:
  assumes commit: "quiet commit" "no_panic (map_err_io (\<lambda>e. Raise (g e)) commit)"
    and loop: "mutate_loop root uid gid ck bs (List.enumerate 0 cs) [] w = (r1, qs, v)"
    and run: "mutation root uid gid ck commit bs cs w = (r, ps, w')"
  shows "ps = qs \<and> same_fs v w' \<and> staging w' = staging v \<and> (is_ok r \<longrightarrow> is_ok r1) \<and> r \<noteq> Inl (Panic m)"
proof (cases r1)
  case (Inl e)
  with loop run mutate_loop_no_panic [OF loop] show ?thesis by (auto simp: mutation_def)
next
  case (Inr u)
  let ?verify = "for_io (zip cs qs)
    (\<lambda>(change, parent). verify_parent_still_beneath root (pc_path change) parent)"
  have quiet: "quiet ?verify" by (intro quiet_intros) (auto split: prod.splits intro: quiet_intros)
  have panic: "no_panic ?verify"
    by (intro no_panic_for) (auto split: prod.splits intro: no_panic_steps)
  obtain r2 v2 where v2: "?verify v = (r2, v2)" by fastforce
  obtain b v3 where v3: "is_cancelled v2 = (b, v3)" by fastforce
  obtain r4 v4 where v4: "commit v3 = (r4, v4)" by fastforce
  note q = quietD [OF quiet v2] quiet_cancelled [OF v3] quietD [OF commit(1) v4]
  have "mutation root uid gid ck commit bs cs w = (case r2 of Inl err \<Rightarrow> (Inl err, qs, v2)
      | Inr _ \<Rightarrow> if b then (Inl (Raise update_cancelled), qs, v3)
         else (case r4 of
           Inl err \<Rightarrow> (Inl (Raise \<lparr>ue_kind = Internal,
                       ue_message = ''failed to commit workspace revision: '' @ show_io_error err,
                       ue_rollback_proven = False\<rparr>), qs, v4)
         | Inr _ \<Rightarrow> (Inr (), qs, v4)))"
    by (simp add: mutation_def loop Inr v2 v3 v4 split: sum.splits)
  with run have "(r, ps, w') = (case r2 of Inl err \<Rightarrow> (Inl err, qs, v2)
      | Inr _ \<Rightarrow> if b then (Inl (Raise update_cancelled), qs, v3)
         else (case r4 of
           Inl err \<Rightarrow> (Inl (Raise \<lparr>ue_kind = Internal,
                       ue_message = ''failed to commit workspace revision: '' @ show_io_error err,
                       ue_rollback_proven = False\<rparr>), qs, v4)
         | Inr _ \<Rightarrow> (Inr (), qs, v4)))" by simp
  moreover have "r2 \<noteq> Inl (Panic m)" using no_panicD [OF panic] v2 by blast
  ultimately show ?thesis using q Inr
    by (auto split: sum.splits if_splits intro: same_fs_trans)
qed

lemma mutation_effect:
  assumes w0: "wf_fs w" "is_dir w root" and cs: "\<forall>c\<in>set cs. no_temp w (pc_path c)"
    and commit: "quiet commit"
    and run: "mutation root uid gid (\<lambda>_ w. w) commit bs cs w = (r, ps, w')"
  shows "length ps \<le> length cs \<and> parents_of w root (take (length ps) cs) ps
    \<and> tame (touched cs ps) w w' \<and> staging w' = staging w
    \<and> (is_ok r \<longrightarrow> length ps = length cs \<and> (\<forall>s. snd s \<notin> temp_names w \<longrightarrow>
        file_view w' s = spec_apply (\<lambda>c. slot_of w root (pc_path c)) (new_file (staging w) uid gid) cs
          (file_view w) s))
    \<and> (\<forall>m. r \<noteq> Inl (Panic m))"
proof -
  obtain r1 qs v where loop:
    "mutate_loop root uid gid (\<lambda>_ w. w) bs (List.enumerate 0 cs) [] w = (r1, qs, v)"
    using prod_cases3 by blast
  note eff = mutate_loop_effect [OF w0 tame_refl [OF w0(1)] cs loop]
    and fin = mutation_cases [OF commit no_panic_map_err loop run]
  have "file_view w' = file_view v"
    using fin obs_cong [of w' v] by (simp add: fun_eq_iff file_view_def same_fs_def)
  moreover have "tame (touched cs qs) w w'"
    using eff fin by (auto intro: tame_same_fs)
  ultimately show ?thesis using eff fin by auto
qed

text \<open>Everything up to and including the rollback, for the production checkpoint.\<close>

definition restored :: "world \<Rightarrow> world \<Rightarrow> bool" where
  "restored w w' = (\<forall>d n. n \<notin> temp_names w \<longrightarrow> same_file (obs w d n) (obs w' d n))"

definition committed ::
  "world \<Rightarrow> string \<Rightarrow> prepared_change list \<Rightarrow> u32 \<Rightarrow> u32 \<Rightarrow> world \<Rightarrow> bool" where
  "committed w workspace cs uid gid w' = (\<exists>root. roots w workspace = Some root
     \<and> (\<forall>c\<in>set cs. slot_of w root (pc_path c) \<noteq> None)
     \<and> (\<forall>s. snd s \<notin> temp_names w \<longrightarrow> file_view w' s =
          spec_apply (\<lambda>c. slot_of w root (pc_path c)) (new_file (staging w) uid gid) cs (file_view w) s))"

lemma restored_same_fs: "same_fs w w' \<Longrightarrow> restored w w'"
  using obs_cong [of w' w] by (simp add: restored_def same_file_def same_fs_def)

lemma rollback_restores:
  assumes w: "wf_fs w" "is_dir w root" and cs: "\<forall>c\<in>set cs. no_temp w (pc_path c)"
    and bs: "list_all2 (logged w root (staging w)) cs bs"
    and ps: "length ps \<le> length cs" "parents_of w root (take (length ps) cs) ps"
    and v: "tame (touched cs ps) w v" "staging v = staging w"
    and run: "rollback (take (length ps) bs) ps v = (Inr (), w')"
  shows "restored w w'"
proof -
  let ?log = "rev (zip (take (length ps) bs) ps)"
  let ?old = "slot_view w"
  have len: "length bs = length cs" using bs by (simp add: list_all2_lengthD)
  have entry: "bk_path (bs ! k) = pc_path (cs ! k) \<and> is_dir v (ps ! k)
      \<and> backup_slot (bs ! k, ps ! k) = (ps ! k, last (split_on (CHR ''/'') (pc_path (cs ! k))))
      \<and> backup_saved ?old (bs ! k, ps ! k) v" if k: "k < length ps" for k
  proof -
    have kc: "k < length cs" using k ps(1) by simp
    have lg: "logged w root (staging w) (cs ! k) (bs ! k)" using bs kc by (simp add: list_all2_nthD)
    have sl: "slot_of w root (pc_path (cs ! k)) = Some (ps ! k, last (split_on (CHR ''/'') (pc_path (cs ! k))))"
      using ps(2) k kc by (auto simp: parents_of_def list_all2_conv_all_nth)
    have temp: "last (split_on (CHR ''/'') (pc_path (cs ! k))) \<notin> temp_names w"
      using slot_no_temp [OF sl] cs kc by simp
    show ?thesis
      using lg sl temp v slot_of_is_dir [OF sl w(2)]
      by (auto simp: logged_def backup_saved_def backup_slot_def slot_view_def tame_def
          keeps_temp_names keeps_is_dir)
  qed
  have in_log: "\<exists>k<length ps. b = (bs ! k, ps ! k)" if "b \<in> set ?log" for b
    using that ps(1) len by (auto simp: set_zip)
  have saved: "\<forall>b\<in>set ?log. backup_saved ?old b v" using in_log entry by blast
  have kv: "keeps (touched cs ps) w v" using v(1) by (simp add: tame_def)
  then have wfv: "wf_fs v \<and> uuid v = uuid w" by (simp add: keeps_def)
  note undone = rollback_log.undo_all [OF wfv saved run [unfolded rollback_def]]
  have tn: "temp_names w' = temp_names w" "temp_names v = temp_names w"
    using undone wfv by (simp_all add: temp_names_def)
  have logged_slots: "backup_slot ` set ?log = touched cs ps"
  proof -
    have "map backup_slot (zip (take (length ps) bs) ps)
      = map2 (\<lambda>c p. (p, last (split_on (CHR ''/'') (pc_path c)))) cs ps"
      using entry ps(1) len by (intro nth_equalityI) simp_all
    then have "set (map backup_slot (zip (take (length ps) bs) ps)) = touched cs ps"
      by (simp only: touched_def)
    then show ?thesis by (simp only: set_map set_rev)
  qed
  show ?thesis
    unfolding restored_def
  proof (intro allI impI)
    fix d n
    assume n: "n \<notin> temp_names w"
    have views: "slot_view w (d, n) = obs w d n" "slot_view v (d, n) = obs v d n"
      "slot_view w' (d, n) = obs w' d n" using n tn by (simp_all add: slot_view_def)
    show "same_file (obs w d n) (obs w' d n)"
    proof (cases "(d, n) \<in> touched cs ps")
      case True
      then obtain b where "b \<in> set ?log" "backup_slot b = (d, n)" using logged_slots by force
      with undone views show ?thesis by fastforce
    next
      case False
      with undone logged_slots have "slot_view w' (d, n) = slot_view v (d, n)" by blast
      with views keeps_obs [OF kv n False] show ?thesis by (simp add: same_file_def)
    qed
  qed
qed

lemma evidence_ok:
  "list_all2 (logged w root stg) cs bs \<Longrightarrow> \<exists>ev. evidence cs bs = Inr ev"
proof (induction cs bs rule: list_all2_induct)
  case (Cons c cs b bs)
  then show ?case by (auto simp: logged_def split: prepared_kind.splits option.splits)
qed simp

lemma quiet_create_dir [quiet_intros]: "quiet (create_dir p)"
  unfolding create_dir_def
  by (rule quiet_syscall) (auto simp: quiet_def same_fs_def os_error_def fail_io_def)

lemma open_workspace_root_Inr:
  assumes "open_workspace_root ws w = (Inr root, w')"
  shows "roots w ws = Some root \<and> is_dir w root"
proof -
  from assms have "open_root ws w = (Inr root, w')"
    by (auto simp: open_workspace_root_def fail_io_def dest: map_err_io_Inr split: if_splits)
  then show ?thesis unfolding open_root_def
    by (auto elim!: syscallE simp: os_error_def fail_io_def is_dir_def split: option.splits if_splits)
qed

text \<open>The part of an update after the backups are taken.\<close>

lemma mutate_or_rollback:
  assumes w: "wf_fs w" "is_dir w root" and cs: "\<forall>c\<in>set cs. no_temp w (pc_path c)"
    and bs: "list_all2 (logged w root (staging w)) cs bs" and commit: "quiet commit"
    and run: "(case mutation root uid gid (\<lambda>_ w. w) commit bs cs w of
          (Inl err, parents, w) \<Rightarrow>
            (case rollback (take (length parents) bs) parents w of
               (Inl e, w) \<Rightarrow> (Inl (fail_rollback e err), w)
             | (Inr _, w) \<Rightarrow> (Inl err, w))
        | (Inr _, parents, w) \<Rightarrow> (evidence cs bs, w)) = (r, w')"
  shows "case r of
      Inl (Raise err) \<Rightarrow> ue_rollback_proven err \<longrightarrow> restored w w'
    | Inl (Panic _) \<Rightarrow> False
    | Inr _ \<Rightarrow> (\<forall>s. snd s \<notin> temp_names w \<longrightarrow> file_view w' s =
          spec_apply (\<lambda>c. slot_of w root (pc_path c)) (new_file (staging w) uid gid) cs (file_view w) s)"
proof -
  obtain r1 ps v where m: "mutation root uid gid (\<lambda>_ w. w) commit bs cs w = (r1, ps, v)"
    using prod_cases3 by blast
  note eff = mutation_effect [OF w cs commit m]
  show ?thesis
  proof (cases r1)
    case (Inr u)
    from evidence_ok [OF bs] obtain ev where "evidence cs bs = Inr ev" by blast
    with run m Inr have "r = Inr ev \<and> w' = v" by simp
    with eff Inr show ?thesis by simp
  next
    case (Inl x)
    then obtain err where err: "x = Raise err" using eff by (cases x) auto
    obtain r2 u where rb: "rollback (take (length ps) bs) ps v = (r2, u)" by fastforce
    show ?thesis
    proof (cases r2)
      case (Inl e)
      with run m rb \<open>r1 = Inl x\<close> err show ?thesis by auto
    next
      case (Inr y)
      with run m rb Inl err have "r = Inl (Raise err) \<and> w' = u" by simp
      moreover have "restored w u"
        using rollback_restores [OF w cs bs, of ps v u] eff rb Inr by simp
      ultimately show ?thesis by simp
    qed
  qed
qed

lemma logged_cong: "same_fs w v \<Longrightarrow> logged v root stg c b = logged w root stg c b"
  using slot_of_cong [of v w] obs_cong [of v w] by (simp add: logged_def same_fs_def)

lemma no_temp_cong: "same_fs w v \<Longrightarrow> no_temp v p = no_temp w p"
  by (simp add: no_temp_def temp_names_def same_fs_def)

lemma restored_cong: "same_fs w v \<Longrightarrow> restored v u \<Longrightarrow> restored w u"
  using obs_cong [of v w] by (simp add: restored_def temp_names_def same_fs_def)

text \<open>What an update does, from its start to before the staging directory is removed.\<close>

definition update_outcome ::
  "world \<Rightarrow> string \<Rightarrow> prepared_change list \<Rightarrow> u32 \<Rightarrow> u32 \<Rightarrow> (applied_evidence, update_error raised) result
   \<Rightarrow> world \<Rightarrow> bool" where
  "update_outcome w workspace cs uid gid r w' =
     (case r of
        Inl (Raise err) \<Rightarrow> ue_rollback_proven err \<longrightarrow> restored w w'
      | Inl (Panic _) \<Rightarrow> False
      | Inr _ \<Rightarrow> committed w workspace cs uid gid w')"

lemma update_outcome_early: "same_fs w w' \<Longrightarrow> update_outcome w ws cs uid gid (Inl (Raise e)) w'"
  by (simp add: update_outcome_def restored_same_fs)

lemma update_outcome_same_fs:
  "update_outcome w ws cs uid gid r v \<Longrightarrow> same_fs v w' \<Longrightarrow> update_outcome w ws cs uid gid r w'"
  using obs_cong [of w' v] unfolding update_outcome_def restored_def committed_def file_view_def same_fs_def
  by (simp split: sum.splits raised.splits)

lemma no_panic_fold: "(\<And>s x. no_panic (f s x)) \<Longrightarrow> no_panic (fold_io f s xs)"
  by (induction xs arbitrary: s) (simp_all add: no_panic_return no_panic_bind)

lemma no_panic_case_prod: "(\<And>a b. no_panic (f a b)) \<Longrightarrow> no_panic (case x of (a, b) \<Rightarrow> f a b)"
  by (cases x) simp

lemma no_panic_case_option:
  "no_panic m \<Longrightarrow> (\<And>x. no_panic (f x)) \<Longrightarrow> no_panic (case y of None \<Rightarrow> m | Some x \<Rightarrow> f x)"
  by (cases y) simp_all

lemma no_panic_backup_step:
  "no_panic (bind_io (backup_one sha256 root broot uid gid item) (\<lambda>b. return_io (backups @ [b])))"
  unfolding backup_one_def Let_def
  by (intro no_panic_intros no_panic_case_prod no_panic_case_option)

lemma backups_phase:
  assumes wf: "wf_fs w" and root: "is_dir w root"
    and cs: "\<forall>c\<in>set cs. no_temp w (pc_path c)" and commit: "quiet commit"
    and staged: "all_staged w cs" and ws: "roots w ws = Some root"
    and run: "backup_and_mutate sha256 broot cs uid gid commit (\<lambda>_ w. w) root w = (r, w')"
  shows "update_outcome w ws cs uid gid r w'"
  using run [unfolded backup_and_mutate_def]
proof (cases rule: bind_ioE)
  case (err e)
  have same: "same_fs w w'" using backups_effect(1) [OF wf err(1)] by (simp add: adds_staged_def)
  have "e \<noteq> Panic m" for m
  proof
    assume "e = Panic m"
    from err(1) [unfolded this] show False
      by (rule no_panicD [OF no_panic_fold [OF no_panic_backup_step]])
  qed
  then obtain u where "e = Raise u" by (cases e) auto
  with same show ?thesis using err(2) update_outcome_early by simp
next
  case (ok bs v)
  note eff = backups_effect [OF wf ok(1)]
  have same: "same_fs w v" using eff(1) by (simp add: adds_staged_def)
  from eff(2) [OF refl] have "list_all2 (\<lambda>item b. logged w root (staging v) (snd item) b) (List.enumerate 0 cs) bs"
    by simp
  then have bs: "list_all2 (logged v root (staging v)) cs bs"
    using logged_cong [OF same] by (simp add: list_all2_conv_all_nth nth_enumerate_eq)
  have v: "wf_fs v" "is_dir v root" "\<forall>c\<in>set cs. no_temp v (pc_path c)"
    using same_fs_wf [OF same wf] root is_dir_cong [of v w] no_temp_cong [OF same] cs same
    by (auto simp: same_fs_def)
  note out = mutate_or_rollback [OF v bs commit ok(2)]
  have views: "file_view v = file_view w" "temp_names v = temp_names w"
    "\<And>p. slot_of v root p = slot_of w root p"
    using same obs_cong [of v w] slot_of_cong [of v w]
    by (auto simp: fun_eq_iff file_view_def same_fs_def temp_names_def)
  have "spec_apply slot (new_file (staging v) uid gid) cs f = spec_apply slot (new_file (staging w) uid gid) cs f" for slot f
    by (rule spec_apply_new_cong) (use new_file_adds [OF staged eff(1)] in blast)
  moreover have "\<forall>c\<in>set cs. slot_of w root (pc_path c) \<noteq> None"
    using bs views by (auto simp: logged_def list_all2_conv_all_nth in_set_conv_nth) force
  ultimately show ?thesis
    using out ws views restored_cong [OF same]
    by (simp add: update_outcome_def committed_def split: sum.splits raised.splits)
qed

text \<open>A quiet step before the mutation that fails ends the update with nothing changed.\<close>

lemma update_outcome_quiet_bind:
  assumes "same_fs w v" and run: "bind_io m f v = (r, w')" and m: "quiet m" "no_panic m"
    and ok: "\<And>x u. same_fs w u \<Longrightarrow> staging u = staging v \<Longrightarrow> m v = (Inr x, u) \<Longrightarrow> f x u = (r, w') \<Longrightarrow>
      update_outcome w ws cs uid gid r w'"
  shows "update_outcome w ws cs uid gid r w'"
  using run
proof (cases rule: bind_ioE)
  case (err e)
  from quietD [OF m(1) err(1)] assms(1) have "same_fs w w'" by (auto intro: same_fs_trans)
  moreover obtain u where "e = Raise u" using no_panicD [OF m(2)] err(1) by (cases e) blast+
  ultimately show ?thesis using err(2) by (simp add: update_outcome_early)
next
  case (ok x u)
  with quietD [OF m(1) ok(1)] assms(1,5) show ?thesis by (blast intro: same_fs_trans)
qed

lemma update_outcome_cong:
  assumes "same_fs w v" and "staging v = staging w" and "update_outcome v ws cs uid gid r u"
  shows "update_outcome w ws cs uid gid r u"
proof -
  have "obs v = obs w" "temp_names v = temp_names w" "\<And>root p. slot_of v root p = slot_of w root p"
    "roots v = roots w"
    using assms(1) obs_cong [of v w] slot_of_cong [of v w] by (auto simp: same_fs_def temp_names_def)
  then have "restored v u = restored w u" "committed v ws cs uid gid u = committed w ws cs uid gid u"
    using assms(2) by (simp_all add: restored_def committed_def file_view_def [abs_def])
  with assms(3) show ?thesis by (simp add: update_outcome_def split: sum.splits raised.splits)
qed

lemma apply_uncancelled_effect:
  assumes wf: "wf_fs w" and cs: "\<forall>c\<in>set (pu_changes prepared). no_temp w (pc_path c)"
    and commit: "quiet commit" and w1: "same_fs w w1" "staging w1 = staging w"
    and run: "apply_uncancelled sha256 prepared ws uid gid commit (\<lambda>_ w. w) w1 = (r, v)"
  shows "update_outcome w ws (pu_changes prepared) uid gid r v"
  using run unfolding apply_uncancelled_def Let_def
proof (rule update_outcome_quiet_bind [OF w1(1) _ quiet_open_root no_panic_open_root])
  let ?broot = "path_join (pu_root prepared) ''backups''" and ?cs = "pu_changes prepared"
  let ?mutate = "backup_and_mutate sha256 ?broot ?cs uid gid commit (\<lambda>_ w. w)"
  fix root u
  assume u: "same_fs w u" "staging u = staging w1" and root: "open_workspace_root ws w1 = (Inr root, u)"
    and run: "bind_io (map_err_io (internal_io ''failed to create update backups: '')
       (bind_io (create_dir ?broot) (\<lambda>_. plain_call))) (\<lambda>_.
     bind_io (for_io ?cs prepare_one) (\<lambda>_. ?mutate root)) u = (r, v)"
  from u(1) run show "update_outcome w ws ?cs uid gid r v"
  proof (rule update_outcome_quiet_bind)
    fix y u2
    assume u2: "same_fs w u2" "staging u2 = staging u"
      and run: "bind_io (for_io ?cs prepare_one) (\<lambda>_. ?mutate root) u2 = (r, v)"
    from u2(1) run show "update_outcome w ws ?cs uid gid r v"
    proof (rule update_outcome_quiet_bind)
      fix z u3
      assume u3: "same_fs w u3" "staging u3 = staging u2"
        and prep: "for_io ?cs prepare_one u2 = (Inr z, u3)" and run: "?mutate root u3 = (r, v)"
      have stg: "staging u3 = staging w" using u u2 u3 w1 by simp
      have "roots u3 ws = Some root \<and> is_dir u3 root"
        using open_workspace_root_Inr [OF root] w1 u3 is_dir_cong [of u3 w1] by (simp add: same_fs_def)
      moreover have "all_staged u3 ?cs"
        using prepared_all_staged [OF prep] unfolding all_staged_def u3(2) .
      moreover have "\<forall>c\<in>set ?cs. no_temp u3 (pc_path c)"
        using cs no_temp_cong [OF u3(1)] by simp
      ultimately have "update_outcome u3 ws ?cs uid gid r v"
        using backups_phase [OF same_fs_wf [OF u3(1) wf] _ _ commit _ _ run] by simp
      then show "update_outcome w ws ?cs uid gid r v"
        by (rule update_outcome_cong [OF u3(1) stg])
    qed (intro quiet_intros no_panic_for no_panic_prepare_one)+
  qed (intro quiet_intros no_panic_map_err)+
qed

lemma apply_update_effect:
  assumes wf: "wf_fs w" and cs: "\<forall>c\<in>set (pu_changes prepared). no_temp w (pc_path c)"
    and commit: "quiet commit"
    and run: "apply_update sha256 prepared ws uid gid commit w = (r, w')"
  shows "update_outcome w ws (pu_changes prepared) uid gid r w'"
proof -
  obtain b w1 where w1: "is_cancelled w = (b, w1)" by fastforce
  obtain v where inner: "apply_update_inner_controlled sha256 prepared ws uid gid commit (\<lambda>_ w. w) w = (r, v)"
    and w': "w' = remove_dir_all (pu_root prepared) v"
    using run by (auto simp: apply_update_def split: prod.splits)
  have "same_fs v w'" by (simp add: w' remove_dir_all_def same_fs_def)
  moreover have "update_outcome w ws (pu_changes prepared) uid gid r v"
  proof (cases b)
    case True
    with inner w1 quiet_cancelled [OF w1] show ?thesis
      by (auto simp: apply_update_inner_controlled_def intro: update_outcome_early)
  next
    case False
    with inner w1 have "apply_uncancelled sha256 prepared ws uid gid commit (\<lambda>_ w. w) w1 = (r, v)"
      by (simp add: apply_update_inner_controlled_def)
    from apply_uncancelled_effect [OF wf cs commit _ _ this] quiet_cancelled [OF w1] show ?thesis by simp
  qed
  ultimately show ?thesis by (rule update_outcome_same_fs [rotated])
qed

text \<open>
  C2. An update that succeeds has replaced the workspace's files by what its changes say, applied
  in order to the slots their paths named when the update began: a file change installs the
  staged bytes as a new regular file of the task's user with mode 644, a deletion removes the
  name, and every other name of every directory refers to what it did before. This holds for
  every fault and cancellation schedule. The metadata commit is assumed not to touch the
  workspace, and generated temporary names not to occur in it.
\<close>

theorem apply_update_commits:
  assumes "wf_fs w" and "\<forall>c\<in>set (pu_changes prepared). no_temp w (pc_path c)" and "quiet commit"
    and "apply_update sha256 prepared ws uid gid commit w = (Inr ev, w')"
  shows "committed w ws (pu_changes prepared) uid gid w'"
  using apply_update_effect [OF assms] by (simp add: update_outcome_def)

text \<open>
  C3. An update that reports an error with a proven rollback leaves every file of the workspace
  with the bytes, owner and permission bits it had, whatever call failed and whenever the update
  was cancelled; and the \<^verbatim>\<open>expect\<close>s of the code never fire.
\<close>

theorem apply_update_rolls_back:
  assumes "wf_fs w" and "\<forall>c\<in>set (pu_changes prepared). no_temp w (pc_path c)" and "quiet commit"
    and "apply_update sha256 prepared ws uid gid commit w = (Inl x, w')"
  shows "\<exists>err. x = Raise err \<and> (ue_rollback_proven err \<longrightarrow> restored w w')"
  using apply_update_effect [OF assms] by (cases x) (simp_all add: update_outcome_def)

text \<open>A workspace with two files, and an update that replaces one of them.\<close>

definition fid :: "nat \<Rightarrow> file_identity" where
  "fid k = \<lparr>device = 1, inode = k\<rparr>"

definition reg_node :: "bytes \<Rightarrow> node" where
  "reg_node c = \<lparr>st_mode = 0x81A4, st_uid = 1000, st_gid = 1000, content = c, entries = Map.empty\<rparr>"

definition dir_node :: "(string \<times> file_identity) list \<Rightarrow> node" where
  "dir_node es = \<lparr>st_mode = 0x41ED, st_uid = 1000, st_gid = 1000, content = [], entries = map_of es\<rparr>"

definition sample_world :: "(nat \<Rightarrow> string option) \<Rightarrow> world" where
  "sample_world flt = \<lparr>roots = [''/ws'' \<mapsto> fid 1],
     nodes = [fid 1 \<mapsto> dir_node [(''a.txt'', fid 2), (''b.txt'', fid 3)],
              fid 2 \<mapsto> reg_node ''old'', fid 3 \<mapsto> reg_node ''gone''],
     next_inode = 4, staging = [''/st/file-0'' \<mapsto> ''new''], staging_dirs = [''/st''], ticks = 0,
     faults = flt, cancel_at = (\<lambda>_. False), uuid = show_nat, next_uuid = 0\<rparr>"

definition sample_prepared :: prepared_update where
  "sample_prepared = \<lparr>pu_root = ''/st'',
     pu_changes = [\<lparr>pc_path = ''a.txt'', pc_kind = PFile ''/st/file-0'' ''h''\<rparr>]\<rparr>"

lemma inj_show_nat: "inj show_nat"
  by (rule inj_on_inverseI [of _ decimal_value]) simp

lemma fid_eq: "fid j = fid k \<longleftrightarrow> j = k"
  by (simp add: fid_def)

lemma sample_nodes:
  "nodes (sample_world flt) i =
    (if i = fid 3 then Some (reg_node ''gone'') else if i = fid 2 then Some (reg_node ''old'')
     else if i = fid 1 then Some (dir_node [(''a.txt'', fid 2), (''b.txt'', fid 3)]) else None)"
  by (simp add: sample_world_def)

lemma sample_modes: "is_dir_mode (st_mode (dir_node es))" "\<not> is_dir_mode (st_mode (reg_node c))"
  by (simp_all add: is_dir_mode_def dir_node_def reg_node_def S_IFMT_def S_IFDIR_def)

lemma sample_entry:
  "dir_entry (sample_world flt) d n =
    (if d = fid 1 then (if n = ''a.txt'' then Some (fid 2) else if n = ''b.txt'' then Some (fid 3) else None)
     else None)"
proof -
  have "entries (dir_node es) = map_of es" for es by (simp add: dir_node_def)
  then show ?thesis
    unfolding dir_entry_def sample_nodes by (simp add: sample_modes fid_eq)
qed

lemma sample_names: "dir_entry (sample_world flt) d n = Some i \<Longrightarrow>
    d = fid 1 \<and> (n = ''a.txt'' \<and> i = fid 2 \<or> n = ''b.txt'' \<and> i = fid 3)"
  unfolding sample_entry by (simp only: option.inject option.distinct split: if_splits) simp_all

lemma sample_temp: "temp_name u \<noteq> ''a.txt'' \<and> temp_name u \<noteq> ''b.txt''"
  by (simp add: temp_name_def)

lemma sample_wf: "wf_fs (sample_world flt)"
  unfolding wf_fs_def
proof (intro conjI allI impI)
  show "inode i < next_inode (sample_world flt)" if "nodes (sample_world flt) i = Some nd" for i nd
  proof -
    from that have "i \<in> {fid 1, fid 2, fid 3}" unfolding sample_nodes
      by (simp only: option.distinct split: if_splits) simp_all
    then show ?thesis by (auto simp: sample_world_def fid_def)
  qed
  show "nodes (sample_world flt) i \<noteq> None" if "dir_entry (sample_world flt) d n = Some i" for d n i
    using sample_names [OF that] by (auto simp: sample_nodes fid_eq)
  show "inj (uuid (sample_world flt))" using inj_show_nat by (simp add: sample_world_def)
  show "dir_entry (sample_world flt) d (temp_name (uuid (sample_world flt) k)) = None" for k d
    using sample_temp unfolding sample_entry by simp
qed

lemma sample_no_temp: "\<forall>c\<in>set (pu_changes sample_prepared). no_temp (sample_world flt) (pc_path c)"
proof -
  have "split_on (CHR ''/'') ''a.txt'' = [''a.txt'']" by code_simp
  moreover have "''a.txt'' \<notin> temp_names (sample_world flt)"
    unfolding temp_names_def using sample_temp by (metis imageE)
  ultimately show ?thesis by (simp add: sample_prepared_def no_temp_def)
qed

lemma sample_success:
  "fst (apply_update (\<lambda>b. b) sample_prepared ''/ws'' 1000 1000 (return_io ()) (sample_world (\<lambda>_. None)))
   = Inr \<lparr>ae_changed = [\<lparr>ev_path = ''a.txt'', ev_sha256 = ''h''\<rparr>],
          ae_deleted = []\<rparr>"
  by code_simp

lemma sample_failure:
  "fst (apply_update (\<lambda>b. b) sample_prepared ''/ws'' 1000 1000 (return_io ())
     (sample_world (\<lambda>k. if k = 32 then Some ''I/O error'' else None)))
   = Inl (Raise \<lparr>ue_kind = Internal, ue_message = ''failed to inspect current parent: I/O error'',
       ue_rollback_proven = True\<rparr>)"
  by code_simp

lemma fst_pair: "fst p = x \<Longrightarrow> p = (x, snd p)"
  by auto

theorem apply_update_commits_witness:
  "\<exists>ev w'. apply_update (\<lambda>b. b) sample_prepared ''/ws'' 1000 1000 (return_io ())
       (sample_world (\<lambda>_. None)) = (Inr ev, w')
     \<and> committed (sample_world (\<lambda>_. None)) ''/ws'' (pu_changes sample_prepared) 1000 1000 w'"
proof -
  let ?run = "apply_update (\<lambda>b. b) sample_prepared ''/ws'' 1000 1000 (return_io ()) (sample_world (\<lambda>_. None))"
  note run = fst_pair [OF sample_success]
  from run apply_update_commits [OF sample_wf sample_no_temp quiet_return run] show ?thesis by blast
qed

theorem apply_update_rolls_back_witness:
  "\<exists>err w'. apply_update (\<lambda>b. b) sample_prepared ''/ws'' 1000 1000 (return_io ())
       (sample_world (\<lambda>k. if k = 32 then Some ''I/O error'' else None)) = (Inl (Raise err), w')
     \<and> ue_rollback_proven err \<and> restored (sample_world (\<lambda>k. if k = 32 then Some ''I/O error'' else None)) w'"
proof -
  let ?w = "sample_world (\<lambda>k. if k = 32 then Some ''I/O error'' else None)"
  let ?run = "apply_update (\<lambda>b. b) sample_prepared ''/ws'' 1000 1000 (return_io ()) ?w"
  let ?err = "\<lparr>ue_kind = Internal, ue_message = ''failed to inspect current parent: I/O error'',
       ue_rollback_proven = True\<rparr>"
  note run = fst_pair [OF sample_failure]
  have proven: "ue_rollback_proven ?err" by simp
  from apply_update_rolls_back [OF sample_wf sample_no_temp quiet_return run] proven
  have "restored ?w (snd ?run)" by auto
  with run proven show ?thesis by blast
qed

end
