(* ===== verification/Build_Error.thy ===== *)
theory Build_Error
  imports Protocol
begin

text \<open>The error type of \<^verbatim>\<open>src/build.rs\<close> and its cancellation checks.\<close>

record build_error =
  be_code :: string
  be_message :: string
  be_pattern :: "string option"
  be_phase :: "build_phase option"
  be_phases :: "phase_result list"

definition be_new :: "string \<Rightarrow> string \<Rightarrow> build_error" where
  "be_new code message =
     \<lparr>be_code = code, be_message = message, be_pattern = None, be_phase = None, be_phases = []\<rparr>"

definition with_pattern :: "string \<Rightarrow> string \<Rightarrow> string \<Rightarrow> build_error" where
  "with_pattern code message pattern =
     \<lparr>be_code = code, be_message = message, be_pattern = Some pattern, be_phase = None, be_phases = []\<rparr>"

definition in_phase :: "build_phase \<Rightarrow> build_error \<Rightarrow> build_error" where
  "in_phase p e = e\<lparr>be_phase := Some p\<rparr>"

definition with_phases :: "phase_result list \<Rightarrow> build_error \<Rightarrow> build_error" where
  "with_phases ps e = e\<lparr>be_phases := ps\<rparr>"

text \<open>
  What a cancellation check observes: the flag and the clock against the deadline. The schedule
  of a run gives the observation of each check in turn.
\<close>

record checkpoint =
  cp_cancelled :: bool
  cp_expired :: bool

definition check_initialization_cancel :: "checkpoint \<Rightarrow> (unit, build_error) result" where
  "check_initialization_cancel c =
     (if cp_cancelled c then Inl (be_new ''stream_closed'' ''session initialization was cancelled'')
      else if cp_expired c
      then Inl (be_new ''session_lifetime'' ''session maximum lifetime expired during initialization'')
      else Inr ())"

text \<open>A guard is absent, or the schedule of its checks.\<close>

type_synonym guard = "(nat \<Rightarrow> checkpoint) option"

definition check_optional_initialization_cancel :: "guard \<Rightarrow> nat \<Rightarrow> (unit, build_error) result" where
  "check_optional_initialization_cancel guard now =
     (case guard of None \<Rightarrow> Inr () | Some schedule \<Rightarrow> check_initialization_cancel (schedule now))"

end
