(* ===== verification/Path_Tree.thy ===== *)
theory Path_Tree
  imports Path_Registry "HOL-Library.Multiset"
begin

text \<open>
  Lists of archive paths that form a tree. The client (\<^verbatim>\<open>client_source.rs\<close>) checks the entries
  it packages and the daemon (\<^verbatim>\<open>build.rs\<close>) the entries it unpacks with the same algorithm: a
  duplicate check, a loop over the proper ancestors of the path, and sets of the files and
  directories met so far, so that no file is also a directory. \<open>tree_ok\<close> is what both promise,
  independently of the order of the entries, and the locale \<open>path_tree\<close> derives it from the laws
  of one insertion.
\<close>

abbreviation split_path :: "string \<Rightarrow> string list" where
  "split_path p \<equiv> split_on (CHR ''/'') p"

abbreviation join_path :: "string list \<Rightarrow> string" where
  "join_path ps \<equiv> join_with (CHR ''/'') ps"

section \<open>Ancestors\<close>

text \<open>\<^verbatim>\<open>let mut ancestor = String::new(); for component in .. { .. visit(ancestor)?; }\<close>\<close>

fun ancestor_scan ::
  "('s \<Rightarrow> string \<Rightarrow> ('s, 'e) result) \<Rightarrow> string \<Rightarrow> 's \<Rightarrow> string list \<Rightarrow> ('s, 'e) result" where
  "ancestor_scan visit ancestor s [] = Inr s"
| "ancestor_scan visit ancestor s (c # cs) =
     (let ancestor' = (if ancestor = [] then c else ancestor @ CHR ''/'' # c) in
      and_then (visit s ancestor') (\<lambda>s'. ancestor_scan visit ancestor' s' cs))"

definition ancestors :: "string \<Rightarrow> string list" where
  "ancestors p = map (\<lambda>k. join_path (take k (split_path p))) [1..<length (split_path p)]"

lemma ancestor_scan_fold:
  assumes "\<forall>c\<in>set (ds @ cs). c \<noteq> []"
  shows "ancestor_scan visit (join_path ds) s cs =
    try_fold visit s (map (\<lambda>k. join_path (ds @ take k cs)) [1..<Suc (length cs)])"
  using assms
proof (induction cs arbitrary: ds s)
  case Nil
  then show ?case by simp
next
  case (Cons c cs)
  have c: "(if join_path ds = [] then c else join_path ds @ CHR ''/'' # c) = join_path (ds @ [c])"
  proof (cases "ds = []")
    case False
    then have "join_path ds \<noteq> []" using Cons.prems
      by (cases "(CHR ''/'', ds)" rule: join_with.cases) auto
    with False show ?thesis by (simp add: join_with_append)
  qed simp
  have "[1..<Suc (length (c # cs))] = 1 # map Suc [1..<Suc (length cs)]"
    by (simp add: map_Suc_upt upt_conv_Cons del: upt_Suc)
  with c Cons.IH [of "ds @ [c]"] Cons.prems show ?case
    by (simp add: Let_def comp_def del: upt_Suc)
qed

lemma ancestor_scan_ancestors:
  assumes "\<forall>c\<in>set (split_path p). c \<noteq> []"
  shows "ancestor_scan visit [] s (butlast (split_path p)) = try_fold visit s (ancestors p)"
proof -
  have "\<forall>c\<in>set (butlast (split_path p)). c \<noteq> []" using assms in_set_butlastD by fast
  moreover have "Suc (length (split_path p) - 1) = length (split_path p)"
    using split_on_nonempty [of "CHR ''/''" p] by (cases "split_path p") simp_all
  moreover have "ancestors p =
    map (\<lambda>k. join_path (take k (butlast (split_path p)))) [1..<length (split_path p)]"
    unfolding ancestors_def by (rule map_cong) (simp_all add: take_butlast)
  ultimately show ?thesis
    using ancestor_scan_fold [of "[]" "butlast (split_path p)" visit s] by simp
qed

lemma ancestors_lower: "ancestors (to_ascii_lowercase p) = map to_ascii_lowercase (ancestors p)"
  by (simp add: ancestors_def split_on_lower join_with_lower take_map)

text \<open>An ancestor is a proper prefix on components.\<close>

lemma in_ancestors_iff:
  "a \<in> set (ancestors p) \<longleftrightarrow> strict_prefix (split_path a) (split_path p)"
proof
  assume "a \<in> set (ancestors p)"
  then obtain k where k: "a = join_path (take k (split_path p))" "1 \<le> k" "k < length (split_path p)"
    by (auto simp: ancestors_def)
  then have "split_path a = take k (split_path p)"
    by (auto intro!: split_join dest!: in_set_takeD dest: split_on_no_sep)
  with k show "strict_prefix (split_path a) (split_path p)"
    by (metis take_is_prefix prefix_order.le_imp_less_or_eq length_take min.absorb4 nat_neq_iff)
next
  assume pre: "strict_prefix (split_path a) (split_path p)"
  let ?k = "length (split_path a)"
  have "a = join_path (take ?k (split_path p))" using pre
    by (metis prefix_order.less_imp_le join_split append_eq_conv_conj prefixE)
  moreover have "1 \<le> ?k" "?k < length (split_path p)"
    using split_on_nonempty [of "CHR ''/''" a] prefix_length_less [OF pre]
    by (cases "split_path a"; simp)+
  ultimately show "a \<in> set (ancestors p)" unfolding ancestors_def by force
qed

lemma not_own_ancestor: "p \<notin> set (ancestors p)"
  by (simp add: in_ancestors_iff)

section \<open>Trees\<close>

text \<open>
  Entries are pairs of a directory flag and a path. After ASCII case folding no two entries name
  the same place, and no entry lies below one that is not a directory.
\<close>

definition tree_ok :: "(bool \<times> string) list \<Rightarrow> bool" where
  "tree_ok xs \<longleftrightarrow>
     distinct (map (\<lambda>x. to_ascii_lowercase (snd x)) xs) \<and>
     (\<forall>x\<in>set xs. \<forall>y\<in>set xs. \<not> fst x \<longrightarrow>
        to_ascii_lowercase (snd x) \<notin> set (ancestors (to_ascii_lowercase (snd y))))"

lemma tree_ok_Nil [simp]: "tree_ok []"
  by (simp add: tree_ok_def)

lemma tree_ok_appendD: "tree_ok (xs @ ys) \<Longrightarrow> tree_ok xs"
  by (auto simp: tree_ok_def)

text \<open>\<open>tree_ok\<close> does not depend on the order.\<close>

lemma tree_ok_mset: "mset xs = mset ys \<Longrightarrow> tree_ok xs \<longleftrightarrow> tree_ok ys"
  unfolding tree_ok_def using mset_eq_setD [of xs ys] mset_map
  by (metis mset_eq_imp_distinct_iff)

text \<open>The names of an entry as the checks compare them.\<close>

definition tree_seen :: "(bool \<times> string) list \<Rightarrow> string set" where
  "tree_seen xs = (\<lambda>x. to_ascii_lowercase (snd x)) ` set xs"

definition tree_files :: "(bool \<times> string) list \<Rightarrow> string set" where
  "tree_files xs = set (map (\<lambda>x. to_ascii_lowercase (snd x)) (filter (\<lambda>x. \<not> fst x) xs))"

definition tree_dirs :: "(bool \<times> string) list \<Rightarrow> string set" where
  "tree_dirs xs = set (map (\<lambda>x. to_ascii_lowercase (snd x)) (filter fst xs))
     \<union> (\<Union>x\<in>set xs. set (ancestors (to_ascii_lowercase (snd x))))"

lemma tree_snoc:
  "tree_seen (xs @ [(d, p)]) = insert (to_ascii_lowercase p) (tree_seen xs)"
  "tree_files (xs @ [(d, p)]) = (if d then {} else {to_ascii_lowercase p}) \<union> tree_files xs"
  "tree_dirs (xs @ [(d, p)]) = (if d then {to_ascii_lowercase p} else {})
     \<union> set (ancestors (to_ascii_lowercase p)) \<union> tree_dirs xs"
  by (auto simp: tree_seen_def tree_files_def tree_dirs_def)

lemma tree_ok_snoc:
  "tree_ok (xs @ [(d, p)]) \<longleftrightarrow>
     tree_ok xs \<and> to_ascii_lowercase p \<notin> tree_seen xs
     \<and> set (ancestors (to_ascii_lowercase p)) \<inter> tree_files xs = {}
     \<and> (d \<or> to_ascii_lowercase p \<notin> tree_dirs xs)"
  using not_own_ancestor [of "to_ascii_lowercase p"]
  by (auto simp: tree_ok_def tree_seen_def tree_files_def tree_dirs_def)

locale path_tree =
  fixes add :: "'r \<Rightarrow> bool \<Rightarrow> string \<Rightarrow> ('r, 'e) result"
    and wf :: "'r \<Rightarrow> bool"
    and seen :: "'r \<Rightarrow> string set"
    and files :: "'r \<Rightarrow> string set"
    and dirs :: "'r \<Rightarrow> string set"
    and kinds :: "bool set"
  assumes add_ok: "wf r \<Longrightarrow> files r \<subseteq> seen r \<Longrightarrow> d \<in> kinds \<Longrightarrow> \<forall>c\<in>set (split_path p). c \<noteq> [] \<Longrightarrow>
      is_ok (add r d p) \<longleftrightarrow>
        to_ascii_lowercase p \<notin> seen r
        \<and> set (ancestors (to_ascii_lowercase p)) \<inter> files r = {}
        \<and> (d \<or> to_ascii_lowercase p \<notin> dirs r)"
    and add_effect: "wf r \<Longrightarrow> d \<in> kinds \<Longrightarrow> \<forall>c\<in>set (split_path p). c \<noteq> [] \<Longrightarrow> add r d p = Inr r' \<Longrightarrow>
      seen r' = insert (to_ascii_lowercase p) (seen r)
      \<and> files r' = (if d then {} else {to_ascii_lowercase p}) \<union> files r
      \<and> dirs r' = (if d then {to_ascii_lowercase p} else {})
          \<union> set (ancestors (to_ascii_lowercase p)) \<union> dirs r"
    and add_wf: "wf r \<Longrightarrow> d \<in> kinds \<Longrightarrow> \<forall>c\<in>set (split_path p). c \<noteq> [] \<Longrightarrow>
      add r d p = Inr r' \<Longrightarrow> wf r'"
begin

text \<open>The registry \<open>r\<close> represents the entries added so far.\<close>

definition represents :: "'r \<Rightarrow> (bool \<times> string) list \<Rightarrow> bool" where
  "represents r xs \<longleftrightarrow>
     wf r \<and> seen r = tree_seen xs \<and> files r = tree_files xs \<and> dirs r = tree_dirs xs"

lemma represents_add:
  assumes "represents r xs" and "d \<in> kinds" and "\<forall>c\<in>set (split_path p). c \<noteq> []"
    and "add r d p = Inr r'"
  shows "represents r' (xs @ [(d, p)])"
  using assms add_effect [OF _ assms(2-4)] add_wf [OF _ assms(2-4)]
  unfolding represents_def by (cases d) (simp_all add: tree_snoc)

lemma add_ok_iff:
  assumes "represents r xs" and "tree_ok xs" and "d \<in> kinds" and "\<forall>c\<in>set (split_path p). c \<noteq> []"
  shows "is_ok (add r d p) \<longleftrightarrow> tree_ok (xs @ [(d, p)])"
proof -
  have "files r \<subseteq> seen r" using assms(1) by (auto simp: represents_def tree_files_def tree_seen_def)
  with assms add_ok [OF _ this assms(3,4)] show ?thesis
    by (simp add: represents_def tree_ok_snoc)
qed

text \<open>
  A loop that adds one entry per iteration, and otherwise does what it likes, leaves only with a
  tree.
\<close>

lemma loop_tree:
  assumes "try_fold step s xs = Inr s'" and "represents (get s) ys" and "tree_ok ys"
    and "\<And>s x s'. x \<in> set xs \<Longrightarrow> step s x = Inr s' \<Longrightarrow>
      kind x \<in> kinds \<and> (\<forall>c\<in>set (split_path (path x)). c \<noteq> [])
      \<and> add (get s) (kind x) (path x) = Inr (get s')"
  shows "represents (get s') (ys @ map (\<lambda>x. (kind x, path x)) xs)
    \<and> tree_ok (ys @ map (\<lambda>x. (kind x, path x)) xs)"
  using assms
proof (induction xs arbitrary: s ys)
  case Nil
  then show ?case by simp
next
  case (Cons x xs)
  from Cons.prems(1) obtain t where t: "step s x = Inr t" "try_fold step t xs = Inr s'"
    by (auto simp: result_simps)
  from Cons.prems(4) [OF _ t(1)]
  have x: "kind x \<in> kinds" "\<forall>c\<in>set (split_path (path x)). c \<noteq> []"
    "add (get s) (kind x) (path x) = Inr (get t)" by simp_all
  have "represents (get t) (ys @ [(kind x, path x)])"
    using represents_add Cons.prems(2) x by blast
  moreover have "tree_ok (ys @ [(kind x, path x)])"
    using add_ok_iff [OF Cons.prems(2,3) x(1,2)] x(3) by simp
  ultimately have "represents (get s') ((ys @ [(kind x, path x)]) @ map (\<lambda>x. (kind x, path x)) xs)
    \<and> tree_ok ((ys @ [(kind x, path x)]) @ map (\<lambda>x. (kind x, path x)) xs)"
    by (rule Cons.IH [OF t(2)]) (use Cons.prems(4) in auto)
  then show ?case by simp
qed

end

end
