(* ===== verification/Byte_Budget.thy ===== *)
theory Byte_Budget
  imports Prelude
begin

text \<open>
  Byte counters with a limit. Packaging, unpacking, staging and artifact collection all add the
  number of bytes just seen to a \<^verbatim>\<open>u64\<close> with \<^verbatim>\<open>saturating_add\<close> and stop when the sum exceeds a
  limit. The contract is that while no check fails the counter is the exact number of bytes, so
  the limit bounds the real total, as long as the limit is not the largest \<^verbatim>\<open>u64\<close>.
\<close>

locale byte_budget =
  fixes charge :: "u64 \<Rightarrow> u64 \<Rightarrow> (u64, 'e) result" and lim :: u64
  assumes charge_Inr: "charge t n = Inr t' \<longleftrightarrow> t' = saturating_add t n \<and> t' \<le> lim"
begin

lemma charge_exact:
  assumes "charge t n = Inr t'" and "unat lim < 2 ^ 64 - 1"
  shows "unat t' = unat t + unat n" and "unat t' \<le> unat lim"
  using assms saturating_add_le_limit [of t n lim] by (auto simp: charge_Inr)

lemma charge_ok:
  assumes "unat t + unat n \<le> unat lim"
  shows "\<exists>t'. charge t n = Inr t' \<and> unat t' = unat t + unat n"
proof -
  have "unat lim < 2 ^ LENGTH(64)" by (rule unsigned_less)
  with assms have "unat (saturating_add t n) = unat t + unat n" by (simp add: unat_saturating_add)
  with assms show ?thesis by (auto simp: charge_Inr word_le_nat_alt)
qed

text \<open>
  A loop that charges the budget once per iteration, whatever else it does, ends with the exact
  total.
\<close>

lemma loop_total:
  assumes "try_fold step s xs = Inr s'" and "unat lim < 2 ^ 64 - 1" and "unat (get s) \<le> unat lim"
    and "\<And>s x s'. x \<in> set xs \<Longrightarrow> step s x = Inr s' \<Longrightarrow> charge (get s) (amount x) = Inr (get s')"
  shows "unat (get s') = unat (get s) + sum_list (map (\<lambda>x. unat (amount x)) xs)
    \<and> unat (get s') \<le> unat lim"
  using assms
proof (induction xs arbitrary: s)
  case Nil
  then show ?case by simp
next
  case (Cons x xs)
  from Cons.prems(1) obtain t where t: "step s x = Inr t" "try_fold step t xs = Inr s'"
    by (auto simp: result_simps)
  note x = charge_exact [OF Cons.prems(4) [OF _ t(1)] Cons.prems(2)]
  have "unat (get s') = unat (get t) + sum_list (map (\<lambda>x. unat (amount x)) xs)
    \<and> unat (get s') \<le> unat lim"
    by (rule Cons.IH [OF t(2) Cons.prems(2)]) (use x Cons.prems(4) in auto)
  with x show ?case by simp
qed

end

end
