(* ===== verification/Client_Archive.thy ===== *)
theory Client_Archive
  imports Path_Tree Byte_Budget Zip_Archive "HOL-Library.List_Lexorder" "HOL-Library.Char_ord"
begin

text \<open>
  What the client checks and computes of the entries it packages (\<^verbatim>\<open>src/client_source.rs\<close>):
  archive paths, symbolic-link targets, the plan of entries, the byte budget, and the aggregate
  hash of a source manifest. The daemon uses \<open>validate_symlink_target\<close> too.
\<close>

section \<open>Errors and constants\<close>

datatype io_kind = NotFound | InvalidInput | InvalidData | Interrupted | TimedOut | OtherKind

record io_err =
  err_kind :: io_kind
  err_msg :: string

definition io_new :: "io_kind \<Rightarrow> string \<Rightarrow> io_err" where
  "io_new k m = \<lparr>err_kind = k, err_msg = m\<rparr>"

definition limit_err :: "string \<Rightarrow> io_err" where
  "limit_err m = io_new InvalidData m"

definition MAX_FILES :: nat where "MAX_FILES = 50000"

definition MAX_DEPTH :: nat where "MAX_DEPTH = 64"

definition MAX_UNCOMPRESSED_BYTES :: u64 where "MAX_UNCOMPRESSED_BYTES = 1342177280"

datatype entry_kind = KFile | KSymlink

record source_entry =
  se_path :: string
  se_kind :: entry_kind
  se_mode :: u32
  se_size :: u64
  se_sha256 :: string

record planned_entry =
  pe_path :: string
  pe_kind :: entry_kind
  pe_executable :: bool
  pe_symlink_target :: "string option"

section \<open>Archive paths\<close>

definition reserved_component :: "string \<Rightarrow> bool" where
  "reserved_component c = (eq_ignore_ascii_case c ''.git'' \<or> eq_ignore_ascii_case c ''.jj'')"

fun is_normal :: "path_component \<Rightarrow> bool" where
  "is_normal (Normal _) = True"
| "is_normal _ = False"

definition validate_archive_path :: "string \<Rightarrow> (unit, io_err) result" where
  "validate_archive_path path =
     (if path = [] \<or> 4096 < length path \<or> \<not> is_ascii path \<or> CHR 0x5C \<in> set path \<or> CHR 0x00 \<in> set path
      then Inl (io_new InvalidData ''source path is not a portable ASCII relative path'')
      else
        let cs = split_path path in
        if MAX_DEPTH < length cs
          \<or> list_ex (\<lambda>c. c = [] \<or> c = ''.'' \<or> c = ''..'' \<or> reserved_component c) cs
          \<or> list_ex (\<lambda>c. \<not> is_normal c) (components path)
        then Inl (io_new InvalidData ''source path is unsafe or exceeds the client depth limit'')
        else Inr ())"

text \<open>The \<^verbatim>\<open>depth\<close> loop over the components of a link target, on an \<^verbatim>\<open>isize\<close>.\<close>

definition target_step :: "string \<Rightarrow> string \<Rightarrow> int \<Rightarrow> path_component \<Rightarrow> (int, io_err) result" where
  "target_step link_path target depth c =
     (case c of
        CurDir \<Rightarrow> Inr depth
      | Normal _ \<Rightarrow> Inr (depth + 1)
      | ParentDir \<Rightarrow>
          if 0 < depth then Inr (depth - 1)
          else Inl (io_new InvalidData (''symlink target escapes source root: '' @ debug_str link_path
                 @ '' -> '' @ debug_str target))
      | RootDir \<Rightarrow> Inl (io_new InvalidData (''unsafe symlink target for '' @ debug_str link_path)))"

definition validate_symlink_target :: "string \<Rightarrow> string \<Rightarrow> (unit, io_err) result" where
  "validate_symlink_target link_path target =
     (if target = [] \<or> 4096 < length target \<or> CHR 0x5C \<in> set target \<or> CHR 0x00 \<in> set target
        \<or> is_absolute target
      then Inl (io_new InvalidData (''unsafe symlink target for '' @ debug_str link_path))
      else and_then (try_fold (target_step link_path target) (int (length (split_path link_path) - 1))
             (components target)) (\<lambda>_. Inr ()))"

section \<open>The plan\<close>

record plan_tree =
  pt_reg :: registry
  pt_files :: "string set"
  pt_dirs :: "string set"

definition empty_plan :: plan_tree where
  "empty_plan = \<lparr>pt_reg = empty_registry, pt_files = {}, pt_dirs = {}\<rparr>"

definition plan_collision :: io_err where
  "plan_collision = io_new InvalidData ''source contains a file/directory path collision''"

definition plan_ancestor :: "plan_tree \<Rightarrow> string \<Rightarrow> (plan_tree, io_err) result" where
  "plan_ancestor t ancestor =
     (let folded_ancestor = to_ascii_lowercase ancestor in
      if folded_ancestor \<in> pt_files t then Inl plan_collision
      else Inr (t\<lparr>pt_dirs := insert folded_ancestor (pt_dirs t)\<rparr>))"

definition plan_add :: "plan_tree \<Rightarrow> string \<Rightarrow> (plan_tree, io_err) result" where
  "plan_add t path =
     (let lower = to_ascii_lowercase path in
      and_then (ok_or (register (pt_reg t) path)
        (io_new InvalidData ''source contains duplicate or case-colliding paths'')) (\<lambda>reg.
      and_then (ancestor_scan plan_ancestor [] (t\<lparr>pt_reg := reg\<rparr>) (butlast (split_path path))) (\<lambda>t'.
      if lower \<in> pt_dirs t' then Inl plan_collision
      else Inr (t'\<lparr>pt_files := insert lower (pt_files t')\<rparr>))))"

definition plan_step :: "plan_tree \<Rightarrow> planned_entry \<Rightarrow> (plan_tree, io_err) result" where
  "plan_step t e = and_then (validate_archive_path (pe_path e)) (\<lambda>_. plan_add t (pe_path e))"

text \<open>The slice is sorted in place, so the sorted entries are part of the result.\<close>

definition validate_planned_entries :: "planned_entry list \<Rightarrow> (planned_entry list, io_err) result" where
  "validate_planned_entries entries =
     (if MAX_FILES < length entries then Inl (limit_err ''source entry count exceeds the client limit'')
      else
        let sorted = sort_key pe_path entries in
        and_then (try_fold plan_step empty_plan sorted) (\<lambda>_. Inr sorted))"

section \<open>Bytes and hashes\<close>

definition add_total :: "u64 \<Rightarrow> u64 \<Rightarrow> (u64, io_err) result" where
  "add_total tot amount =
     (let tot' = saturating_add tot amount in
      if MAX_UNCOMPRESSED_BYTES < tot' then Inl (limit_err ''source bytes exceed the client limit'')
      else Inr tot')"

definition to_le_bytes :: "u64 \<Rightarrow> bytes" where
  "to_le_bytes x = map (\<lambda>i. char_of (unat x div 256 ^ i mod 256)) [0..<8]"


definition hex :: "bytes \<Rightarrow> string" where
  "hex bs = concat (map (\<lambda>b. [hex_digit (byte b div 16), hex_digit (byte b mod 16)]) bs)"

definition one_line :: "string \<Rightarrow> nat \<Rightarrow> string \<Rightarrow> (string, io_err) result" where
  "one_line s max_len label =
     (let trimmed = trim_end_matches [CHR 0x0D, CHR 0x0A] s in
      if trimmed = [] \<or> max_len < length trimmed
        \<or> list_ex (\<lambda>c. c = CHR 0x0D \<or> c = CHR 0x0A \<or> c = CHR 0x00) trimmed
      then Inl (io_new InvalidData (''invalid '' @ label))
      else Inr trimmed)"

text \<open>
  \<^verbatim>\<open>read_and_drain_bounded_inner\<close>: reads to the end of the stream and keeps the first \<open>lim\<close>
  bytes; the flag says that some were dropped.
\<close>

fun drain_bounded ::
  "nat \<Rightarrow> bytes \<Rightarrow> bool \<Rightarrow> (bytes, io_err) result list \<Rightarrow> (bytes \<times> bool, io_err) result" where
  "drain_bounded lim kept overflow [] = Inr (kept, overflow)"
| "drain_bounded lim kept overflow (Inl e # rs) = Inl e"
| "drain_bounded lim kept overflow (Inr bs # rs) =
     (if bs = [] then Inr (kept, overflow)
      else
        let keep = min (lim - length kept) (length bs) in
        drain_bounded lim (kept @ take keep bs) (overflow \<or> keep < length bs) rs)"

definition read_and_drain_bounded ::
  "(bytes, io_err) result list \<Rightarrow> nat \<Rightarrow> (bytes \<times> bool, io_err) result" where
  "read_and_drain_bounded reads lim = drain_bounded lim [] False reads"

section \<open>Paths and link targets\<close>

lemma validate_archive_path_iff [result_simps]:
  "validate_archive_path path = Inr u \<longleftrightarrow>
     length path \<le> 4096 \<and> is_ascii path \<and> CHR 0x5C \<notin> set path \<and> CHR 0x00 \<notin> set path
     \<and> length (split_path path) \<le> MAX_DEPTH
     \<and> (\<forall>c\<in>set (split_path path). plain_name c \<and> \<not> reserved_component c)"
proof -
  have "\<not> list_ex (\<lambda>c. \<not> is_normal c) (components path)"
    if "\<forall>c\<in>set (split_path path). plain_name c"
    using components_plain [OF that] by (auto simp: list_ex_iff)
  then show ?thesis
    by (auto simp: validate_archive_path_def Let_def list_ex_iff plain_name_def)
qed

text \<open>
  Following a relative path from a directory below a root, without links: \<^const>\<open>None\<close> as soon as
  \<open>..\<close> would leave the root.
\<close>

fun follow :: "string list \<Rightarrow> path_component list \<Rightarrow> string list option" where
  "follow dir [] = Some dir"
| "follow dir (RootDir # cs) = None"
| "follow dir (CurDir # cs) = follow dir cs"
| "follow dir (Normal n # cs) = follow (dir @ [n]) cs"
| "follow dir (ParentDir # cs) = (if dir = [] then None else follow (butlast dir) cs)"

lemma target_step_then:
  "is_ok (and_then (target_step l t d CurDir) f) \<longleftrightarrow> is_ok (f d)"
  "is_ok (and_then (target_step l t d (Normal n)) f) \<longleftrightarrow> is_ok (f (d + 1))"
  "is_ok (and_then (target_step l t d ParentDir) f) \<longleftrightarrow> 0 < d \<and> is_ok (f (d - 1))"
  "\<not> is_ok (and_then (target_step l t d RootDir) f)"
  by (simp_all add: target_step_def)

lemma target_loop_follow:
  "is_ok (try_fold (target_step l t) (int (length dir)) cs) \<longleftrightarrow> follow dir cs \<noteq> None"
proof (induction dir cs rule: follow.induct)
  case (4 dir n cs)
  then show ?case by (simp add: target_step_then add.commute)
next
  case (5 dir cs)
  then show ?case by (cases "dir = []") (simp_all add: target_step_then of_nat_diff Suc_le_eq)
qed (simp_all add: target_step_then)

lemma validate_symlink_target_follow:
  "validate_symlink_target link target = Inr () \<longleftrightarrow>
     target \<noteq> [] \<and> length target \<le> 4096 \<and> CHR 0x5C \<notin> set target \<and> CHR 0x00 \<notin> set target
     \<and> \<not> is_absolute target
     \<and> follow (butlast (split_path link)) (components target) \<noteq> None"
  using target_loop_follow [of link target "butlast (split_path link)" "components target"]
  by (auto simp: validate_symlink_target_def and_then_Inr_iff is_ok_iff)

lemma symlink_target_follow:
  "validate_symlink_target link target = Inr () \<Longrightarrow>
     follow (butlast (split_path link)) (components target) \<noteq> None"
  unfolding validate_symlink_target_follow by blast

text \<open>
  C35. A symbolic link passes exactly when its target is a non-empty relative path of at most 4096
  bytes without backslash and NUL which, followed component by component from the directory that
  holds the link, never leaves the archive root.
\<close>

theorem validate_symlink_target_iff:
  "validate_symlink_target link target = Inr () \<longleftrightarrow>
     target \<noteq> [] \<and> length target \<le> 4096 \<and> CHR 0x5C \<notin> set target \<and> CHR 0x00 \<notin> set target
     \<and> \<not> is_absolute target
     \<and> follow (butlast (split_path link)) (components target) \<noteq> None"
  by (rule validate_symlink_target_follow)

section \<open>The plan is a tree\<close>

lemma plan_ancestors:
  "try_fold plan_ancestor t as =
     (if list_ex (\<lambda>a. to_ascii_lowercase a \<in> pt_files t) as then Inl plan_collision
      else Inr (t\<lparr>pt_dirs := to_ascii_lowercase ` set as \<union> pt_dirs t\<rparr>))"
proof (induction as arbitrary: t)
  case (Cons a as)
  then show ?case by (cases "to_ascii_lowercase a \<in> pt_files t") (simp_all add: plan_ancestor_def Let_def)
qed simp

definition plan_wf :: "plan_tree \<Rightarrow> bool" where
  "plan_wf t \<longleftrightarrow> to_ascii_lowercase ` exact (pt_reg t) \<subseteq> folded (pt_reg t)"

lemma plan_add_Inr:
  assumes "\<forall>c\<in>set (split_path p). c \<noteq> []"
  shows "plan_add t p = Inr t' \<longleftrightarrow>
    (\<exists>reg. register (pt_reg t) p = Some reg
      \<and> set (ancestors (to_ascii_lowercase p)) \<inter> pt_files t = {}
      \<and> to_ascii_lowercase p \<notin> pt_dirs t
      \<and> t' = \<lparr>pt_reg = reg, pt_files = insert (to_ascii_lowercase p) (pt_files t),
             pt_dirs = set (ancestors (to_ascii_lowercase p)) \<union> pt_dirs t\<rparr>)"
proof -
  have "list_ex (\<lambda>a. to_ascii_lowercase a \<in> pt_files t) (ancestors p) \<longleftrightarrow>
    set (ancestors (to_ascii_lowercase p)) \<inter> pt_files t \<noteq> {}"
    by (auto simp: ancestors_lower list_ex_iff)
  moreover have "to_ascii_lowercase ` set (ancestors p) = set (ancestors (to_ascii_lowercase p))"
    by (simp add: ancestors_lower)
  ultimately show ?thesis using not_own_ancestor [of "to_ascii_lowercase p"]
    by (auto simp: plan_add_def Let_def result_simps ancestor_scan_ancestors [OF assms]
        plan_ancestors split: if_splits)
qed

interpretation plan: path_tree "\<lambda>t d p. plan_add t p" plan_wf "\<lambda>t. folded (pt_reg t)" pt_files pt_dirs
  "{False}"
proof unfold_locales
  fix r :: plan_tree and d :: bool and p :: string and r'
  assume parts: "\<forall>c\<in>set (split_path p). c \<noteq> []"
  { assume "plan_wf r" "d \<in> {False}"
    then show "is_ok (plan_add r p) \<longleftrightarrow>
        to_ascii_lowercase p \<notin> folded (pt_reg r)
        \<and> set (ancestors (to_ascii_lowercase p)) \<inter> pt_files r = {}
        \<and> (d \<or> to_ascii_lowercase p \<notin> pt_dirs r)"
      using reg.reg_iff [of "pt_reg r" p]
      by (auto simp: is_ok_iff plan_add_Inr [OF parts] plan_wf_def) }
  { assume "plan_wf r" "d \<in> {False}" and "plan_add r p = Inr r'"
    then show "folded (pt_reg r') = insert (to_ascii_lowercase p) (folded (pt_reg r))
      \<and> pt_files r' = (if d then {} else {to_ascii_lowercase p}) \<union> pt_files r
      \<and> pt_dirs r' = (if d then {to_ascii_lowercase p} else {})
          \<union> set (ancestors (to_ascii_lowercase p)) \<union> pt_dirs r"
      using reg.reg_Some by (auto simp: plan_add_Inr [OF parts]) }
  { assume "plan_wf r" and "plan_add r p = Inr r'"
    then show "plan_wf r'"
      using reg.reg_wf [of "pt_reg r" p "pt_reg r'"] unfolding plan_add_Inr [OF parts] plan_wf_def
      by (elim exE conjE) simp }
qed

lemma plan_empty: "plan.represents empty_plan []"
  by (simp add: plan.represents_def plan_wf_def empty_plan_def empty_registry_def tree_seen_def
      tree_files_def tree_dirs_def)

lemma plan_complete:
  assumes "plan.represents t ys" and "\<forall>e\<in>set es. validate_archive_path (pe_path e) = Inr ()"
    and "tree_ok (ys @ map (\<lambda>e. (False, pe_path e)) es)"
  shows "is_ok (try_fold plan_step t es)"
  using assms
proof (induction es arbitrary: t ys)
  case Nil
  then show ?case by simp
next
  case (Cons e es)
  let ?ys = "ys @ [(False, pe_path e)]"
  have parts: "\<forall>c\<in>set (split_path (pe_path e)). c \<noteq> []"
    using Cons.prems(2) by (auto simp: result_simps plain_name_def)
  have tree: "tree_ok (?ys @ map (\<lambda>e. (False, pe_path e)) es)" using Cons.prems(3) by simp
  from tree_ok_appendD [OF tree] have ok: "tree_ok ?ys" .
  with plan.add_ok_iff [OF Cons.prems(1) tree_ok_appendD [OF ok] _ parts]
  obtain t' where t': "plan_add t (pe_path e) = Inr t'" by (auto simp: is_ok_iff)
  with Cons.prems(2) have "plan_step t e = Inr t'" by (simp add: plan_step_def)
  with Cons.IH [OF plan.represents_add [OF Cons.prems(1) _ parts t'] _ tree] Cons.prems(2)
  show ?case by simp
qed

text \<open>
  C27. The client accepts a plan exactly when it has at most \<^const>\<open>MAX_FILES\<close> entries, every
  path is a portable archive path, and the paths form a tree after ASCII case folding: no two
  agree and none lies below another. It then holds the same entries in byte order of their paths.
\<close>

theorem validate_planned_entries_iff:
  "validate_planned_entries es = Inr es' \<longleftrightarrow>
     es' = sort_key pe_path es \<and> length es \<le> MAX_FILES
     \<and> (\<forall>e\<in>set es. validate_archive_path (pe_path e) = Inr ())
     \<and> tree_ok (map (\<lambda>e. (False, pe_path e)) es)"
proof -
  let ?s = "sort_key pe_path es" and ?f = "\<lambda>e. (False, pe_path e)"
  have m: "tree_ok (map ?f ?s) \<longleftrightarrow> tree_ok (map ?f es)"
    by (rule tree_ok_mset) (simp add: mset_map)
  have sound: "(\<forall>e\<in>set es. validate_archive_path (pe_path e) = Inr ()) \<and> tree_ok (map ?f ?s)"
    if ok: "try_fold plan_step empty_plan ?s = Inr t" for t
  proof
    have each: "validate_archive_path (pe_path e) = Inr ()" if "plan_step u e = Inr v" for u v e
      using that by (simp add: plan_step_def result_simps)
    show "\<forall>e\<in>set es. validate_archive_path (pe_path e) = Inr ()"
      using try_fold_all [OF ok] each by (metis set_sort)
    have "plan.represents t ([] @ map ?f ?s) \<and> tree_ok ([] @ map ?f ?s)"
      by (rule plan.loop_tree [where get = "\<lambda>t. t", OF ok plan_empty])
        (auto simp: plan_step_def result_simps plain_name_def)
    then show "tree_ok (map ?f ?s)" by simp
  qed
  have complete: "is_ok (try_fold plan_step empty_plan ?s)"
    if "\<forall>e\<in>set es. validate_archive_path (pe_path e) = Inr ()" "tree_ok (map ?f es)"
    using plan_complete [OF plan_empty, of ?s] that m by simp
  show ?thesis using sound complete m
    by (auto simp: validate_planned_entries_def Let_def and_then_Inr_iff is_ok_iff)
qed

theorem validate_planned_entries_iff_witness:
  "validate_planned_entries
     [\<lparr>pe_path = ''src/main.rs'', pe_kind = KFile, pe_executable = False, pe_symlink_target = None\<rparr>,
      \<lparr>pe_path = ''src/Main'', pe_kind = KSymlink, pe_executable = False,
       pe_symlink_target = Some ''main.rs''\<rparr>]
   = Inr [\<lparr>pe_path = ''src/Main'', pe_kind = KSymlink, pe_executable = False,
       pe_symlink_target = Some ''main.rs''\<rparr>,
      \<lparr>pe_path = ''src/main.rs'', pe_kind = KFile, pe_executable = False, pe_symlink_target = None\<rparr>]"
proof -
  have p: "validate_archive_path ''src/main.rs'' = Inr ()" "validate_archive_path ''src/Main'' = Inr ()"
    by (simp_all add: validate_archive_path_iff is_ascii_def MAX_DEPTH_def plain_name_def
        reserved_component_def eq_ignore_ascii_case_def ascii_lower_def is_ascii_uppercase_def)
  have t: "tree_ok [(False, ''src/main.rs''), (False, ''src/Main'')]" by code_simp
  show ?thesis unfolding validate_planned_entries_iff
  proof (intro conjI)
    show "[\<lparr>pe_path = ''src/Main'', pe_kind = KSymlink, pe_executable = False,
       pe_symlink_target = Some ''main.rs''\<rparr>,
      \<lparr>pe_path = ''src/main.rs'', pe_kind = KFile, pe_executable = False, pe_symlink_target = None\<rparr>]
      = sort_key pe_path
     [\<lparr>pe_path = ''src/main.rs'', pe_kind = KFile, pe_executable = False, pe_symlink_target = None\<rparr>,
      \<lparr>pe_path = ''src/Main'', pe_kind = KSymlink, pe_executable = False,
       pe_symlink_target = Some ''main.rs''\<rparr>]" by code_simp
  qed (use p t in \<open>simp_all add: MAX_FILES_def\<close>)
qed

section \<open>Budgets and hashes\<close>

interpretation client_budget: byte_budget add_total MAX_UNCOMPRESSED_BYTES
  by unfold_locales (auto simp: add_total_def Let_def)


lemma length_to_le_bytes [simp]: "length (to_le_bytes x) = 8"
  by (simp add: to_le_bytes_def)







lemma drain_bounded_eq:
  "length kept \<le> lim \<Longrightarrow> drain_bounded lim kept overflow reads =
     and_then (read_bytes reads)
       (\<lambda>bs. Inr (kept @ take (lim - length kept) bs, overflow \<or> lim - length kept < length bs))"
proof (induction lim kept overflow reads rule: drain_bounded.induct)
  case (3 lim kept overflow bs rs)
  show ?case
  proof (cases "bs = []")
    case False
    let ?keep = "min (lim - length kept) (length bs)"
    have "length (kept @ take ?keep bs) \<le> lim" using "3.prems" by simp
    then have "drain_bounded lim (kept @ take ?keep bs) (overflow \<or> ?keep < length bs) rs =
      and_then (read_bytes rs) (\<lambda>cs. Inr ((kept @ take ?keep bs)
        @ take (lim - length (kept @ take ?keep bs)) cs,
        (overflow \<or> ?keep < length bs) \<or> lim - length (kept @ take ?keep bs) < length cs))"
      by (rule "3.IH" [OF False refl])
    with False show ?thesis
      by (cases "read_bytes rs") (auto simp: Let_def min_def simp flip: length_greater_0_conv)
  qed simp
qed simp_all

text \<open>
  C37. Draining a child's output keeps exactly the first \<open>lim\<close> bytes of the stream and reports
  whether there were more; it reads to the end of the stream and fails only if a read fails.
\<close>

theorem read_and_drain_bounded_eq:
  "read_and_drain_bounded reads lim =
     and_then (read_bytes reads) (\<lambda>bs. Inr (take lim bs, lim < length bs))"
  by (simp add: read_and_drain_bounded_def drain_bounded_eq)

end
