(* ===== verification/Source_Archive.thy ===== *)
theory Source_Archive
  imports Build_Error Client_Archive Zip_Archive
begin

text \<open>
  Unpacking an uploaded source archive into a fresh workspace (\<^verbatim>\<open>src/build.rs\<close>,
  \<^verbatim>\<open>extract_source_archive_inner\<close> and what it calls). The archive is untrusted: it is checked in
  full before anything is written, and the bytes are counted again while they are written.

  The workspace is the list of objects created below it, newest first. Looking a path up compares
  names through \<open>fold_name\<close>, so the theorems cover case-sensitive file systems
  (\<open>fold_name = id\<close>) and case-insensitive ones (\<open>fold_name = to_ascii_lowercase\<close>).
\<close>

unbundle bit_operations_syntax

definition archive_error :: "string \<Rightarrow> build_error" where
  "archive_error message = be_new ''source_archive'' message"

section \<open>Names and types\<close>

definition normalized_zip_path :: "string \<Rightarrow> bool \<Rightarrow> nat \<Rightarrow> (string, build_error) result" where
  "normalized_zip_path name is_dir max_depth =
     (if name = [] \<or> CHR 0x5C \<in> set name \<or> CHR 0x00 \<in> set name \<or> \<not> is_ascii name
      then Inl (archive_error ''zip entry had invalid path'')
      else
        let trimmed = (if is_dir then trim_end_matches ''/'' name else name) in
        if trimmed = [] \<or> list_ex (\<lambda>c. c = [] \<or> c = ''.'') (split_path trimmed)
        then Inl (archive_error ''zip entry had invalid path'')
        else if list_ex (\<lambda>c. c = RootDir \<or> c = ParentDir) (components trimmed)
        then Inl (archive_error ''zip entry had invalid path'')
        else if max_depth < length (split_path trimmed)
        then Inl (archive_error (''source path depth exceeds sources.max_depth ('' @ show_nat max_depth @ '')''))
        else Inr trimmed)"

definition validate_zip_type :: "u32 option \<Rightarrow> bool \<Rightarrow> bool \<Rightarrow> (unit, build_error) result" where
  "validate_zip_type mode is_dir is_symlink =
     (case mode of
        None \<Rightarrow> if is_symlink then Inl (archive_error ''symlink entry is missing Unix mode'') else Inr ()
      | Some m \<Rightarrow>
          let kind = m AND 0xF000;
              expected = (if is_dir then 0x4000 else if is_symlink then 0xA000 else 0x8000)
          in
          if kind \<noteq> 0 \<and> kind \<noteq> expected
          then Inl (archive_error ''zip entry has an unsupported special file type'')
          else Inr ())"

text \<open>\<^verbatim>\<open>entry.take(n).read_to_end(..)\<close>: nothing is read past \<open>n\<close> bytes.\<close>

fun read_take :: "nat \<Rightarrow> (bytes, 'e) result list \<Rightarrow> (bytes, 'e) result" where
  "read_take n [] = Inr []"
| "read_take n (r # rs) =
     (if n = 0 then Inr []
      else case r of
        Inl e \<Rightarrow> Inl e
      | Inr b \<Rightarrow>
          if b = [] then Inr []
          else and_then (read_take (n - length b) rs) (\<lambda>bs. Inr (take n b @ bs)))"

section \<open>Checking the whole archive first\<close>

record zip_tree =
  zt_reg :: registry
  zt_files :: "string set"
  zt_directories :: "string set"
  zt_folded_files :: "string set"
  zt_folded_directories :: "string set"

definition zip_collision :: build_error where
  "zip_collision = archive_error ''zip contains a file/directory path collision''"

definition zip_ancestor :: "zip_tree \<Rightarrow> string \<Rightarrow> (zip_tree, build_error) result" where
  "zip_ancestor t ancestor =
     (let folded_ancestor = to_ascii_lowercase ancestor in
      if ancestor \<in> zt_files t \<or> folded_ancestor \<in> zt_folded_files t then Inl zip_collision
      else Inr (t\<lparr>zt_directories := insert ancestor (zt_directories t),
                  zt_folded_directories := insert folded_ancestor (zt_folded_directories t)\<rparr>))"

definition zip_add :: "zip_tree \<Rightarrow> bool \<Rightarrow> string \<Rightarrow> (zip_tree, build_error) result" where
  "zip_add t is_dir normalized =
     (let folded_normalized = to_ascii_lowercase normalized in
      and_then (ok_or (register (zt_reg t) normalized)
        (archive_error ''zip contains duplicate or case-colliding paths'')) (\<lambda>reg.
      and_then (ancestor_scan zip_ancestor [] (t\<lparr>zt_reg := reg\<rparr>) (butlast (split_path normalized))) (\<lambda>t'.
      if is_dir then
        if normalized \<in> zt_files t' \<or> folded_normalized \<in> zt_folded_files t' then Inl zip_collision
        else Inr (t'\<lparr>zt_directories := insert normalized (zt_directories t'),
                     zt_folded_directories := insert folded_normalized (zt_folded_directories t')\<rparr>)
      else
        if normalized \<in> zt_directories t' \<or> folded_normalized \<in> zt_folded_directories t'
        then Inl zip_collision
        else Inr (t'\<lparr>zt_files := insert normalized (zt_files t'),
                     zt_folded_files := insert folded_normalized (zt_folded_files t')\<rparr>))))"

record limits =
  max_uncompressed_bytes :: u64
  max_files :: nat
  max_depth :: nat

definition preflight_link_target :: "string \<Rightarrow> zip_entry \<Rightarrow> (bytes, build_error) result" where
  "preflight_link_target normalized entry =
     and_then (map_err (\<lambda>err. archive_error (''read symlink target failed: '' @ err))
       (read_take 4097 (ze_reads entry))) (\<lambda>target.
     and_then (ensure (length target \<le> 4096) (archive_error ''symlink target exceeds 4096 bytes'')) (\<lambda>_.
     and_then (ensure (is_utf8 target) (archive_error ''symlink target is not UTF-8'')) (\<lambda>_.
     and_then (map_err (\<lambda>err. archive_error (err_msg err)) (validate_symlink_target normalized target)) (\<lambda>_.
     Inr target))))"

definition declared_limit :: "u64 \<Rightarrow> build_error" where
  "declared_limit m = archive_error (''declared size exceeds sources.max_uncompressed_bytes ''
     @ ''('' @ show_nat (unat m) @ '' bytes)'')"

definition charge_declared :: "u64 \<Rightarrow> u64 \<Rightarrow> u64 \<Rightarrow> (u64, build_error) result" where
  "charge_declared limit declared n =
     (let declared' = saturating_add declared n in
      if limit < declared' then Inl (declared_limit limit) else Inr declared')"

record preflight_state =
  pf_now :: nat
  pf_tree :: zip_tree
  pf_declared :: u64
  pf_count :: nat

definition preflight_entry ::
  "limits \<Rightarrow> guard \<Rightarrow> preflight_state \<Rightarrow> (zip_entry, string) result
     \<Rightarrow> (preflight_state, build_error) result" where
  "preflight_entry lim guard s item =
     and_then (check_optional_initialization_cancel guard (pf_now s)) (\<lambda>_.
     and_then (map_err (\<lambda>err. archive_error (''failed to read zip entry: '' @ err)) item) (\<lambda>entry.
     let entry_count = pf_count s + 1 in
     and_then (ensure (entry_count \<le> max_files lim)
       (archive_error (''source entry count exceeds sources.max_files ('' @ show_nat (max_files lim) @ '')''))) (\<lambda>_.
     and_then (normalized_zip_path (ze_name entry) (ze_is_dir entry) (max_depth lim)) (\<lambda>normalized.
     and_then (validate_zip_type (ze_unix_mode entry) (ze_is_dir entry) (ze_is_symlink entry)) (\<lambda>_.
     and_then (zip_add (pf_tree s) (ze_is_dir entry) normalized) (\<lambda>tree.
     let s' = s\<lparr>pf_now := Suc (pf_now s), pf_tree := tree, pf_count := entry_count\<rparr> in
     if ze_is_dir entry then Inr s'
     else if ze_is_symlink entry then
       and_then (preflight_link_target normalized entry) (\<lambda>target.
       and_then (charge_declared (max_uncompressed_bytes lim) (pf_declared s) (of_nat (length target))) (\<lambda>declared.
       Inr (s'\<lparr>pf_declared := declared\<rparr>)))
     else
       and_then (charge_declared (max_uncompressed_bytes lim) (pf_declared s) (ze_size entry)) (\<lambda>declared.
       Inr (s'\<lparr>pf_declared := declared\<rparr>))))))))"

definition empty_zip_tree :: zip_tree where
  "empty_zip_tree = \<lparr>zt_reg = empty_registry, zt_files = {}, zt_directories = {},
     zt_folded_files = {}, zt_folded_directories = {}\<rparr>"

text \<open>
  Opening the file and reading the central directory may each fail; the results are what the file
  system and the \<^verbatim>\<open>zip\<close> crate report. The number of checks made so far is part of the result.
\<close>

type_synonym zip_file = "((zip_archive, string) result, string) result"

definition open_archive :: "zip_file \<Rightarrow> (zip_archive, build_error) result" where
  "open_archive file =
     and_then (map_err (\<lambda>err. archive_error (''failed to open source archive: '' @ err)) file) (\<lambda>archive.
     map_err (\<lambda>err. archive_error (''failed to read source archive: '' @ err)) archive)"

definition preflight_source_archive ::
  "limits \<Rightarrow> guard \<Rightarrow> nat \<Rightarrow> zip_file \<Rightarrow> (nat, build_error) result" where
  "preflight_source_archive lim guard now archive =
     and_then (open_archive archive) (\<lambda>items.
     and_then (try_fold (preflight_entry lim guard)
       \<lparr>pf_now = now, pf_tree = empty_zip_tree, pf_declared = 0, pf_count = 0\<rparr> items) (\<lambda>s.
     Inr (pf_now s)))"

section \<open>Writing the workspace\<close>

datatype object =
    ODir "u32 option"
  | OFile bytes "u32 option"
  | OLink string

type_synonym workspace = "(string list \<times> object) list"

definition lookup :: "(string \<Rightarrow> string) \<Rightarrow> workspace \<Rightarrow> string list \<Rightarrow> object option" where
  "lookup fold_name ws p =
     map_option snd (find (\<lambda>(q, _). map fold_name q = map fold_name p) ws)"

text \<open>
  What stops a path operation. A symbolic link met on the way to the last component would be
  followed by the operating system, out of the modelled tree.
\<close>

datatype fs_problem = AlreadyExists | NotADirectory | FollowsLink "string list"

fun show_problem :: "fs_problem \<Rightarrow> string" where
  "show_problem AlreadyExists = ''File exists (os error 17)''"
| "show_problem NotADirectory = ''Not a directory (os error 20)''"
| "show_problem (FollowsLink _) = ''Too many levels of symbolic links (os error 40)''"

text \<open>\<^verbatim>\<open>create_dir_all\<close>: every missing prefix, shortest first.\<close>

fun create_dirs ::
  "(string \<Rightarrow> string) \<Rightarrow> workspace \<Rightarrow> string list \<Rightarrow> string list \<Rightarrow> (workspace, fs_problem) result" where
  "create_dirs f ws done [] = Inr ws"
| "create_dirs f ws done (c # cs) =
     (let p = done @ [c] in
      case lookup f ws p of
        None \<Rightarrow> create_dirs f ((p, ODir None) # ws) p cs
      | Some (ODir _) \<Rightarrow> create_dirs f ws p cs
      | Some (OFile _ _) \<Rightarrow> Inl NotADirectory
      | Some (OLink _) \<Rightarrow> Inl (FollowsLink p))"

definition create_dir_all ::
  "(string \<Rightarrow> string) \<Rightarrow> workspace \<Rightarrow> string list \<Rightarrow> (workspace, fs_problem) result" where
  "create_dir_all f ws p = create_dirs f ws [] p"

text \<open>Creating an object whose parent directory exists; \<^verbatim>\<open>create_new\<close> and \<^verbatim>\<open>symlink\<close> refuse an existing name.\<close>

definition create_object ::
  "(string \<Rightarrow> string) \<Rightarrow> workspace \<Rightarrow> string list \<Rightarrow> object \<Rightarrow> (workspace, fs_problem) result" where
  "create_object f ws p ob =
     (case lookup f ws p of None \<Rightarrow> Inr ((p, ob) # ws) | Some _ \<Rightarrow> Inl AlreadyExists)"

definition set_dir_mode :: "(string \<Rightarrow> string) \<Rightarrow> workspace \<Rightarrow> string list \<Rightarrow> u32 \<Rightarrow> workspace" where
  "set_dir_mode f ws p m =
     map (\<lambda>(q, ob). if map f q = map f p then (q, ODir (Some m)) else (q, ob)) ws"

record extract_state =
  ex_now :: nat
  ex_bytes :: u64
  ex_ws :: workspace

definition charge_extracted :: "string \<Rightarrow> u64 \<Rightarrow> u64 \<Rightarrow> u64 \<Rightarrow> (u64, build_error) result" where
  "charge_extracted message limit extracted n =
     (let extracted' = saturating_add extracted n in
      if limit < extracted' then Inl (archive_error message) else Inr extracted')"

definition extracted_limit :: "u64 \<Rightarrow> string" where
  "extracted_limit m = ''extracted size exceeds sources.max_uncompressed_bytes ''
     @ ''('' @ show_nat (unat m) @ '' bytes)''"

text \<open>The read loop of one file: the check, the read, the budget, the write.\<close>

fun extract_file_bytes ::
  "u64 \<Rightarrow> guard \<Rightarrow> nat \<Rightarrow> u64 \<Rightarrow> bytes \<Rightarrow> (bytes, string) result list
     \<Rightarrow> (nat \<times> u64 \<times> bytes, build_error) result" where
  "extract_file_bytes limit guard now extracted written [] =
     and_then (check_optional_initialization_cancel guard now) (\<lambda>_. Inr (Suc now, extracted, written))"
| "extract_file_bytes limit guard now extracted written (r # rs) =
     and_then (check_optional_initialization_cancel guard now) (\<lambda>_.
     and_then (map_err (\<lambda>err. archive_error (''read zip entry failed: '' @ err)) r) (\<lambda>bs.
     if bs = [] then Inr (Suc now, extracted, written)
     else and_then (charge_extracted (extracted_limit limit) limit extracted (of_nat (length bs))) (\<lambda>extracted'.
       extract_file_bytes limit guard (Suc now) extracted' (written @ bs) rs)))"

definition mkdir_error :: "fs_problem \<Rightarrow> build_error" where
  "mkdir_error p = archive_error (''mkdir failed: '' @ show_problem p)"

definition extract_entry ::
  "(string \<Rightarrow> string) \<Rightarrow> limits \<Rightarrow> guard \<Rightarrow> extract_state \<Rightarrow> (zip_entry, string) result
     \<Rightarrow> (extract_state, build_error) result" where
  "extract_entry f lim guard s item =
     and_then (check_optional_initialization_cancel guard (ex_now s)) (\<lambda>_.
     and_then (map_err (\<lambda>err. archive_error (''failed to read zip entry: '' @ err)) item) (\<lambda>entry.
     and_then (normalized_zip_path (ze_name entry) (ze_is_dir entry) (max_depth lim)) (\<lambda>normalized.
     let p = split_path normalized; now = Suc (ex_now s); limit = max_uncompressed_bytes lim in
     if ze_is_dir entry then
       and_then (map_err mkdir_error (create_dir_all f (ex_ws s) p)) (\<lambda>ws.
       Inr (s\<lparr>ex_now := now, ex_ws := (case ze_unix_mode entry of
          None \<Rightarrow> ws | Some m \<Rightarrow> set_dir_mode f ws p (m AND 0x1FF))\<rparr>))
     else
       and_then (map_err mkdir_error (create_dir_all f (ex_ws s) (butlast p))) (\<lambda>ws.
       if ze_is_symlink entry then
         and_then (map_err (\<lambda>err. archive_error (''read symlink target failed: '' @ err))
           (read_take 4097 (ze_reads entry))) (\<lambda>target.
         and_then (charge_extracted ''extracted size exceeds sources.max_uncompressed_bytes'' limit (ex_bytes s)
           (of_nat (length target))) (\<lambda>extracted.
         and_then (ensure (is_utf8 target) (archive_error ''symlink target is not UTF-8'')) (\<lambda>_.
         and_then (map_err (\<lambda>err. archive_error (err_msg err)) (validate_symlink_target normalized target)) (\<lambda>_.
         and_then (map_err (\<lambda>err. archive_error (''create symlink failed: '' @ show_problem err))
           (create_object f ws p (OLink target))) (\<lambda>ws'.
         Inr \<lparr>ex_now = now, ex_bytes = extracted, ex_ws = ws'\<rparr>)))))
       else
         and_then (map_err (\<lambda>err. archive_error (''create file failed: '' @ show_problem err))
           (create_object f ws p (OFile [] None))) (\<lambda>_.
         and_then (extract_file_bytes limit guard now (ex_bytes s) [] (ze_reads entry)) (\<lambda>(now', extracted, written).
         Inr \<lparr>ex_now = now', ex_bytes = extracted,
              ex_ws = (p, OFile written (map_option (\<lambda>m. m AND 0x1FF) (ze_unix_mode entry))) # ws\<rparr>))))))"

text \<open>
  The archive is opened once for the checks and again for the extraction: the two readings are
  separate arguments.
\<close>

definition extract_source_archive_inner ::
  "(string \<Rightarrow> string) \<Rightarrow> limits \<Rightarrow> guard \<Rightarrow> zip_file \<Rightarrow> zip_file
     \<Rightarrow> (extract_state, build_error) result" where
  "extract_source_archive_inner f lim guard checked opened =
     and_then (check_optional_initialization_cancel guard 0) (\<lambda>_.
     and_then (preflight_source_archive lim guard 1 checked) (\<lambda>now.
     and_then (open_archive opened) (\<lambda>items.
     try_fold (extract_entry f lim guard) \<lparr>ex_now = now, ex_bytes = 0, ex_ws = []\<rparr> items)))"

section \<open>Normalised names\<close>

text \<open>The path of an entry: its name, without the final slashes of a directory.\<close>

definition zip_path :: "zip_entry \<Rightarrow> string" where
  "zip_path e = (if ze_is_dir e then trim_end_matches ''/'' (ze_name e) else ze_name e)"

lemma normalized_zip_path_iff [result_simps]:
  "normalized_zip_path name is_dir depth = Inr p \<longleftrightarrow>
     p = (if is_dir then trim_end_matches ''/'' name else name)
     \<and> CHR 0x5C \<notin> set name \<and> CHR 0x00 \<notin> set name \<and> is_ascii name
     \<and> (\<forall>c\<in>set (split_path p). plain_name c) \<and> length (split_path p) \<le> depth"
proof -
  define t where "t = (if is_dir then trim_end_matches ''/'' name else name)"
  have gate: "(if A then Inl a else if B then Inl b else if C then Inl c else if D then Inl d else Inr t)
      = (Inr p :: (string, build_error) result) \<longleftrightarrow> \<not> A \<and> \<not> B \<and> \<not> C \<and> \<not> D \<and> p = t" for A B C D a b c d
    by auto
  have empty: "t = []" if "name = []" using that by (simp add: t_def trim_end_matches_def)
  have bad: "list_ex (\<lambda>c. c = RootDir \<or> c = ParentDir) (components t) \<longleftrightarrow>
    is_absolute t \<or> ''..'' \<in> set (split_path t)"
    using RootDir_in_components [of t] ParentDir_in_components [of t] unfolding list_ex_iff by blast
  have abs: "[] \<in> set (split_path t)" if "is_absolute t" using that by (auto simp: is_absolute_iff)
  have plain: "(\<forall>c\<in>set (split_path t). plain_name c) \<longleftrightarrow>
      \<not> list_ex (\<lambda>c. c = [] \<or> c = ''.'') (split_path t) \<and> ''..'' \<notin> set (split_path t)"
    unfolding plain_name_def list_ex_iff by blast
  have nil: "t \<noteq> []" if "\<not> list_ex (\<lambda>c. c = [] \<or> c = ''.'') (split_path t)" using that by auto
  have abs': "is_absolute t \<Longrightarrow> list_ex (\<lambda>c. c = [] \<or> c = ''.'') (split_path t)"
    using abs unfolding list_ex_iff by blast
  show ?thesis
    unfolding normalized_zip_path_def Let_def t_def [symmetric] gate bad
    not_less
  proof (intro iffI conjI; elim conjE)
  qed (use empty plain nil abs' in \<open>blast+\<close>)
qed

lemma normalized_zip_path_parts:
  "normalized_zip_path name is_dir depth = Inr p \<Longrightarrow> \<forall>c\<in>set (split_path p). c \<noteq> []"
  by (auto simp: result_simps plain_name_def)

text \<open>
  C34. A normalised entry path is ASCII, at most \<open>max_depth\<close> deep, consists of plain names only, and
  joined to any destination it leads to a place below the destination.
\<close>

theorem normalized_zip_path_contained:
  assumes "normalized_zip_path name is_dir depth = Inr p" and "dest \<noteq> []"
  shows "is_ascii p \<and> length (split_path p) \<le> depth \<and> components p = map Normal (split_path p)
    \<and> walk [] (components (path_join dest p)) = walk [] (components dest) @ split_path p"
proof -
  from assms(1) have parts: "\<forall>c\<in>set (split_path p). plain_name c" and asc: "is_ascii name"
    and p: "p = (if is_dir then trim_end_matches ''/'' name else name)"
    and d: "length (split_path p) \<le> depth" unfolding normalized_zip_path_iff by blast+
  note comps = components_plain [OF parts]
  have "set p \<subseteq> set name"
    by (auto simp: p trim_end_matches_def dest: set_dropWhileD split: if_splits)
  with asc have "is_ascii p" by (auto simp: is_ascii_def list_all_iff)
  moreover have "walk cur (map Normal ps) = cur @ ps" for cur ps
    by (induction ps arbitrary: cur) simp_all
  moreover have "filter (\<lambda>c. c \<noteq> CurDir) (map Normal ps) = map Normal ps" for ps
    by (induction ps) simp_all
  ultimately show ?thesis
    using d comps components_join [OF assms(2) plain_not_absolute [OF parts]]
    by (simp add: walk_append)
qed

theorem normalized_zip_path_contained_witness:
  "normalized_zip_path ''src/bin/'' True 64 = Inr ''src/bin''
   \<and> walk [] (components (path_join ''/srv/ws'' ''src/bin'')) = [''srv'', ''ws'', ''src'', ''bin'']"
proof -
  have n: "normalized_zip_path ''src/bin/'' True 64 = Inr ''src/bin''"
    by (simp add: normalized_zip_path_iff trim_end_matches_def is_ascii_def plain_name_def)
  moreover have "walk [] (components ''/srv/ws'') = [''srv'', ''ws'']"
    "split_path ''src/bin'' = [''src'', ''bin'']" by code_simp+
  ultimately show ?thesis
    using normalized_zip_path_contained [OF n, of "''/srv/ws''"] by simp
qed

section \<open>The archive is a tree\<close>

definition zip_wf :: "zip_tree \<Rightarrow> bool" where
  "zip_wf t \<longleftrightarrow> to_ascii_lowercase ` exact (zt_reg t) \<subseteq> folded (zt_reg t)
     \<and> to_ascii_lowercase ` zt_files t \<subseteq> zt_folded_files t
     \<and> to_ascii_lowercase ` zt_directories t \<subseteq> zt_folded_directories t"

lemma zip_ancestors:
  "to_ascii_lowercase ` zt_files t \<subseteq> zt_folded_files t \<Longrightarrow>
   try_fold zip_ancestor t as =
     (if list_ex (\<lambda>a. to_ascii_lowercase a \<in> zt_folded_files t) as then Inl zip_collision
      else Inr (t\<lparr>zt_directories := set as \<union> zt_directories t,
         zt_folded_directories := to_ascii_lowercase ` set as \<union> zt_folded_directories t\<rparr>))"
proof (induction as arbitrary: t)
  case (Cons a as)
  then show ?case
    by (cases "to_ascii_lowercase a \<in> zt_folded_files t") (auto simp: zip_ancestor_def Let_def)
qed simp

lemma zip_add_Inr:
  assumes parts: "\<forall>c\<in>set (split_path p). c \<noteq> []" and wf: "zip_wf t"
    and sub: "zt_folded_files t \<subseteq> folded (zt_reg t)"
  shows "is_ok (zip_add t d p) \<longleftrightarrow>
      to_ascii_lowercase p \<notin> folded (zt_reg t)
      \<and> set (ancestors (to_ascii_lowercase p)) \<inter> zt_folded_files t = {}
      \<and> (d \<or> to_ascii_lowercase p \<notin> zt_folded_directories t)"
proof -
  let ?l = "to_ascii_lowercase p"
  from wf have files: "to_ascii_lowercase ` zt_files t \<subseteq> zt_folded_files t"
    and dirs: "to_ascii_lowercase ` zt_directories t \<subseteq> zt_folded_directories t"
    and reg: "to_ascii_lowercase ` exact (zt_reg t) \<subseteq> folded (zt_reg t)"
    by (simp_all add: zip_wf_def)
  have own: "p \<notin> set (ancestors p)" "?l \<notin> to_ascii_lowercase ` set (ancestors p)"
    using not_own_ancestor [of p] not_own_ancestor [of ?l] by (simp_all add: ancestors_lower)
  note scan = ancestor_scan_ancestors [OF parts] zip_ancestors
  show ?thesis
  proof (cases "register (zt_reg t) p")
    case None
    with reg.reg_None [OF reg] show ?thesis by (simp add: zip_add_def)
  next
    case (Some r)
    with reg.reg_Some have l: "?l \<notin> folded (zt_reg t)" by blast
    with sub files dirs own have "p \<notin> zt_files t" "?l \<notin> zt_folded_files t"
      "p \<in> zt_directories t \<Longrightarrow> ?l \<in> zt_folded_directories t" by auto
    with Some l files own show ?thesis
      by (cases d) (auto simp: zip_add_def Let_def scan ancestors_lower list_ex_iff)
  qed
qed

lemma zip_add_effect:
  assumes parts: "\<forall>c\<in>set (split_path p). c \<noteq> []" and ok: "zip_add t d p = Inr t'"
    and wf: "to_ascii_lowercase ` zt_files t \<subseteq> zt_folded_files t"
  shows "\<exists>r. register (zt_reg t) p = Some r \<and> t' =
     \<lparr>zt_reg = r, zt_files = (if d then {} else {p}) \<union> zt_files t,
      zt_directories = (if d then {p} else {}) \<union> set (ancestors p) \<union> zt_directories t,
      zt_folded_files = (if d then {} else {to_ascii_lowercase p}) \<union> zt_folded_files t,
      zt_folded_directories = (if d then {to_ascii_lowercase p} else {})
        \<union> set (ancestors (to_ascii_lowercase p)) \<union> zt_folded_directories t\<rparr>"
  using ok wf
  by (auto simp: zip_add_def Let_def result_simps ancestor_scan_ancestors [OF parts] zip_ancestors
      ancestors_lower split: if_splits)

interpretation zip: path_tree zip_add zip_wf "\<lambda>t. folded (zt_reg t)" zt_folded_files
  zt_folded_directories UNIV
proof unfold_locales
  fix r r' :: zip_tree and d :: bool and p :: string
  assume parts: "\<forall>c\<in>set (split_path p). c \<noteq> []"
  { assume "zip_wf r" "zt_folded_files r \<subseteq> folded (zt_reg r)"
    then show "is_ok (zip_add r d p) \<longleftrightarrow>
        to_ascii_lowercase p \<notin> folded (zt_reg r)
        \<and> set (ancestors (to_ascii_lowercase p)) \<inter> zt_folded_files r = {}
        \<and> (d \<or> to_ascii_lowercase p \<notin> zt_folded_directories r)"
      by (rule zip_add_Inr [OF parts]) }
  assume wf: "zip_wf r" and ok: "zip_add r d p = Inr r'"
  from wf have "to_ascii_lowercase ` zt_files r \<subseteq> zt_folded_files r" by (simp add: zip_wf_def)
  from zip_add_effect [OF parts ok this] wf
  show "folded (zt_reg r') = insert (to_ascii_lowercase p) (folded (zt_reg r))
      \<and> zt_folded_files r' = (if d then {} else {to_ascii_lowercase p}) \<union> zt_folded_files r
      \<and> zt_folded_directories r' = (if d then {to_ascii_lowercase p} else {})
          \<union> set (ancestors (to_ascii_lowercase p)) \<union> zt_folded_directories r"
    using reg.reg_Some by fastforce
  from zip_add_effect [OF parts ok \<open>to_ascii_lowercase ` zt_files r \<subseteq> zt_folded_files r\<close>] wf
  show "zip_wf r'" using reg.reg_wf [of "zt_reg r" p]
    by (auto simp: zip_wf_def ancestors_lower image_subset_iff split: if_splits)
qed

lemma zip_empty: "zip.represents empty_zip_tree []"
  by (simp add: zip.represents_def zip_wf_def empty_zip_tree_def empty_registry_def tree_seen_def
      tree_files_def tree_dirs_def)

section \<open>What the check before the extraction accepts\<close>

definition link_bytes :: "zip_entry \<Rightarrow> bytes" where
  "link_bytes e = (case read_take 4097 (ze_reads e) of Inl _ \<Rightarrow> [] | Inr t \<Rightarrow> t)"

definition entry_declared :: "zip_entry \<Rightarrow> nat" where
  "entry_declared e =
     (if ze_is_dir e then 0 else if ze_is_symlink e then length (link_bytes e) else unat (ze_size e))"

definition entry_ok :: "limits \<Rightarrow> zip_entry \<Rightarrow> bool" where
  "entry_ok lim e \<longleftrightarrow>
     normalized_zip_path (ze_name e) (ze_is_dir e) (max_depth lim) = Inr (zip_path e)
     \<and> validate_zip_type (ze_unix_mode e) (ze_is_dir e) (ze_is_symlink e) = Inr ()
     \<and> (\<not> ze_is_dir e \<and> ze_is_symlink e \<longrightarrow> is_ok (preflight_link_target (zip_path e) e))"

abbreviation entry_key :: "zip_entry \<Rightarrow> bool \<times> string" where
  "entry_key e \<equiv> (ze_is_dir e, zip_path e)"

definition archive_ok :: "limits \<Rightarrow> zip_entry list \<Rightarrow> bool" where
  "archive_ok lim es \<longleftrightarrow>
     length es \<le> max_files lim \<and> list_all (entry_ok lim) es \<and> tree_ok (map entry_key es)
     \<and> sum_list (map entry_declared es) \<le> unat (max_uncompressed_bytes lim)"

lemma archive_ok_appendD: "archive_ok lim (xs @ ys) \<Longrightarrow> archive_ok lim xs"
  using tree_ok_appendD by (auto simp: archive_ok_def)

lemma entry_ok_parts: "entry_ok lim e \<Longrightarrow> \<forall>c\<in>set (split_path (zip_path e)). c \<noteq> []"
  unfolding entry_ok_def by (elim conjE) (rule normalized_zip_path_parts)

lemma preflight_link_target_Inr:
  "preflight_link_target p e = Inr t \<longleftrightarrow>
     read_take 4097 (ze_reads e) = Inr t \<and> length t \<le> 4096 \<and> is_utf8 t
     \<and> validate_symlink_target p t = Inr ()"
  by (auto simp: preflight_link_target_def result_simps)

lemma preflight_link_bytes: "preflight_link_target p e = Inr t \<Longrightarrow> link_bytes e = t"
  by (simp add: preflight_link_target_Inr link_bytes_def)

interpretation declared: byte_budget "charge_declared limit" limit for limit
  by unfold_locales (auto simp: charge_declared_def Let_def)

lemma preflight_entry_Inr:
  "preflight_entry lim guard s item = Inr s' \<longleftrightarrow>
     check_optional_initialization_cancel guard (pf_now s) = Inr () \<and>
     (\<exists>e tree. item = Inr e \<and> pf_count s < max_files lim \<and> entry_ok lim e
       \<and> zip_add (pf_tree s) (ze_is_dir e) (zip_path e) = Inr tree
       \<and> (if ze_is_dir e then pf_declared s' = pf_declared s
          else charge_declared (max_uncompressed_bytes lim) (pf_declared s) (of_nat (entry_declared e))
            = Inr (pf_declared s'))
       \<and> pf_now s' = Suc (pf_now s) \<and> pf_tree s' = tree \<and> pf_count s' = Suc (pf_count s))"
  (is "?l \<longleftrightarrow> ?r")
proof -
  have path: "normalized_zip_path (ze_name e) (ze_is_dir e) d = Inr p \<Longrightarrow> p = zip_path e" for e d p
    by (simp add: result_simps zip_path_def)
  have eq: "(s'' = s') \<longleftrightarrow> pf_now s'' = pf_now s' \<and> pf_tree s'' = pf_tree s'
      \<and> pf_declared s'' = pf_declared s' \<and> pf_count s'' = pf_count s'" for s'' :: preflight_state
    by (cases s'', cases s') auto
  show ?thesis
  proof
    assume ?l
    then obtain e p tree where e: "item = Inr e" "pf_count s < max_files lim"
      "check_optional_initialization_cancel guard (pf_now s) = Inr ()"
      "normalized_zip_path (ze_name e) (ze_is_dir e) (max_depth lim) = Inr p"
      "validate_zip_type (ze_unix_mode e) (ze_is_dir e) (ze_is_symlink e) = Inr ()"
      "zip_add (pf_tree s) (ze_is_dir e) p = Inr tree"
      by (auto simp: preflight_entry_def Let_def result_simps and_then_Inr_iff)
    with \<open>?l\<close> path [OF e(4)] show ?r
      by (auto simp: preflight_entry_def Let_def result_simps entry_ok_def entry_declared_def
          is_ok_iff preflight_link_bytes split: if_splits)
  next
    assume ?r
    then obtain e tree where e: "check_optional_initialization_cancel guard (pf_now s) = Inr ()"
      "item = Inr e" "pf_count s < max_files lim" "entry_ok lim e"
      "zip_add (pf_tree s) (ze_is_dir e) (zip_path e) = Inr tree"
      "if ze_is_dir e then pf_declared s' = pf_declared s
          else charge_declared (max_uncompressed_bytes lim) (pf_declared s) (of_nat (entry_declared e))
            = Inr (pf_declared s')"
      "pf_now s' = Suc (pf_now s)" "pf_tree s' = tree" "pf_count s' = Suc (pf_count s)" by blast
    then show ?l
      by (auto simp: preflight_entry_def Let_def entry_ok_def entry_declared_def is_ok_iff
          preflight_link_bytes eq split: if_splits)
  qed
qed

text \<open>The state after the entries \<open>ds\<close>.\<close>

definition preflight_after :: "limits \<Rightarrow> preflight_state \<Rightarrow> zip_entry list \<Rightarrow> bool" where
  "preflight_after lim s ds \<longleftrightarrow>
     zip.represents (pf_tree s) (map entry_key ds) \<and> archive_ok lim ds
     \<and> unat (pf_declared s) = sum_list (map entry_declared ds) \<and> pf_count s = length ds"

lemma entry_declared_word:
  "entry_ok lim e \<Longrightarrow> unat (of_nat (entry_declared e) :: u64) = entry_declared e"
proof -
  assume ok: "entry_ok lim e"
  have big: "4096 < (2 :: nat) ^ LENGTH(64)" by simp
  have "entry_declared e < 2 ^ LENGTH(64)"
  proof (cases "\<not> ze_is_dir e \<and> ze_is_symlink e")
    case True
    with ok obtain t where t: "preflight_link_target (zip_path e) e = Inr t"
      by (auto simp: entry_ok_def is_ok_iff)
    then have "length (link_bytes e) \<le> 4096"
      by (auto simp: preflight_link_target_Inr link_bytes_def)
    with True have "entry_declared e \<le> 4096" by (simp add: entry_declared_def)
    then show ?thesis using big by (rule le_less_trans)
  next
    case False
    have "unat (ze_size e) < 2 ^ LENGTH(64)" by (rule unsigned_less)
    with False show ?thesis unfolding entry_declared_def by (cases "ze_is_dir e") simp_all
  qed
  then show ?thesis by (simp add: unsigned_of_nat take_bit_nat_eq_self)
qed

lemma preflight_after_step:
  assumes after: "preflight_after lim s ds" and ok: "preflight_entry lim guard s item = Inr s'"
    and lim: "unat (max_uncompressed_bytes lim) < 2 ^ 64 - 1"
  shows "\<exists>e. item = Inr e \<and> preflight_after lim s' (ds @ [e])"
proof -
  from ok obtain e tree where e: "item = Inr e" "pf_count s < max_files lim" "entry_ok lim e"
      "zip_add (pf_tree s) (ze_is_dir e) (zip_path e) = Inr tree" "pf_tree s' = tree"
      "pf_count s' = Suc (pf_count s)"
    and bytes: "if ze_is_dir e then pf_declared s' = pf_declared s
          else charge_declared (max_uncompressed_bytes lim) (pf_declared s) (of_nat (entry_declared e))
            = Inr (pf_declared s')"
    by (auto simp: preflight_entry_Inr)
  from after have rep: "zip.represents (pf_tree s) (map entry_key ds)" and ds: "archive_ok lim ds"
    and sum: "unat (pf_declared s) = sum_list (map entry_declared ds)" and n: "pf_count s = length ds"
    by (simp_all add: preflight_after_def)
  note parts = entry_ok_parts [OF e(3)]
  have "tree_ok (map entry_key ds @ [entry_key e])"
    using zip.add_ok_iff [OF rep _ _ parts, of "ze_is_dir e"] ds e(4) by (simp add: archive_ok_def)
  moreover have "zip.represents tree (map entry_key ds @ [entry_key e])"
    using zip.represents_add [OF rep _ parts e(4)] by simp
  moreover have "unat (pf_declared s') = sum_list (map entry_declared ds) + entry_declared e
      \<and> unat (pf_declared s') \<le> unat (max_uncompressed_bytes lim)"
  proof (cases "ze_is_dir e")
    case True
    with bytes sum ds show ?thesis by (simp add: entry_declared_def archive_ok_def)
  next
    case False
    with bytes have "charge_declared (max_uncompressed_bytes lim) (pf_declared s)
      (of_nat (entry_declared e)) = Inr (pf_declared s')" by simp
    from declared.charge_exact [OF this lim] sum entry_declared_word [OF e(3)] show ?thesis by simp
  qed
  ultimately show ?thesis using e ds n by (simp add: preflight_after_def archive_ok_def)
qed

lemma preflight_step_ok:
  assumes after: "preflight_after lim s ds" and ok: "archive_ok lim (ds @ [e])"
    and check: "check_optional_initialization_cancel guard (pf_now s) = Inr ()"
  shows "\<exists>s'. preflight_entry lim guard s (Inr e) = Inr s'"
proof -
  from ok have e: "entry_ok lim e" by (simp add: archive_ok_def)
  note parts = entry_ok_parts [OF e]
  obtain tree where "zip_add (pf_tree s) (ze_is_dir e) (zip_path e) = Inr tree"
    using zip.add_ok_iff [of "pf_tree s" "map entry_key ds" "ze_is_dir e", OF _ _ _ parts] after ok
    by (auto simp: preflight_after_def archive_ok_def is_ok_iff)
  moreover have "\<exists>d. charge_declared (max_uncompressed_bytes lim) (pf_declared s)
      (of_nat (entry_declared e)) = Inr d"
    using declared.charge_ok [of "pf_declared s" "of_nat (entry_declared e)" "max_uncompressed_bytes lim"]
      after ok entry_declared_word [OF e] by (auto simp: preflight_after_def archive_ok_def)
  then obtain d where "if ze_is_dir e then d = pf_declared s else
      charge_declared (max_uncompressed_bytes lim) (pf_declared s) (of_nat (entry_declared e)) = Inr d"
    by (cases "ze_is_dir e") auto
  moreover have "pf_count s < max_files lim" using after ok
    by (simp add: preflight_after_def archive_ok_def)
  ultimately have "preflight_entry lim guard s (Inr e) = Inr
      \<lparr>pf_now = Suc (pf_now s), pf_tree = tree, pf_declared = d, pf_count = Suc (pf_count s)\<rparr>"
    using e check by (simp add: preflight_entry_Inr)
  then show ?thesis by blast
qed

lemma ex_map_Cons:
  "(\<exists>es. Inr e # items = map Inr es \<and> Q es) \<longleftrightarrow> (\<exists>es. items = map Inr es \<and> Q (e # es))"
  by (auto simp: Cons_eq_map_conv)

lemma all_less_Suc0: "(\<forall>i<Suc n. P i) \<longleftrightarrow> P 0 \<and> (\<forall>i<n. P (Suc i))"
  by (auto simp: less_Suc_eq_0_disj)

lemma preflight_loop:
  assumes "unat (max_uncompressed_bytes lim) < 2 ^ 64 - 1" and "preflight_after lim s ds"
  shows "(\<exists>s'. try_fold (preflight_entry lim guard) s items = Inr s' \<and> pf_now s' = now') \<longleftrightarrow>
    (\<exists>es. items = map Inr es \<and> (archive_ok lim (ds @ es) \<and> now' = pf_now s + length es
      \<and> (\<forall>i<length es. check_optional_initialization_cancel guard (pf_now s + i) = Inr ())))"
  using assms(2)
proof (induction items arbitrary: s ds)
  case Nil
  then show ?case by (auto simp: preflight_after_def)
next
  case (Cons item items)
  show ?case
  proof (cases "preflight_entry lim guard s item")
    case (Inr t)
    from preflight_after_step [OF Cons.prems Inr assms(1)] obtain e
      where e: "item = Inr e" "preflight_after lim t (ds @ [e])" by blast
    from Inr have now: "pf_now t = Suc (pf_now s)"
      and check: "check_optional_initialization_cancel guard (pf_now s) = Inr ()"
      unfolding preflight_entry_Inr by blast+
    show ?thesis using Cons.IH [OF e(2)] Inr unfolding e(1) ex_map_Cons
      by (simp add: now check all_less_Suc0)
  next
    case (Inl err)
    have "\<not> (archive_ok lim (ds @ e # zs) \<and> item = Inr e
      \<and> check_optional_initialization_cancel guard (pf_now s) = Inr ())" for e zs
      using archive_ok_appendD [of lim "ds @ [e]" zs] preflight_step_ok [OF Cons.prems, of e guard] Inl
      by auto
    then have "\<not> (item # items = map Inr es \<and> archive_ok lim (ds @ es)
      \<and> (\<forall>i<length es. check_optional_initialization_cancel guard (pf_now s + i) = Inr ()))" for es
      by (cases es) (auto simp: all_less_Suc0)
    with Inl show ?thesis by auto
  qed
qed

lemma preflight_accepts:
  assumes "unat (max_uncompressed_bytes lim) < 2 ^ 64 - 1"
  shows "preflight_source_archive lim guard now file = Inr now' \<longleftrightarrow>
    (\<exists>es. file = Inr (Inr (map Inr es)) \<and> archive_ok lim es \<and> now' = now + length es
      \<and> (\<forall>i<length es. check_optional_initialization_cancel guard (now + i) = Inr ()))"
proof -
  let ?s = "\<lparr>pf_now = now, pf_tree = empty_zip_tree, pf_declared = 0, pf_count = 0\<rparr>"
  have "preflight_after lim ?s []"
    by (simp add: preflight_after_def zip_empty archive_ok_def)
  from preflight_loop [OF assms this, of guard]
  show ?thesis
    by (auto simp: preflight_source_archive_def open_archive_def result_simps)
qed

text \<open>
  C20. The check before the extraction accepts an archive exactly when every entry can be read, there
  are at most \<^verbatim>\<open>sources.max_files\<close>, each has a safe path, a supported type and, if it is a link, a
  target inside the archive, the paths form a tree after ASCII case folding, the declared bytes
  stay within \<^verbatim>\<open>sources.max_uncompressed_bytes\<close>, and no check found the upload cancelled or expired.
\<close>

theorem preflight_source_archive_iff:
  assumes "unat (max_uncompressed_bytes lim) < 2 ^ 64 - 1"
  shows "preflight_source_archive lim guard now file = Inr now' \<longleftrightarrow>
    (\<exists>es. file = Inr (Inr (map Inr es)) \<and> archive_ok lim es \<and> now' = now + length es
      \<and> (\<forall>i<length es. check_optional_initialization_cancel guard (now + i) = Inr ()))"
  by (rule preflight_accepts [OF assms])

end
