(* ===== verification/Source_Extraction.thy ===== *)
theory Source_Extraction
  imports Source_Archive
begin

text \<open>
  Correctness of the extraction (\<^verbatim>\<open>extract_source_archive_inner\<close> of \<^verbatim>\<open>src/build.rs\<close>): on an
  archive that passed the check the file system never interferes, whether it distinguishes case or
  not, so the extraction is its reference without a file system, and the bytes written stay
  within the limit.
\<close>

unbundle bit_operations_syntax

section \<open>Extraction meets no obstacle\<close>

text \<open>How a file system may identify names: at most as coarsely as ASCII case folding.\<close>

definition name_fold :: "(string \<Rightarrow> string) \<Rightarrow> bool" where
  "name_fold f \<longleftrightarrow> (\<forall>x y. f x = f y \<longrightarrow> to_ascii_lowercase x = to_ascii_lowercase y)"

fun is_dir_object :: "object \<Rightarrow> bool" where
  "is_dir_object (ODir _) = True"
| "is_dir_object _ = False"

abbreviation path_key :: "string list \<Rightarrow> string" where
  "path_key q \<equiv> to_ascii_lowercase (join_path q)"

text \<open>A relative path of plain names.\<close>

definition plain_path :: "string list \<Rightarrow> bool" where
  "plain_path q \<longleftrightarrow> q \<noteq> [] \<and> (\<forall>c\<in>set q. plain_name c \<and> CHR ''/'' \<notin> set c)"

definition ws_inv :: "string set \<Rightarrow> string set \<Rightarrow> workspace \<Rightarrow> bool" where
  "ws_inv F D ws \<longleftrightarrow>
     (\<forall>(q, ob)\<in>set ws. plain_path q \<and> (if is_dir_object ob then path_key q \<in> D else path_key q \<in> F))"

abbreviation files_of :: "workspace \<Rightarrow> workspace" where
  "files_of ws \<equiv> filter (\<lambda>x. \<not> is_dir_object (snd x)) ws"

lemma name_fold_key:
  assumes "name_fold f" and "map f q = map f p"
  shows "path_key q = path_key p"
proof -
  have one: "f x = f y \<Longrightarrow> to_ascii_lowercase x = to_ascii_lowercase y" for x y
    using assms(1) unfolding name_fold_def by blast
  have "length q = length p" using arg_cong [OF assms(2), of length] by simp
  then have "map to_ascii_lowercase q = map to_ascii_lowercase p"
    using assms(2) by (induction q p rule: list_induct2) (auto dest: one)
  then show ?thesis by (simp add: join_with_lower)
qed

lemma lookup_SomeE:
  assumes "lookup f ws p = Some ob"
  obtains q where "(q, ob) \<in> set ws" and "map f q = map f p"
  using assms by (auto simp: lookup_def find_Some_iff) (metis nth_mem)

lemma lookup_dir:
  assumes "name_fold f" and "ws_inv F D ws" and "F \<inter> D = {}" and "path_key p \<in> D"
    and "lookup f ws p = Some ob"
  shows "is_dir_object ob"
proof -
  from assms(5) obtain q where q: "(q, ob) \<in> set ws" "map f q = map f p" by (rule lookup_SomeE)
  from name_fold_key [OF assms(1) q(2)] assms(2-4) q(1) show ?thesis
    by (auto simp: ws_inv_def split: if_splits)
qed

lemma lookup_free:
  assumes "name_fold f" and "ws_inv F D ws" and "path_key p \<notin> F \<union> D"
  shows "lookup f ws p = None"
proof (cases "lookup f ws p")
  case (Some ob)
  then obtain q where q: "(q, ob) \<in> set ws" "map f q = map f p" by (rule lookup_SomeE)
  from name_fold_key [OF assms(1) q(2)] assms(2,3) q(1) show ?thesis
    by (auto simp: ws_inv_def split: if_splits)
qed

lemma create_dirs_ok:
  assumes "name_fold f" and "ws_inv F D ws" and "F \<inter> D = {}"
    and "\<forall>k<length cs. path_key (done @ take (Suc k) cs) \<in> D"
    and "\<forall>c\<in>set (done @ cs). plain_name c \<and> CHR ''/'' \<notin> set c"
  shows "\<exists>ws'. create_dirs f ws done cs = Inr ws' \<and> ws_inv F D ws' \<and> files_of ws' = files_of ws"
  using assms(2,4,5)
proof (induction cs arbitrary: ws "done")
  case Nil
  then show ?case by simp
next
  case (Cons c cs)
  let ?p = "done @ [c]"
  have key: "path_key ?p \<in> D" using Cons.prems(2) by (auto simp: all_less_Suc0)
  have rest: "\<forall>k<length cs. path_key (?p @ take (Suc k) cs) \<in> D"
    using Cons.prems(2) by (auto simp: all_less_Suc0)
  show ?case
  proof (cases "lookup f ws ?p")
    case None
    have "ws_inv F D ((?p, ODir None) # ws)" using Cons.prems(1,3) key
      by (simp add: ws_inv_def plain_path_def)
    from Cons.IH [OF this rest] Cons.prems(3) None show ?thesis by (simp add: Let_def)
  next
    case (Some ob)
    with lookup_dir [OF assms(1) Cons.prems(1) assms(3) key] obtain m where "ob = ODir m"
      by (cases ob) auto
    with Cons.IH [OF Cons.prems(1) rest] Cons.prems(3) Some show ?thesis by (simp add: Let_def)
  qed
qed

lemma set_dir_mode_ok:
  assumes "name_fold f" and "ws_inv F D ws" and "F \<inter> D = {}" and "path_key p \<in> D"
  shows "ws_inv F D (set_dir_mode f ws p m) \<and> files_of (set_dir_mode f ws p m) = files_of ws"
  using assms(2)
proof (induction ws)
  case Nil
  then show ?case by (simp add: set_dir_mode_def ws_inv_def)
next
  case (Cons x ws)
  obtain q ob where x: "x = (q, ob)" by (cases x)
  have dir: "is_dir_object ob" if "map f q = map f p"
    using name_fold_key [OF assms(1) that] Cons.prems assms(3,4) x
    by (auto simp: ws_inv_def split: if_splits)
  have "path_key q \<in> D" if "map f q = map f p" using name_fold_key [OF assms(1) that] assms(4) by simp
  with Cons dir x show ?case by (auto simp: set_dir_mode_def ws_inv_def)
qed

lemma tree_disjoint:
  assumes ok: "tree_ok xs"
  shows "tree_files xs \<inter> tree_dirs xs = {}"
proof (rule equals0I)
  fix a
  assume "a \<in> tree_files xs \<inter> tree_dirs xs"
  then obtain x where x: "x \<in> set xs" "\<not> fst x" "a = to_ascii_lowercase (snd x)" and "a \<in> tree_dirs xs"
    by (auto simp: tree_files_def)
  from this(4) consider y where "y \<in> set xs" "fst y" "a = to_ascii_lowercase (snd y)"
    | y where "y \<in> set xs" "a \<in> set (ancestors (to_ascii_lowercase (snd y)))"
    unfolding tree_dirs_def by auto
  then show False
  proof cases
    case 1
    from ok have "inj_on (\<lambda>x. to_ascii_lowercase (snd x)) (set xs)"
      by (simp add: tree_ok_def distinct_map)
    with 1 x have "x = y" by (simp add: inj_on_def)
    with 1 x show False by simp
  next
    case 2
    with ok x show False unfolding tree_ok_def by blast
  qed
qed

lemma prefix_keys:
  assumes "k < length (split_path p) - 1"
  shows "path_key (take (Suc k) (split_path p)) \<in> set (ancestors (to_ascii_lowercase p))"
proof -
  have "join_path (take (Suc k) (split_path p)) \<in> set (ancestors p)"
    unfolding ancestors_def set_map by (rule image_eqI [where x = "Suc k"]) (use assms in auto)
  then show ?thesis by (simp add: ancestors_lower)
qed

text \<open>
  The reference: the same checks, reads and budget, and the files and links that result, with no
  file system underneath.
\<close>

definition unpack_entry ::
  "limits \<Rightarrow> guard \<Rightarrow> nat \<times> u64 \<times> workspace \<Rightarrow> zip_entry \<Rightarrow> (nat \<times> u64 \<times> workspace, build_error) result"
  where
  "unpack_entry lim guard = (\<lambda>(now, bytes, objs) e.
     and_then (check_optional_initialization_cancel guard now) (\<lambda>_.
     if ze_is_dir e then Inr (Suc now, bytes, objs)
     else if ze_is_symlink e then
       and_then (charge_extracted ''extracted size exceeds sources.max_uncompressed_bytes''
         (max_uncompressed_bytes lim) bytes (of_nat (length (link_bytes e)))) (\<lambda>bytes'.
       Inr (Suc now, bytes', (split_path (zip_path e), OLink (link_bytes e)) # objs))
     else
       and_then (extract_file_bytes (max_uncompressed_bytes lim) guard (Suc now) bytes [] (ze_reads e))
         (\<lambda>(now', bytes', written).
       Inr (now', bytes', (split_path (zip_path e),
         OFile written (map_option (\<lambda>m. m AND 0x1FF) (ze_unix_mode e))) # objs))))"

definition unpack :: "limits \<Rightarrow> guard \<Rightarrow> nat \<Rightarrow> zip_entry list \<Rightarrow> (nat \<times> u64 \<times> workspace, build_error) result" where
  "unpack lim guard now es = try_fold (unpack_entry lim guard) (now, 0, []) es"

definition abs_extract :: "extract_state \<Rightarrow> nat \<times> u64 \<times> workspace" where
  "abs_extract s = (ex_now s, ex_bytes s, files_of (ex_ws s))"

definition map_ok :: "('a \<Rightarrow> 'b) \<Rightarrow> ('a, 'e) result \<Rightarrow> ('b, 'e) result" where
  "map_ok g r = and_then r (\<lambda>x. Inr (g x))"

lemma map_ok_and_then: "map_ok g (and_then r k) = and_then r (\<lambda>x. map_ok g (k x))"
  by (simp add: map_ok_def and_then_assoc)

lemma map_ok_Inr [simp]: "map_ok g (Inr x) = Inr (g x)"
  by (simp add: map_ok_def)

lemma and_then_cong: "(\<And>x. r = Inr x \<Longrightarrow> f x = g x) \<Longrightarrow> and_then r f = and_then r g"
  by (cases r) simp_all

text \<open>What holds of the state after the entries \<open>ds\<close>.\<close>

definition extract_after :: "extract_state \<Rightarrow> zip_entry list \<Rightarrow> bool" where
  "extract_after s ds \<longleftrightarrow>
     ws_inv (tree_files (map entry_key ds)) (tree_dirs (map entry_key ds)) (ex_ws s)"

lemma ws_inv_mono: "ws_inv F D ws \<Longrightarrow> F \<subseteq> F' \<Longrightarrow> D \<subseteq> D' \<Longrightarrow> ws_inv F' D' ws"
  unfolding ws_inv_def by (force split: if_splits)

lemma join_split_path [simp]: "path_key (split_path p) = to_ascii_lowercase p"
  by simp

lemma entry_plain_path:
  assumes "archive_ok lim (ds @ [e])"
  shows "plain_path (split_path (zip_path e))"
proof -
  from assms have "normalized_zip_path (ze_name e) (ze_is_dir e) (max_depth lim) = Inr (zip_path e)"
    by (simp add: archive_ok_def entry_ok_def)
  then show ?thesis unfolding normalized_zip_path_iff plain_path_def
    using split_on_no_sep [of _ "CHR ''/''" "zip_path e"] by auto
qed

lemma extract_dir_step:
  assumes nf: "name_fold f" and ok: "archive_ok lim (ds @ [e])" and after: "extract_after s ds"
    and dir: "ze_is_dir e"
  shows "\<exists>ws. create_dir_all f (ex_ws s) (split_path (zip_path e)) = Inr ws
    \<and> (let ws' = (case ze_unix_mode e of None \<Rightarrow> ws
           | Some m \<Rightarrow> set_dir_mode f ws (split_path (zip_path e)) (m AND 0x1FF)) in
       ws_inv (tree_files (map entry_key (ds @ [e]))) (tree_dirs (map entry_key (ds @ [e]))) ws'
       \<and> files_of ws' = files_of (ex_ws s))"
proof -
  let ?p = "split_path (zip_path e)" and ?xs = "map entry_key ds @ [entry_key e]"
  let ?F = "tree_files ?xs" and ?D = "tree_dirs ?xs"
  from ok have tree: "tree_ok ?xs" by (simp add: archive_ok_def)
  note disj = tree_disjoint [OF tree]
  have inv: "ws_inv ?F ?D (ex_ws s)"
    by (rule ws_inv_mono [OF after [unfolded extract_after_def]]) (auto simp: tree_snoc)
  have own: "to_ascii_lowercase (zip_path e) \<in> ?D" using dir by (simp add: tree_snoc)
  have "\<forall>k<length ?p. path_key ([] @ take (Suc k) ?p) \<in> ?D"
  proof (intro allI impI)
    fix k
    assume k: "k < length ?p"
    show "path_key ([] @ take (Suc k) ?p) \<in> ?D"
    proof (cases "k < length ?p - 1")
      case True
      from prefix_keys [OF this] show ?thesis by (simp add: tree_snoc)
    next
      case False
      with k own show ?thesis by simp
    qed
  qed
  from create_dirs_ok [OF nf inv disj this] entry_plain_path [OF ok] obtain ws
    where ws: "create_dir_all f (ex_ws s) ?p = Inr ws" "ws_inv ?F ?D ws" "files_of ws = files_of (ex_ws s)"
    by (auto simp: create_dir_all_def plain_path_def)
  then show ?thesis using set_dir_mode_ok [OF nf ws(2) disj, of ?p] own
    by (auto simp: Let_def split: option.splits)
qed

lemma extract_file_step:
  assumes nf: "name_fold f" and ok: "archive_ok lim (ds @ [e])" and after: "extract_after s ds"
    and reg: "\<not> ze_is_dir e"
  shows "\<exists>ws. create_dir_all f (ex_ws s) (butlast (split_path (zip_path e))) = Inr ws
    \<and> files_of ws = files_of (ex_ws s)
    \<and> lookup f ws (split_path (zip_path e)) = None
    \<and> (\<forall>ob. \<not> is_dir_object ob \<longrightarrow>
        ws_inv (tree_files (map entry_key (ds @ [e]))) (tree_dirs (map entry_key (ds @ [e])))
          ((split_path (zip_path e), ob) # ws))"
proof -
  let ?p = "split_path (zip_path e)" and ?xs = "map entry_key ds @ [entry_key e]"
  let ?F = "tree_files (map entry_key ds)" and ?D = "tree_dirs ?xs"
  from ok have tree: "tree_ok ?xs" by (simp add: archive_ok_def)
  from tree_disjoint [OF tree] have disj: "?F \<inter> ?D = {}" by (auto simp: tree_snoc)
  have inv: "ws_inv ?F ?D (ex_ws s)"
    by (rule ws_inv_mono [OF after [unfolded extract_after_def]]) (auto simp: tree_snoc)
  have "path_key ([] @ take (Suc k) (butlast ?p)) \<in> ?D" if "k < length (butlast ?p)" for k
    using prefix_keys [of k "zip_path e"] that by (simp add: tree_snoc take_butlast)
  with create_dirs_ok [OF nf inv disj, of "butlast ?p" "[]"] entry_plain_path [OF ok] obtain ws
    where ws: "create_dir_all f (ex_ws s) (butlast ?p) = Inr ws" "ws_inv ?F ?D ws"
      "files_of ws = files_of (ex_ws s)"
    by (auto simp: create_dir_all_def plain_path_def dest: in_set_butlastD)
  have "to_ascii_lowercase (zip_path e) \<notin> tree_seen (map entry_key ds)"
    and d: "to_ascii_lowercase (zip_path e) \<notin> tree_dirs (map entry_key ds)"
    using tree [unfolded tree_ok_snoc] reg by blast+
  then have "to_ascii_lowercase (zip_path e) \<notin> ?F" by (auto simp: tree_seen_def tree_files_def)
  moreover have "to_ascii_lowercase (zip_path e) \<notin> ?D"
    using d reg not_own_ancestor by (simp add: tree_snoc)
  ultimately have "lookup f ws ?p = None" by (intro lookup_free [OF nf ws(2)]) simp
  moreover have "ws_inv (tree_files ?xs) ?D ((?p, ob) # ws)" if "\<not> is_dir_object ob" for ob
  proof -
    have "ws_inv (tree_files ?xs) ?D ws"
      by (rule ws_inv_mono [OF ws(2)]) (auto simp: tree_snoc)
    with that reg entry_plain_path [OF ok] show ?thesis by (simp add: ws_inv_def tree_snoc)
  qed
  ultimately show ?thesis using ws by auto
qed

lemma extract_entry_refines:
  assumes nf: "name_fold f" and ok: "archive_ok lim (ds @ [e])" and after: "extract_after s ds"
  shows "map_ok abs_extract (extract_entry f lim guard s (Inr e)) = unpack_entry lim guard (abs_extract s) e
    \<and> (\<forall>s'. extract_entry f lim guard s (Inr e) = Inr s' \<longrightarrow> extract_after s' (ds @ [e]))"
proof -
  from ok have e: "entry_ok lim e" by (simp add: archive_ok_def)
  then have norm: "normalized_zip_path (ze_name e) (ze_is_dir e) (max_depth lim) = Inr (zip_path e)"
    by (simp add: entry_ok_def)
  show ?thesis
  proof (cases "ze_is_dir e")
    case True
    from extract_dir_step [OF nf ok after True] obtain ws where
      "create_dir_all f (ex_ws s) (split_path (zip_path e)) = Inr ws"
      "let ws' = (case ze_unix_mode e of None \<Rightarrow> ws
           | Some m \<Rightarrow> set_dir_mode f ws (split_path (zip_path e)) (m AND 0x1FF)) in
       ws_inv (tree_files (map entry_key (ds @ [e]))) (tree_dirs (map entry_key (ds @ [e]))) ws'
       \<and> files_of ws' = files_of (ex_ws s)" by blast
    with True norm show ?thesis
      by (auto simp: extract_entry_def unpack_entry_def abs_extract_def map_ok_and_then Let_def
          extract_after_def and_then_Inr_iff simp del: map_append)
  next
    case False
    from extract_file_step [OF nf ok after False] obtain ws where
      ws: "create_dir_all f (ex_ws s) (butlast (split_path (zip_path e))) = Inr ws"
        "files_of ws = files_of (ex_ws s)" "lookup f ws (split_path (zip_path e)) = None"
        "\<And>ob. \<not> is_dir_object ob \<Longrightarrow>
        ws_inv (tree_files (map entry_key (ds @ [e]))) (tree_dirs (map entry_key (ds @ [e])))
          ((split_path (zip_path e), ob) # ws)" by blast
    show ?thesis
    proof (cases "ze_is_symlink e")
      case True
      with e False obtain t where t: "read_take 4097 (ze_reads e) = Inr t" "is_utf8 t"
        "validate_symlink_target (zip_path e) t = Inr ()"
        by (auto simp: entry_ok_def is_ok_iff preflight_link_target_Inr)
      with True False norm ws show ?thesis
        by (auto simp: extract_entry_def unpack_entry_def abs_extract_def map_ok_and_then Let_def
            extract_after_def and_then_Inr_iff create_object_def link_bytes_def simp del: map_append)
    next
      case link: False
      with False norm ws show ?thesis
        by (auto simp: extract_entry_def unpack_entry_def abs_extract_def map_ok_and_then Let_def
            extract_after_def and_then_Inr_iff create_object_def split: prod.splits
            intro!: and_then_cong simp del: map_append)
    qed
  qed
qed

lemma extract_loop_refines:
  assumes nf: "name_fold f" and ok: "archive_ok lim (ds @ es)" and after: "extract_after s ds"
  shows "map_ok abs_extract (try_fold (extract_entry f lim guard) s (map Inr es))
      = try_fold (unpack_entry lim guard) (abs_extract s) es
    \<and> (\<forall>s'. try_fold (extract_entry f lim guard) s (map Inr es) = Inr s' \<longrightarrow> extract_after s' (ds @ es))"
  using ok after
proof (induction es arbitrary: s ds)
  case Nil
  then show ?case by simp
next
  case (Cons e es)
  have "archive_ok lim ((ds @ [e]) @ es)" using Cons.prems(1) by simp
  note rest = Cons.IH [OF this] and one = extract_entry_refines [OF nf archive_ok_appendD [OF this] Cons.prems(2)]
  show ?case
  proof (cases "extract_entry f lim guard s (Inr e)")
    case (Inl err)
    with one [of guard] show ?thesis by (simp add: map_ok_def) (metis and_then_simps(1))
  next
    case (Inr t)
    with one [of guard] have "unpack_entry lim guard (abs_extract s) e = Inr (abs_extract t)"
      and "extract_after t (ds @ [e])" by (metis map_ok_Inr, simp)
    with rest [of t] Inr show ?thesis by simp
  qed
qed

lemma extract_after_empty: "extract_after \<lparr>ex_now = n, ex_bytes = 0, ex_ws = []\<rparr> []"
  by (simp add: extract_after_def ws_inv_def)

definition archive_entries :: "zip_file \<Rightarrow> zip_entry list" where
  "archive_entries archive =
     (case archive of
        Inr (Inr items) \<Rightarrow> List.map_filter (\<lambda>r. case r of Inl _ \<Rightarrow> None | Inr e \<Rightarrow> Some e) items
      | _ \<Rightarrow> [])"

lemma archive_entries_map [simp]: "archive_entries (Inr (Inr (map Inr es))) = es"
  by (induction es) (simp_all add: archive_entries_def List.map_filter_def)

lemma extract_is_unpack:
  assumes "name_fold f" and "unat (max_uncompressed_bytes lim) < 2 ^ 64 - 1"
  shows "map_ok abs_extract (extract_source_archive_inner f lim guard archive archive)
    = and_then (check_optional_initialization_cancel guard 0) (\<lambda>_.
      and_then (preflight_source_archive lim guard 1 archive) (\<lambda>now.
      unpack lim guard now (archive_entries archive)))"
proof -
  have "map_ok abs_extract (and_then (open_archive archive) (\<lambda>items.
        try_fold (extract_entry f lim guard) \<lparr>ex_now = now, ex_bytes = 0, ex_ws = []\<rparr> items))
      = unpack lim guard now (archive_entries archive)"
    if "preflight_source_archive lim guard 1 archive = Inr now" for now
  proof -
    from that obtain es where es: "archive = Inr (Inr (map Inr es))" "archive_ok lim ([] @ es)"
      unfolding preflight_accepts [OF assms(2)] by auto
    from extract_loop_refines [OF assms(1) es(2) extract_after_empty, of guard now] es(1)
    show ?thesis by (simp add: open_archive_def unpack_def abs_extract_def)
  qed
  then show ?thesis unfolding extract_source_archive_inner_def map_ok_and_then
    by (intro and_then_cong) (simp add: map_ok_and_then)
qed


section \<open>Bytes\<close>

interpretation extracted: byte_budget "charge_extracted m limit" limit for m limit
  by unfold_locales (auto simp: charge_extracted_def Let_def)

text \<open>A read never returns more than the 8192-byte buffer.\<close>

definition reads_fit :: "zip_entry \<Rightarrow> bool" where
  "reads_fit e \<longleftrightarrow> (\<forall>b. Inr b \<in> set (ze_reads e) \<longrightarrow> length b \<le> 8192)"

fun object_bytes :: "object \<Rightarrow> nat" where
  "object_bytes (ODir _) = 0"
| "object_bytes (OFile c _) = length c"
| "object_bytes (OLink t) = length t"

definition workspace_bytes :: "workspace \<Rightarrow> nat" where
  "workspace_bytes ws = sum_list (map (\<lambda>x. object_bytes (snd x)) ws)"

lemma unat_of_small: "n \<le> 8192 \<Longrightarrow> unat (of_nat n :: u64) = n"
  by (simp add: unsigned_of_nat take_bit_nat_eq_self)

lemma extract_file_bytes_exact:
  assumes "unat limit < 2 ^ 64 - 1"
  shows "extract_file_bytes limit guard now extracted written rs = Inr (now', extracted', written')
    \<Longrightarrow> \<forall>b. Inr b \<in> set rs \<longrightarrow> length b \<le> 8192 \<Longrightarrow> unat extracted \<le> unat limit
    \<Longrightarrow> \<exists>bs. read_bytes rs = Inr bs \<and> written' = written @ bs
      \<and> unat extracted' = unat extracted + length bs \<and> unat extracted' \<le> unat limit"
proof (induction rs arbitrary: now extracted written)
  case Nil
  then show ?case by (auto simp: result_simps)
next
  case (Cons r rs)
  then obtain bs where r: "r = Inr bs" by (auto simp: result_simps)
  show ?case
  proof (cases "bs = []")
    case True
    with Cons.prems r show ?thesis by (auto simp: result_simps)
  next
    case False
    with Cons.prems(1) r obtain c where c:
      "charge_extracted (extracted_limit limit) limit extracted (of_nat (length bs)) = Inr c"
      "extract_file_bytes limit guard (Suc now) c (written @ bs) rs = Inr (now', extracted', written')"
      by (auto simp: result_simps)
    have "unat (of_nat (length bs) :: u64) = length bs" using Cons.prems(2) r by (intro unat_of_small) simp
    with extracted.charge_exact [OF c(1) assms] have
      e: "unat c = unat extracted + length bs" "unat c \<le> unat limit" by simp_all
    have "\<forall>b. Inr b \<in> set rs \<longrightarrow> length b \<le> 8192" using Cons.prems(2) by simp
    from Cons.IH [OF c(2) this e(2)] e r False show ?thesis by auto
  qed
qed

lemma length_read_take: "read_take n rs = Inr bs \<Longrightarrow> length bs \<le> n"
proof (induction n rs arbitrary: bs rule: read_take.induct)
  case (2 n r rs)
  then show ?case by (fastforce simp: result_simps split: if_splits sum.splits)
qed simp

lemma length_link_bytes: "length (link_bytes e) \<le> 4097"
  using length_read_take by (auto simp: link_bytes_def split: sum.splits)

lemma unpack_entry_bytes:
  assumes lim: "unat (max_uncompressed_bytes lim) < 2 ^ 64 - 1" and "reads_fit e"
    and step: "unpack_entry lim guard (now, b, objs) e = Inr (now', b', objs')"
    and inv: "unat b = workspace_bytes objs" "unat b \<le> unat (max_uncompressed_bytes lim)"
  shows "unat b' = workspace_bytes objs' \<and> unat b' \<le> unat (max_uncompressed_bytes lim)"
proof (cases "ze_is_dir e")
  case True
  with step inv show ?thesis by (auto simp: unpack_entry_def result_simps)
next
  case False
  show ?thesis
  proof (cases "ze_is_symlink e")
    case True
    with step False have c: "charge_extracted ''extracted size exceeds sources.max_uncompressed_bytes''
         (max_uncompressed_bytes lim) b (of_nat (length (link_bytes e))) = Inr b'"
      and o: "objs' = (split_path (zip_path e), OLink (link_bytes e)) # objs"
      unfolding unpack_entry_def by (auto simp: and_then_Inr_iff)
    have "unat (of_nat (length (link_bytes e)) :: u64) = length (link_bytes e)"
      using length_link_bytes [of e] by (intro unat_of_small) simp
    with extracted.charge_exact [OF c lim] o inv show ?thesis by (simp add: workspace_bytes_def)
  next
    case link: False
    with step False obtain w m where
      x: "extract_file_bytes (max_uncompressed_bytes lim) guard (Suc now) b [] (ze_reads e) = Inr (now', b', w)"
      and o: "objs' = (split_path (zip_path e), OFile w m) # objs"
      unfolding unpack_entry_def by (auto simp: and_then_Inr_iff)
    from extract_file_bytes_exact [OF lim x _ inv(2)] assms(2)
    have "unat b' = unat b + length w" "unat b' \<le> unat (max_uncompressed_bytes lim)"
      by (auto simp: reads_fit_def)
    with o inv(1) show ?thesis by (simp add: workspace_bytes_def)
  qed
qed

lemma unpack_bytes:
  assumes lim: "unat (max_uncompressed_bytes lim) < 2 ^ 64 - 1"
  shows "try_fold (unpack_entry lim guard) (now, b, objs) es = Inr (now', b', objs')
    \<Longrightarrow> list_all reads_fit es \<Longrightarrow> unat b = workspace_bytes objs
    \<Longrightarrow> unat b \<le> unat (max_uncompressed_bytes lim)
    \<Longrightarrow> unat b' = workspace_bytes objs' \<and> unat b' \<le> unat (max_uncompressed_bytes lim)"
proof (induction es arbitrary: now b objs)
  case (Cons e es)
  from Cons.prems(1) obtain n c os where step: "unpack_entry lim guard (now, b, objs) e = Inr (n, c, os)"
    and rest: "try_fold (unpack_entry lim guard) (n, c, os) es = Inr (now', b', objs')"
    by (auto simp: and_then_Inr_iff)
  from unpack_entry_bytes [OF lim _ step Cons.prems(3,4)] Cons.prems(2) Cons.IH [OF rest]
  show ?case by simp
qed simp

lemma workspace_bytes_files: "workspace_bytes (files_of ws) = workspace_bytes ws"
proof (induction ws)
  case (Cons x ws)
  then show ?case by (cases "snd x") (auto simp: workspace_bytes_def)
qed (simp add: workspace_bytes_def)

text \<open>
  C6. Whatever sizes an archive declares, a finished extraction has written at most
  \<^verbatim>\<open>sources.max_uncompressed_bytes\<close> bytes of file contents and link targets, and its counter is
  exactly their number.
\<close>

theorem extraction_bytes_bounded:
  assumes "extract_source_archive_inner f lim guard archive archive = Inr s"
    and "name_fold f" and "unat (max_uncompressed_bytes lim) < 2 ^ 64 - 1"
    and "list_all reads_fit (archive_entries archive)"
  shows "workspace_bytes (ex_ws s) = unat (ex_bytes s)
    \<and> unat (ex_bytes s) \<le> unat (max_uncompressed_bytes lim)"
proof -
  from extract_is_unpack [OF assms(2,3), of guard archive] assms(1) obtain now where
    "try_fold (unpack_entry lim guard) (now, 0, []) (archive_entries archive)
      = Inr (ex_now s, ex_bytes s, files_of (ex_ws s))"
    by (auto simp: abs_extract_def unpack_def and_then_Inr_iff eq_commute [of "Inr _"])
  from unpack_bytes [OF assms(3) this assms(4)] show ?thesis
    by (simp add: workspace_bytes_files) (simp add: workspace_bytes_def)
qed

section \<open>The resulting tree\<close>

lemma tree_dirs_closed:
  assumes "k \<in> tree_files xs \<union> tree_dirs xs" and "a \<in> set (ancestors k)"
  shows "a \<in> tree_dirs xs"
proof -
  from assms(1) obtain x where x: "x \<in> set xs"
    and "k = to_ascii_lowercase (snd x) \<or> k \<in> set (ancestors (to_ascii_lowercase (snd x)))"
    by (auto simp: tree_files_def tree_dirs_def)
  with assms(2) have "a \<in> set (ancestors (to_ascii_lowercase (snd x)))"
    unfolding in_ancestors_iff by (auto dest: prefix_order.less_trans)
  with x show ?thesis by (auto simp: tree_dirs_def)
qed

lemma split_path_key:
  assumes "plain_path q"
  shows "split_path (path_key q) = map to_ascii_lowercase q"
  using assms split_join [of q "CHR ''/''"] by (simp add: plain_path_def split_on_lower)

lemma unpack_links:
  "try_fold (unpack_entry lim guard) (now, b, objs) es = Inr (now', b', objs')
    \<Longrightarrow> list_all (entry_ok lim) es
    \<Longrightarrow> (q, OLink t) \<in> set objs'
    \<Longrightarrow> (q, OLink t) \<in> set objs \<or> (\<exists>p. q = split_path p \<and> validate_symlink_target p t = Inr ())"
proof (induction es arbitrary: now b objs)
  case (Cons e es)
  from Cons.prems(1) obtain n c os where step: "unpack_entry lim guard (now, b, objs) e = Inr (n, c, os)"
    and rest: "try_fold (unpack_entry lim guard) (n, c, os) es = Inr (now', b', objs')"
    by (auto simp: and_then_Inr_iff)
  have "(q, OLink t) \<in> set objs \<or> (\<exists>p. q = split_path p \<and> validate_symlink_target p t = Inr ())"
    if "(q, OLink t) \<in> set os"
  proof (cases "\<not> ze_is_dir e \<and> ze_is_symlink e")
    case True
    with Cons.prems(2) have "validate_symlink_target (zip_path e) (link_bytes e) = Inr ()"
      by (auto simp: entry_ok_def is_ok_iff preflight_link_target_Inr link_bytes_def)
    moreover from True step have "os = (split_path (zip_path e), OLink (link_bytes e)) # objs"
      unfolding unpack_entry_def by (auto simp: and_then_Inr_iff)
    ultimately show ?thesis using that by auto
  next
    case False
    with step that show ?thesis unfolding unpack_entry_def
      by (auto simp: and_then_Inr_iff split: if_splits)
  qed
  with Cons.IH [OF rest] Cons.prems(2,3) show ?case by auto
qed simp

text \<open>
  C5. After a finished extraction every object below the workspace has a path of plain names, no
  object lies below a file or a link, even when names are compared without case, and every link's
  target, followed from the link's directory, stays inside the workspace.
\<close>

theorem extraction_tree_safe:
  assumes run: "extract_source_archive_inner f lim guard archive archive = Inr s"
    and nf: "name_fold f" and lim: "unat (max_uncompressed_bytes lim) < 2 ^ 64 - 1"
    and obj: "(q, ob) \<in> set (ex_ws s)"
  shows "plain_path q
    \<and> (\<forall>(q', ob')\<in>set (ex_ws s). \<not> is_dir_object ob \<longrightarrow>
         \<not> strict_prefix (map to_ascii_lowercase q) (map to_ascii_lowercase q'))
    \<and> (\<forall>t. ob = OLink t \<longrightarrow> follow (butlast q) (components t) \<noteq> None)"
proof -
  from run obtain now where pre: "preflight_source_archive lim guard 1 archive = Inr now"
    by (auto simp: extract_source_archive_inner_def and_then_Inr_iff)
  then obtain es where es: "archive = Inr (Inr (map Inr es))" "archive_ok lim es"
    unfolding preflight_accepts [OF lim] by blast
  from run pre es(1) have loop: "try_fold (extract_entry f lim guard)
      \<lparr>ex_now = now, ex_bytes = 0, ex_ws = []\<rparr> (map Inr es) = Inr s"
    by (auto simp: extract_source_archive_inner_def open_archive_def and_then_Inr_iff)
  let ?F = "tree_files (map entry_key es)" and ?D = "tree_dirs (map entry_key es)"
  from extract_loop_refines [OF nf _ extract_after_empty, of lim es guard now] es(2) loop
  have inv: "ws_inv ?F ?D (ex_ws s)"
    and ref: "try_fold (unpack_entry lim guard) (now, 0, []) es = Inr (ex_now s, ex_bytes s, files_of (ex_ws s))"
    by (simp_all add: extract_after_def abs_extract_def)
  from inv obj have plain: "plain_path q" by (auto simp: ws_inv_def)
  have "\<not> strict_prefix (map to_ascii_lowercase q) (map to_ascii_lowercase q')"
    if o': "(q', ob') \<in> set (ex_ws s)" and f: "\<not> is_dir_object ob" for q' ob'
  proof
    assume "strict_prefix (map to_ascii_lowercase q) (map to_ascii_lowercase q')"
    moreover from inv o' have "plain_path q'" and k': "path_key q' \<in> ?F \<union> ?D"
      by (auto simp: ws_inv_def split: if_splits)
    ultimately have "path_key q \<in> set (ancestors (path_key q'))"
      using split_path_key [of q] split_path_key [of q'] plain by (simp add: in_ancestors_iff)
    with tree_dirs_closed [OF k'] have "path_key q \<in> ?D" by blast
    moreover from inv obj f have "path_key q \<in> ?F" by (auto simp: ws_inv_def)
    ultimately show False using tree_disjoint es(2) by (auto simp: archive_ok_def)
  qed
  moreover have "follow (butlast q) (components t) \<noteq> None" if t: "ob = OLink t" for t
  proof -
    have "(q, OLink t) \<in> set (files_of (ex_ws s))" using obj t by simp
    with unpack_links [OF ref] es(2) obtain p where
      "q = split_path p" "validate_symlink_target p t = Inr ()" by (auto simp: archive_ok_def)
    then show ?thesis by (simp add: symlink_target_follow)
  qed
  ultimately show ?thesis using plain by auto
qed

section \<open>A small archive\<close>

definition sample_limits :: limits where
  "sample_limits = \<lparr>max_uncompressed_bytes = 100, max_files = 10, max_depth = 8\<rparr>"

definition sample_file :: zip_entry where
  "sample_file = \<lparr>ze_name = ''src/a'', ze_is_dir = False, ze_is_symlink = False, ze_unix_mode = Some 0x81A4,
     ze_size = 2, ze_reads = [Inr ''hi'', Inr []]\<rparr>"

definition sample_link :: zip_entry where
  "sample_link = \<lparr>ze_name = ''src/B'', ze_is_dir = False, ze_is_symlink = True, ze_unix_mode = Some 0xA1FF,
     ze_size = 1, ze_reads = [Inr ''a'', Inr []]\<rparr>"

definition sample_archive :: zip_file where
  "sample_archive = Inr (Inr (map Inr [sample_file, sample_link]))"

lemma name_fold_lower: "name_fold to_ascii_lowercase"
  by (simp add: name_fold_def)

lemma sample_take: "read_take 4097 (ze_reads sample_link) = Inr ''a''"
  by (simp add: sample_link_def)

lemma sample_target: "validate_symlink_target ''src/B'' ''a'' = Inr ()"
proof -
  have "follow (butlast (split_path ''src/B'')) (components ''a'') = Some [''src'', ''a'']" by code_simp
  then show ?thesis by (simp add: validate_symlink_target_follow is_absolute_def)
qed

lemma sample_ok: "archive_ok sample_limits [sample_file, sample_link]"
proof -
  have "is_utf8 ''a''" by (simp add: ascii_is_utf8 is_ascii_def)
  then have "preflight_link_target ''src/B'' sample_link = Inr ''a''"
    using sample_take sample_target by (simp add: preflight_link_target_Inr)
  then have "list_all (entry_ok sample_limits) [sample_file, sample_link]"
    by (simp add: entry_ok_def zip_path_def sample_file_def sample_link_def normalized_zip_path_iff
        sample_limits_def is_ascii_def plain_name_def validate_zip_type_def Let_def)
  moreover have "tree_ok (map entry_key [sample_file, sample_link])" by code_simp
  moreover have "length (link_bytes sample_link) = 1" by (simp add: link_bytes_def sample_take)
  then have "sum_list (map entry_declared [sample_file, sample_link]) = 3"
    by (simp add: entry_declared_def sample_file_def sample_link_def)
  ultimately show ?thesis by (simp add: archive_ok_def sample_limits_def)
qed

lemma sample_preflight: "preflight_source_archive sample_limits None 1 sample_archive = Inr 3"
proof -
  have "unat (max_uncompressed_bytes sample_limits) < 2 ^ 64 - 1" by (simp add: sample_limits_def)
  then show ?thesis
    by (rule preflight_accepts [THEN iffD2], intro exI [of _ "[sample_file, sample_link]"])
      (use sample_ok in \<open>simp add: sample_archive_def check_optional_initialization_cancel_def\<close>)
qed

lemma sample_unpack:
  "unpack sample_limits None 3 [sample_file, sample_link] = Inr (7, 3,
     [([''src'', ''B''], OLink ''a''), ([''src'', ''a''], OFile ''hi'' (Some 0x1A4))])"
proof -
  have "link_bytes sample_link = ''a''" by (simp add: link_bytes_def sample_take)
  then show ?thesis
    by (simp add: unpack_def unpack_entry_def check_optional_initialization_cancel_def
        charge_extracted_def saturating_add_def sample_limits_def sample_file_def sample_link_def zip_path_def)
qed

lemma sample_entries: "archive_entries sample_archive = [sample_file, sample_link]"
  unfolding sample_archive_def by (rule archive_entries_map)

lemma sample_run:
  "\<exists>s. extract_source_archive_inner to_ascii_lowercase sample_limits None sample_archive sample_archive = Inr s
     \<and> files_of (ex_ws s) = [([''src'', ''B''], OLink ''a''), ([''src'', ''a''], OFile ''hi'' (Some 0x1A4))]"
proof -
  have "unat (max_uncompressed_bytes sample_limits) < 2 ^ 64 - 1" by (simp add: sample_limits_def)
  from extract_is_unpack [OF name_fold_lower this, of None sample_archive]
  have "map_ok abs_extract (extract_source_archive_inner to_ascii_lowercase sample_limits None
      sample_archive sample_archive) = Inr (7, 3,
     [([''src'', ''B''], OLink ''a''), ([''src'', ''a''], OFile ''hi'' (Some 0x1A4))])"
    using sample_unpack sample_entries
    by (simp add: sample_preflight [unfolded One_nat_def] check_optional_initialization_cancel_def)
  then show ?thesis
    unfolding map_ok_def by (auto simp: and_then_Inr_iff abs_extract_def)
qed


theorem extraction_bytes_bounded_witness:
  "\<exists>s. extract_source_archive_inner to_ascii_lowercase sample_limits None sample_archive sample_archive = Inr s
     \<and> workspace_bytes (ex_ws s) = unat (ex_bytes s) \<and> unat (ex_bytes s) \<le> 100"
proof -
  have lim: "unat (max_uncompressed_bytes sample_limits) < 2 ^ 64 - 1" by (simp add: sample_limits_def)
  have fit: "list_all reads_fit (archive_entries sample_archive)"
    unfolding sample_archive_def archive_entries_map
    by (simp add: reads_fit_def sample_file_def sample_link_def)
  from sample_run obtain s where
    run: "extract_source_archive_inner to_ascii_lowercase sample_limits None sample_archive sample_archive = Inr s"
    by blast
  from extraction_bytes_bounded [OF run name_fold_lower lim fit] run show ?thesis
    by (simp add: sample_limits_def)
qed

theorem extraction_tree_safe_witness:
  "\<exists>s. extract_source_archive_inner to_ascii_lowercase sample_limits None sample_archive sample_archive = Inr s
     \<and> ([''src'', ''B''], OLink ''a'') \<in> set (ex_ws s) \<and> plain_path [''src'', ''B'']
     \<and> follow [''src''] (components ''a'') \<noteq> None"
proof -
  have lim: "unat (max_uncompressed_bytes sample_limits) < 2 ^ 64 - 1" by (simp add: sample_limits_def)
  from sample_run obtain s where
    run: "extract_source_archive_inner to_ascii_lowercase sample_limits None sample_archive sample_archive = Inr s"
    and "files_of (ex_ws s) = [([''src'', ''B''], OLink ''a''), ([''src'', ''a''], OFile ''hi'' (Some 0x1A4))]"
    by blast
  then have "([''src'', ''B''], OLink ''a'') \<in> set (files_of (ex_ws s))" by simp
  then have obj: "([''src'', ''B''], OLink ''a'') \<in> set (ex_ws s)" by simp
  from extraction_tree_safe [OF run name_fold_lower lim obj] run obj show ?thesis by auto
qed

theorem preflight_source_archive_iff_witness:
  "preflight_source_archive sample_limits None 1 sample_archive = Inr 3"
proof -
  have "unat (max_uncompressed_bytes sample_limits) < 2 ^ 64 - 1" by (simp add: sample_limits_def)
  then show ?thesis
    by (rule preflight_source_archive_iff [THEN iffD2], intro exI [of _ "[sample_file, sample_link]"])
      (use sample_ok in \<open>simp add: sample_archive_def check_optional_initialization_cancel_def\<close>)
qed

end
