(* ===== verification/Config_Safety.thy ===== *)
theory Config_Safety
  imports Config
begin

text \<open>
  What a configuration that passed start-up validation guarantees to the code that runs it: every
  execution the daemon can select has a shape it can run (the \<^verbatim>\<open>unreachable!\<close> of \<open>execution\<close> is
  never reached), every timeout and limit lies in its range and sums do not overflow, and the
  unauthenticated socket is closed to the task identity.
\<close>

unbundle bit_operations_syntax

datatype session_action_mode = Named | Dispatcher

datatype action_error = ActionNotFound | UnknownAction | ActionConflict

text \<open>Which configured action a name selects (the head of \<^verbatim>\<open>SessionManager::start_action\<close>).\<close>

definition select_action ::
  "task_session_config \<Rightarrow> string \<Rightarrow> (session_action_config \<times> session_action_mode, action_error) result" where
  "select_action s action_name =
     (case map_of (se_actions s) action_name of
        Some action \<Rightarrow> Inr (action, Named)
      | None \<Rightarrow>
          (case se_action_dispatcher s of
             Some d \<Rightarrow> and_then (ok_or (dispatcher_resolve d action_name) UnknownAction) (\<lambda>a. Inr (a, Dispatcher))
           | None \<Rightarrow> Inl UnknownAction))"

section \<open>Inversion\<close>

lemma validate_execution_shape:
  "validate_execution stat e field env = Inr u \<Longrightarrow> execution e \<noteq> None"
  by (auto simp: validate_execution_def execution.simps result_simps split: option.splits)

lemma validate_session_execution_Inr:
  "validate_session_execution stat e t field env m = Inr u \<longleftrightarrow>
     validate_execution stat e field env = Inr () \<and> validate_args (ex_args e) (field @ ''.args'') = Inr ()
     \<and> t \<noteq> 0 \<and> t \<le> m"
  unfolding validate_session_execution_def by (simp add: result_simps not_less)

lemma config_validate_parts:
  assumes "config_validate stat pn c = Inr ()"
  shows "validate_socket (sv_socket (cf_service c)) = Inr ()"
    and "validate_http (sv_http (cf_service c)) = Inr ()"
    and "validate_limits c = Inr ()"
    and "try_all (task_validate stat pn (bc_max_timeout_sec (cf_build c))
       (bc_max_output_bytes (cf_build c)) (cf_sources c)) (cf_tasks c) = Inr ()"
    and "list_ex (\<lambda>(_, t). uses_script t) (cf_tasks c) \<Longrightarrow>
       validate_executable_file stat SCRIPT_SHELL ''script shell'' = Inr ()"
    and "validate_run_as c = Inr ()"
    and "host_observation_validate (cf_host_observation c) = Inr ()"
    and "ho_enabled (cf_host_observation c) \<Longrightarrow> ht_enabled (sv_http (cf_service c))
       \<Longrightarrow> au_required (ht_auth (sv_http (cf_service c)))"
    and "artifacts_validate pn (cf_artifacts c) = Inr ()"
  using assms unfolding config_validate_def and_then_Inr_iff ensure_Inr_iff by (auto split: if_splits)

lemma config_task:
  assumes "config_validate stat pn c = Inr ()" and "(name, t) \<in> set (cf_tasks c)"
  shows "task_validate stat pn (bc_max_timeout_sec (cf_build c))
    (bc_max_output_bytes (cf_build c)) (cf_sources c) (name, t) = Inr ()"
  using config_validate_parts(4) [OF assms(1)] assms(2) unfolding try_all_Inr_iff by blast

lemma task_validate_parts:
  assumes "task_validate stat pn mt mo src (name, t) = Inr ()"
  shows "valid_task_id name"
    and "validate_execution stat (tc_exec t) (''tasks.'' @ name) (tc_environment t) = Inr ()"
    and "tc_timeout_sec t \<noteq> 0"
    and "\<exists>total_timeout. task_total_timeout stat name t = Inr total_timeout \<and> total_timeout \<le> mt"
    and "tc_session t = Some s \<Longrightarrow>
      task_session_validate stat pn s name (tc_environment t) mt mo src = Inr ()"
    and "try_all (validate_environment_entry name) (tc_environment t) = Inr ()"
  using assms unfolding task_validate_def split_conv and_then_Inr_iff ensure_Inr_iff by auto

lemma session_validate_parts:
  assumes "task_session_validate stat pn s name env mt mo src = Inr ()"
  shows "se_idle_timeout_sec s \<noteq> 0" and "se_idle_timeout_sec s < se_max_lifetime_sec s"
    and "se_max_lifetime_sec s \<le> MAX_SESSION_LIFETIME_SEC"
    and "try_all (validate_service stat (''tasks.'' @ name @ ''.session'') env mt mo) (se_services s) = Inr ()"
    and "validate_session_execution stat (te_exec (se_teardown s)) (te_timeout_sec (se_teardown s))
       ((''tasks.'' @ name @ ''.session'') @ ''.teardown'') env mt = Inr ()"
    and "(se_actions s = []) \<noteq> (se_action_dispatcher s = None)"
    and "try_all (validate_action stat pn (''tasks.'' @ name @ ''.session'') env mt) (se_actions s) = Inr ()"
    and "se_source_updates s = Some u \<Longrightarrow>
       source_updates_validate pn u ((''tasks.'' @ name @ ''.session'') @ ''.source_updates'') mt src = Inr ()"
    and "se_action_dispatcher s = Some d \<Longrightarrow>
       validate_dispatcher stat pn (''tasks.'' @ name @ ''.session'') env mt d = Inr ()"
  using assms unfolding task_session_validate_def Let_def and_then_Inr_iff ensure_Inr_iff by auto

lemma service_execution: "validate_service stat p env mt mo (n, x) = Inr () \<Longrightarrow> execution (sc_exec x) \<noteq> None"
  unfolding validate_service_def split_conv Let_def and_then_Inr_iff using validate_execution_shape by blast

lemma select_action_valid:
  assumes "task_session_validate stat pn s name env mt mo src = Inr ()"
    and "select_action s a = Inr (act, m)"
  shows "execution (ac_exec act) \<noteq> None \<and> ac_timeout_sec act \<noteq> 0 \<and> ac_timeout_sec act \<le> mt"
proof (cases "map_of (se_actions s) a")
  case (Some x)
  then have x: "act = x" "(a, x) \<in> set (se_actions s)"
    using assms(2) map_of_SomeD by (auto simp: select_action_def)
  with session_validate_parts(7) [OF assms(1)]
  have "validate_action stat pn (''tasks.'' @ name @ ''.session'') env mt (a, x) = Inr ()"
    unfolding try_all_Inr_iff by blast
  then show ?thesis unfolding validate_action_def split_conv Let_def and_then_Inr_iff
      validate_session_execution_Inr x(1) using validate_execution_shape by blast
next
  case None
  with assms(2) obtain d where d: "se_action_dispatcher s = Some d" "dispatcher_resolve d a = Some act"
    by (auto simp: select_action_def result_simps split: option.splits)
  from session_validate_parts(9) [OF assms(1) d(1)]
  have e: "execution (di_exec d) \<noteq> None" "di_timeout_sec d \<noteq> 0" "di_timeout_sec d \<le> mt"
    and p: "try_all (validate_policy pn ((''tasks.'' @ name @ ''.session'') @ ''.action_dispatcher'') mt)
      (di_actions d) = Inr ()"
    unfolding validate_dispatcher_def Let_def and_then_Inr_iff validate_session_execution_Inr
    using validate_execution_shape by blast+
  have "t \<noteq> 0 \<and> t \<le> mt" if "map_of (di_actions d) a = Some x" "po_timeout_sec x = Some t" for x t
  proof -
    from map_of_SomeD [OF that(1)] p
    have "validate_policy pn ((''tasks.'' @ name @ ''.session'') @ ''.action_dispatcher'') mt (a, x) = Inr ()"
      unfolding try_all_Inr_iff by blast
    with that(2) show ?thesis
      unfolding validate_policy_def split_conv Let_def and_then_Inr_iff by (simp add: ensure_Inr_iff not_less)
  qed
  then have "(case Option.bind (map_of (di_actions d) a) po_timeout_sec of Some t \<Rightarrow> t | None \<Rightarrow> di_timeout_sec d) \<noteq> 0
    \<and> (case Option.bind (map_of (di_actions d) a) po_timeout_sec of Some t \<Rightarrow> t | None \<Rightarrow> di_timeout_sec d) \<le> mt"
    using e(2,3) by (cases "map_of (di_actions d) a") (auto split: option.split)
  moreover from d(2) have "act = \<lparr>ac_exec = di_exec d,
        ac_timeout_sec = (case Option.bind (map_of (di_actions d) a) po_timeout_sec of Some t \<Rightarrow> t | None \<Rightarrow> di_timeout_sec d),
        ac_artifacts = (case Option.bind (map_of (di_actions d) a) po_artifacts of Some x \<Rightarrow> x | None \<Rightarrow> di_artifacts d)\<rparr>"
    unfolding dispatcher_resolve_def Let_def by (metis option.distinct(1) option.inject)
  ultimately show ?thesis using e(1) by simp
qed

section \<open>Guarantees\<close>

text \<open>
  C23. In a validated configuration every execution the daemon can select can be run: the tasks' own,
  their setups and teardowns, every service, and every action a name selects directly or through
  a dispatcher. A selected action has a positive timeout within \<^verbatim>\<open>build.max_timeout_sec\<close>.
\<close>

theorem validated_executions:
  assumes "config_validate stat pn c = Inr ()" and "(name, t) \<in> set (cf_tasks c)"
  shows "execution (tc_exec t) \<noteq> None
    \<and> (\<forall>x. tc_setup t = Some x \<longrightarrow> execution (ts_exec x) \<noteq> None)
    \<and> (\<forall>s. tc_session t = Some s \<longrightarrow>
        execution (te_exec (se_teardown s)) \<noteq> None
        \<and> (\<forall>(_, x)\<in>set (se_services s). execution (sc_exec x) \<noteq> None)
        \<and> (\<forall>a act m. select_action s a = Inr (act, m) \<longrightarrow>
             execution (ac_exec act) \<noteq> None \<and> ac_timeout_sec act \<noteq> 0
             \<and> ac_timeout_sec act \<le> bc_max_timeout_sec (cf_build c)))"
proof -
  note t = task_validate_parts [OF config_task [OF assms]]
  have su: "execution (ts_exec x) \<noteq> None" if "tc_setup t = Some x" for x
    using t(4) validate_execution_shape
    by (simp only: task_total_timeout_def that option.case and_then_Inr_iff) blast
  have "execution (te_exec (se_teardown s)) \<noteq> None
        \<and> (\<forall>(_, x)\<in>set (se_services s). execution (sc_exec x) \<noteq> None)
        \<and> (\<forall>a act m. select_action s a = Inr (act, m) \<longrightarrow>
             execution (ac_exec act) \<noteq> None \<and> ac_timeout_sec act \<noteq> 0
             \<and> ac_timeout_sec act \<le> bc_max_timeout_sec (cf_build c))"
    if s: "tc_session t = Some s" for s
  proof (intro conjI)
    note v = t(5) [OF s]
    show "execution (te_exec (se_teardown s)) \<noteq> None"
      using session_validate_parts(5) [OF v] validate_execution_shape
      unfolding validate_session_execution_Inr by blast
    show "\<forall>(_, x)\<in>set (se_services s). execution (sc_exec x) \<noteq> None"
      using session_validate_parts(4) [OF v] service_execution unfolding try_all_Inr_iff by blast
    show "\<forall>a act m. select_action s a = Inr (act, m) \<longrightarrow>
             execution (ac_exec act) \<noteq> None \<and> ac_timeout_sec act \<noteq> 0
             \<and> ac_timeout_sec act \<le> bc_max_timeout_sec (cf_build c)"
      using select_action_valid [OF v] by blast
  qed
  with su validate_execution_shape [OF t(2)] show ?thesis by blast
qed


text \<open>
  C24. In a validated configuration the unauthenticated socket, when enabled, has a dedicated task
  user, no group, and a mode without group and other bits; host observation over HTTP, when
  enabled, requires a bearer token and at least one token file.
\<close>

theorem validated_exposure:
  assumes "config_validate stat pn c = Inr ()"
  shows "(so_enabled (sv_socket (cf_service c)) \<longrightarrow>
      bc_run_as_user (cf_build c) \<noteq> None \<and> so_group (sv_socket (cf_service c)) = None
      \<and> is_absolute (so_path (sv_socket (cf_service c)))
      \<and> (\<exists>m. parse_socket_mode (so_mode (sv_socket (cf_service c))) = Inr m \<and> m AND 0x3F = 0))
    \<and> (ho_enabled (cf_host_observation c) \<and> ht_enabled (sv_http (cf_service c)) \<longrightarrow>
      au_required (ht_auth (sv_http (cf_service c)))
      \<and> au_auth_type (ht_auth (sv_http (cf_service c))) = ''bearer''
      \<and> au_token_files (ht_auth (sv_http (cf_service c))) \<noteq> [])"
proof (intro conjI impI)
  note v = config_validate_parts [OF assms]
  assume so: "so_enabled (sv_socket (cf_service c))"
  from v(6) obtain m where m: "bc_run_as_user (cf_build c) \<noteq> None" "parse_mode (sv_socket (cf_service c)) = Inr m"
    "m AND 0x3F = 0" "so_group (sv_socket (cf_service c)) = None"
    by (simp only: validate_run_as_def Let_def and_then_Inr_iff so not_True_eq_False if_False ensure_Inr_iff) blast
  from m(1) show "bc_run_as_user (cf_build c) \<noteq> None" .
  from m(4) show "so_group (sv_socket (cf_service c)) = None" .
  from m(2,3) show "\<exists>m. parse_socket_mode (so_mode (sv_socket (cf_service c))) = Inr m \<and> m AND 0x3F = 0"
    unfolding parse_mode_def map_err_Inr_iff by blast
  show "is_absolute (so_path (sv_socket (cf_service c)))"
    using v(1) by (simp only: validate_socket_def and_then_Inr_iff so not_True_eq_False if_False ensure_Inr_iff) blast
next
  note v = config_validate_parts [OF assms]
  assume ho: "ho_enabled (cf_host_observation c) \<and> ht_enabled (sv_http (cf_service c))"
  then have en: "ht_enabled (sv_http (cf_service c))" ..
  from v(8) ho show r: "au_required (ht_auth (sv_http (cf_service c)))" by blast
  note h = v(2) [unfolded validate_http_def eqTrueI [OF en] not_True_eq_False if_False and_then_Inr_iff ensure_Inr_iff]
  from h show "au_auth_type (ht_auth (sv_http (cf_service c))) = ''bearer''" by (elim exE conjE)
  from h have "\<not> (au_required (ht_auth (sv_http (cf_service c))) \<and> au_token_files (ht_auth (sv_http (cf_service c))) = [])"
    by (elim exE conjE)
  with r show "au_token_files (ht_auth (sv_http (cf_service c))) \<noteq> []" by blast
qed

section \<open>A configuration that validates\<close>

text \<open>A socket-only daemon with one session task.\<close>

definition sample_execution :: execution_spec where
  "sample_execution = \<lparr>ex_script = None, ex_executable = Some ''/t'', ex_args = []\<rparr>"

definition sample_session :: task_session_config where
  "sample_session = \<lparr>se_idle_timeout_sec = 10, se_max_lifetime_sec = 20,
     se_teardown = \<lparr>te_exec = sample_execution, te_timeout_sec = 5\<rparr>, se_services = [],
     se_actions = [(''a'', \<lparr>ac_exec = sample_execution, ac_timeout_sec = 5,
       ac_artifacts = \<lparr>as_include = [], as_exclude = []\<rparr>\<rparr>)],
     se_action_dispatcher = None, se_source_updates = None\<rparr>"

definition sample_task :: task_config where
  "sample_task = \<lparr>tc_exec = sample_execution, tc_setup = Some \<lparr>ts_exec = sample_execution, ts_timeout_sec = 3\<rparr>,
     tc_session = Some sample_session, tc_cwd = ''.'', tc_timeout_sec = 7, tc_environment = [],
     tc_artifacts = \<lparr>as_include = [], as_exclude = []\<rparr>, tc_workspace = Fresh\<rparr>"

definition sample_config :: config where
  "sample_config = \<lparr>cf_schema_version = ''12'',
     cf_service = \<lparr>sv_socket = default_socket\<lparr>so_enabled := True\<rparr>, sv_http = default_http,
       sv_max_concurrent_builds = 1\<rparr>,
     cf_build = default_build\<lparr>bc_run_as_user := Some ''u''\<rparr>, cf_tasks = [(''b'', sample_task)],
     cf_host_observation = default_host_observation, cf_sources = default_sources,
     cf_artifacts = default_artifacts\<lparr>af_storage_root := ''/s''\<rparr>, cf_logging = default_logging\<rparr>"

definition sample_stat :: stat where
  "sample_stat p = Inr (True, 0x1ED)"

definition sample_pattern_new :: "string pattern_new" where
  "sample_pattern_new p = Inr p"

lemmas sample_defs = sample_config_def sample_task_def sample_session_def sample_execution_def sample_stat_def
  default_socket_def default_http_def default_build_def default_sources_def default_artifacts_def
  default_logging_def default_host_observation_def

lemma sample_paths:
  "is_absolute ''/t''" "is_absolute ''/s''" "is_absolute ''/var/lib/indentured-server/workspaces''"
  "is_absolute ''/run/indentured-server/control/server.sock''"
  "path_parent ''/run/indentured-server/control/server.sock'' \<notin> Some ` set (map components
     [''/run'', ''/var/run'', ''/private/var/run''])"
  "trim ''u'' = ''u''" "valid_task_id ''a''" "valid_task_id ''b''"
  "parse_socket_mode ''0600'' = Inr 0x180" "parse_level ''info'' = Inr INFO"
  by code_simp+

lemma sample_cwd: "validate_relative_path ''.'' field = Inr ''.''"
proof -
  have "trim ''.'' \<noteq> []" "\<not> is_absolute ''.''" "\<not> list_ex (\<lambda>c. c = ParentDir) (components ''.'')"
    by code_simp+
  then show ?thesis by (simp add: validate_relative_path_def)
qed

lemma sample_execution_ok: "validate_execution sample_stat sample_execution field env = Inr ()"
  by (simp add: validate_execution_def validate_executable_file_def sample_paths(1) sample_defs result_simps)

lemma sample_session_ok:
  "task_session_validate sample_stat sample_pattern_new sample_session ''b'' [] 1800 mo src = Inr ()"
  unfolding task_session_validate_def Let_def and_then_Inr_iff ensure_Inr_iff validate_session_execution_Inr
  by (simp add: and_then_Inr_iff validate_session_execution_Inr sample_execution_ok validate_args_def
    validate_action_def validate_artifact_spec_def validate_patterns_def MAX_SESSION_LIFETIME_SEC_def sample_paths
    sample_session_def sample_execution_ok ensure_Inr_iff)
    (simp add: sample_execution_def)

lemma sample_task_ok:
  "task_validate sample_stat sample_pattern_new 1800 mo src (''b'', sample_task) = Inr ()"
proof -
  have "checked_add (3 :: u64) 7 = Some 10" by (simp add: checked_add_def)
  then have "task_total_timeout sample_stat ''b'' sample_task = Inr 10"
    by (simp add: task_total_timeout_def sample_task_def sample_execution_ok validate_args_def
      and_then_Inr_iff ensure_Inr_iff ok_or_Inr_iff) (simp add: sample_execution_def)
  then show ?thesis
    unfolding task_validate_def split_conv and_then_Inr_iff ensure_Inr_iff map_err_Inr_iff
    by (simp add: sample_task_def sample_paths sample_execution_ok validate_args_def sample_cwd sample_session_ok
      ensure_Inr_iff validate_artifact_spec_def validate_patterns_def and_then_Inr_iff)
      (simp add: sample_execution_def)
qed

lemma sample_config_ok: "config_validate sample_stat sample_pattern_new sample_config = Inr ()"
proof -
  have "validate_socket (default_socket\<lparr>so_enabled := True\<rparr>) = Inr ()"
    unfolding validate_socket_def using sample_paths(4,5,9)
    by (simp del: list.map add: default_socket_def parse_mode_def result_simps)
  moreover have "validate_http default_http = Inr ()" by (simp add: validate_http_def default_http_def)
  moreover have "validate_limits sample_config = Inr ()"
    unfolding validate_limits_def Let_def and_then_Inr_iff ensure_Inr_iff
    by (simp add: sample_config_def default_build_def default_sources_def sample_paths
      DEFAULT_OUTPUT_BYTES_def DEFAULT_SOURCE_TRANSFER_BYTES_def DEFAULT_SOURCE_UNCOMPRESSED_BYTES_def
      DEFAULT_SOURCE_MAX_FILES_def DEFAULT_SOURCE_MAX_DEPTH_def DEFAULT_SOURCE_UPLOAD_TIMEOUT_SEC_def
      MAX_SOURCE_UPLOAD_TIMEOUT_SEC_def)
  moreover have "validate_run_as sample_config = Inr ()"
    unfolding validate_run_as_def Let_def and_then_Inr_iff
    by (simp add: sample_config_def default_build_def default_socket_def sample_paths parse_mode_def result_simps)
  moreover have "artifacts_validate sample_pattern_new (default_artifacts\<lparr>af_storage_root := ''/s''\<rparr>) = Inr ()"
    unfolding artifacts_validate_def and_then_Inr_iff ensure_Inr_iff
    by (simp add: default_artifacts_def sample_paths DEFAULT_ARTIFACT_TRANSFER_BYTES_def
      DEFAULT_ARTIFACT_UNCOMPRESSED_BYTES_def DEFAULT_ARTIFACT_MAX_FILES_def DEFAULT_ARTIFACT_MAX_DEPTH_def)
  moreover have "\<exists>l. logging_from_config default_logging = Inr l"
    by (simp add: logging_from_config_def default_logging_def sample_paths result_simps)
  moreover have "\<not> uses_script sample_task"
    by (simp add: uses_script_def sample_task_def sample_session_def sample_execution_def)
  ultimately show ?thesis
    unfolding config_validate_def and_then_Inr_iff ensure_Inr_iff map_err_Inr_iff
    by (simp add: sample_config_def host_observation_validate_def default_host_observation_def
      CONFIG_SCHEMA_VERSION_def sample_task_ok default_build_def result_simps)
qed

theorem validated_executions_witness:
  "config_validate sample_stat sample_pattern_new sample_config = Inr ()
   \<and> (''b'', sample_task) \<in> set (cf_tasks sample_config)
   \<and> execution (ac_exec (snd (hd (se_actions sample_session)))) \<noteq> None"
proof -
  have m: "(''b'', sample_task) \<in> set (cf_tasks sample_config)" by (simp add: sample_config_def)
  have "tc_session sample_task = Some sample_session" by (simp add: sample_task_def)
  moreover have "select_action sample_session ''a'' = Inr (snd (hd (se_actions sample_session)), Named)"
    by (simp add: select_action_def sample_session_def)
  ultimately show ?thesis
    using validated_executions [OF sample_config_ok m] m sample_config_ok by blast
qed


theorem validated_exposure_witness:
  "config_validate sample_stat sample_pattern_new sample_config = Inr ()
   \<and> so_enabled (sv_socket (cf_service sample_config)) \<and> bc_run_as_user (cf_build sample_config) \<noteq> None"
proof -
  have "so_enabled (sv_socket (cf_service sample_config))" by (simp add: sample_config_def)
  then show ?thesis using validated_exposure [OF sample_config_ok] sample_config_ok by blast
qed

end
