(* ===== verification/Session_State.thy ===== *)
theory Session_State
  imports Config_Safety Build_Error Source_Update
begin

text \<open>
  Managed sessions (\<^verbatim>\<open>src/sessions.rs\<close>): the entry of a session and the critical sections of the
  session manager. Every operation of the manager changes the state of an entry while it holds the
  entry's lock, so an operation is a function on the entry. What the thread does after it released
  the lock is part of the result: running \<^verbatim>\<open>cleanup_entry\<close> is \<^term>\<open>Some explicit\<close>, and waiting for
  another thread's cleanup is \<open>StopWaits\<close>.

  An instant is a number of nanoseconds. \<^verbatim>\<open>Instant::now()\<close> is read in the guard of a section and
  again when the section records activity; the two readings are the arguments \<open>now\<close> and \<open>later\<close>.
  A cancellation flag is shared between the entry and the worker of the operation it belongs to, and
  is identified with the operation's identifier: the set \<open>se_cancelled\<close> holds the operations whose
  flag is set. Condition variables and notifications only wake threads that read this state again.
\<close>

section \<open>Data\<close>

definition METADATA_VERSION :: nat where "METADATA_VERSION = 3"

definition METADATA_DIRECTORY :: string where "METADATA_DIRECTORY = ''.sessions''"

type_synonym instant = nat

definition secs :: "u64 \<Rightarrow> nat" where
  "secs s = unat s * 1000000000"

text \<open>\<^verbatim>\<open>Instant::checked_add\<close>: the seconds of an instant are a signed 64-bit number.\<close>

definition instant_checked_add :: "instant \<Rightarrow> nat \<Rightarrow> instant option" where
  "instant_checked_add t d = (if t + d < 2 ^ 63 * 1000000000 then Some (t + d) else None)"

datatype cleanup_owner = Initializer | ActionOwner | UpdateOwner | Requester

record termination_data =
  tm_explicit :: bool
  tm_owner :: cleanup_owner

datatype session_state =
    Initializing (worker_started: bool)
  | Ready (last_activity: instant)
  | Action (action_id: string)
  | Updating (update_id: string)
  | Terminating termination_data
  | Terminated session_stop_response

datatype durable_session_state = DurableStartingServices | DurableReady

record durable_service_process =
  ds_name :: string
  ds_supervisor_pid :: u32
  ds_service_pid :: u32
  ds_service_pgid :: int
  ds_shutdown_timeout_sec :: u64

record durable_session_metadata =
  dm_version :: nat
  dm_session_id :: string
  dm_task_id :: string
  dm_workspace_revision :: u64
  dm_state :: durable_session_state
  dm_services :: "durable_service_process list"

text \<open>A running service and whether its output is kept instead of streamed to the client.\<close>

record running_service =
  rs_process :: durable_service_process
  rs_output_retained :: bool

record successful_update =
  sx_request_id :: string
  sx_request_digest :: bytes
  sx_response :: session_update_response

record session_update_data =
  ud_revision :: u64
  ud_last_success :: "successful_update option"

datatype timer = LifetimeTimer | IdleTimer

record session_entry =
  en_id :: string
  en_request_id :: "string option"
  en_task_id :: string
  en_task :: task_config
  en_workspace :: string
  en_deadline :: instant
  en_state :: session_state
  en_initialization_cancelled :: bool
  en_cancelled :: "string set"
  en_permit :: bool
  en_timers :: "timer list"
  en_update_data :: session_update_data
  en_services :: "running_service list"
  en_retaining_service_output :: bool
  en_registered :: bool

datatype stop_error = StopNotFound | StopConflict

datatype update_admission_error =
    UpdateNotFound
  | OperationConflict
  | RevisionConflict string
  | RequestConflict

record validated_request =
  vr_request_id :: "string option"
  vr_task_id :: string
  vr_task :: task_config

type_synonym critical = "session_entry \<times> bool option"

section \<open>Reservation and initialization\<close>

definition session_workspace :: "string \<Rightarrow> string \<Rightarrow> string" where
  "session_workspace workspace_root session_id = path_join workspace_root (''session-'' @ session_id)"

definition spawn_timer :: "timer \<Rightarrow> session_entry \<Rightarrow> session_entry" where
  "spawn_timer t s = s\<lparr>en_timers := en_timers s @ [t]\<rparr>"

text \<open>\<^const>\<open>None\<close> is a panic of \<^verbatim>\<open>reserve\<close>.\<close>

definition reserve :: "string \<Rightarrow> string \<Rightarrow> instant \<Rightarrow> validated_request \<Rightarrow> session_entry option" where
  "reserve workspace_root session_id now validated =
     (case tc_session (vr_task validated) of
        None \<Rightarrow> None
      | Some session \<Rightarrow>
          if MAX_SESSION_LIFETIME_SEC < se_max_lifetime_sec session then None
          else
            (case instant_checked_add now (secs (se_max_lifetime_sec session)) of
               None \<Rightarrow> None
             | Some deadline \<Rightarrow>
                 Some (spawn_timer LifetimeTimer
                   \<lparr>en_id = session_id, en_request_id = vr_request_id validated,
                    en_task_id = vr_task_id validated, en_task = vr_task validated,
                    en_workspace = session_workspace workspace_root session_id, en_deadline = deadline,
                    en_state = Initializing False, en_initialization_cancelled = False, en_cancelled = {},
                    en_permit = True, en_timers = [],
                    en_update_data = \<lparr>ud_revision = 0, ud_last_success = None\<rparr>,
                    en_services = [], en_retaining_service_output = False, en_registered = True\<rparr>)))"

definition lookup :: "session_entry \<Rightarrow> session_entry option" where
  "lookup s = (if en_registered s then Some s else None)"

definition terminate :: "bool \<Rightarrow> cleanup_owner \<Rightarrow> session_entry \<Rightarrow> session_entry" where
  "terminate explicit owner s = s\<lparr>en_state := Terminating \<lparr>tm_explicit = explicit, tm_owner = owner\<rparr>\<rparr>"

definition cancel_initialization :: "session_entry \<Rightarrow> session_entry" where
  "cancel_initialization s = s\<lparr>en_initialization_cancelled := True\<rparr>"

definition cancel_operation :: "string \<Rightarrow> session_entry \<Rightarrow> session_entry" where
  "cancel_operation op s = s\<lparr>en_cancelled := insert op (en_cancelled s)\<rparr>"

definition begin_initialization :: "instant \<Rightarrow> session_entry \<Rightarrow> bool \<times> critical" where
  "begin_initialization now s =
     (case en_state s of
        Initializing started \<Rightarrow>
          if \<not> started \<and> \<not> en_initialization_cancelled s \<and> now < en_deadline s
          then (True, s\<lparr>en_state := Initializing True\<rparr>, None)
          else if \<not> started
          then (False, terminate False Requester (cancel_initialization s), Some False)
          else (False, s, None)
      | _ \<Rightarrow> (False, s, None))"

definition cancel_upload :: "session_entry \<Rightarrow> critical" where
  "cancel_upload s =
     (if en_state s = Initializing False
      then (terminate False Requester (cancel_initialization s), Some False)
      else (s, None))"

definition is_initializing :: "session_entry \<Rightarrow> bool" where
  "is_initializing s = (case en_state s of Initializing _ \<Rightarrow> True | _ \<Rightarrow> False)"

definition fail_initialization :: "session_entry \<Rightarrow> session_entry" where
  "fail_initialization s = (if is_initializing s then terminate False Initializer s else s)"

text \<open>The check before the metadata is written: whether the worker goes on.\<close>

definition commit_check :: "instant \<Rightarrow> session_entry \<Rightarrow> bool \<times> session_entry" where
  "commit_check now s =
     (if \<not> is_initializing s \<or> en_initialization_cancelled s \<or> en_deadline s \<le> now
      then (False, fail_initialization s) else (True, s))"

definition retain_outputs :: "session_entry \<Rightarrow> session_entry" where
  "retain_outputs s = s\<lparr>en_retaining_service_output := True,
     en_services := map (\<lambda>v. v\<lparr>rs_output_retained := True\<rparr>) (en_services s)\<rparr>"

text \<open>The election between becoming ready and every trigger of termination.\<close>

definition commit_election :: "instant \<Rightarrow> instant \<Rightarrow> session_entry \<Rightarrow> bool \<times> session_entry" where
  "commit_election now later s =
     (if is_initializing s \<and> \<not> en_initialization_cancelled s \<and> now < en_deadline s
      then (True, spawn_timer IdleTimer (retain_outputs (s\<lparr>en_state := Ready later\<rparr>)))
      else (False, fail_initialization s))"

definition initializer_cleanup :: "bool \<Rightarrow> session_entry \<Rightarrow> critical" where
  "initializer_cleanup default_explicit s =
     (case en_state s of
        Initializing _ \<Rightarrow> (terminate default_explicit Initializer s, Some default_explicit)
      | Terminating t \<Rightarrow> (s, if tm_owner t = Initializer then Some (tm_explicit t) else None)
      | _ \<Rightarrow> (s, None))"

definition service_failed :: "session_entry \<Rightarrow> critical" where
  "service_failed s =
     (case en_state s of
        Initializing _ \<Rightarrow> (terminate False Initializer (cancel_initialization s), None)
      | Ready _ \<Rightarrow> (terminate False Requester s, Some False)
      | Action op \<Rightarrow> (terminate False ActionOwner (cancel_operation op s), None)
      | Updating op \<Rightarrow> (terminate False UpdateOwner (cancel_operation op s), None)
      | _ \<Rightarrow> (s, None))"

definition disconnect :: "session_entry \<Rightarrow> critical" where
  "disconnect s =
     (if \<not> en_registered s then (s, None)
      else
        (case en_state s of
           Initializing started \<Rightarrow>
             if started then (terminate False Initializer (cancel_initialization s), None)
             else (terminate False Requester (cancel_initialization s), Some False)
         | _ \<Rightarrow> (s, None)))"

section \<open>Source updates\<close>

record session_update_upload_context =
  uc_policy :: source_updates_config
  uc_remaining_lifetime :: nat

definition source_updates :: "session_entry \<Rightarrow> source_updates_config option" where
  "source_updates s = Option.bind (tc_session (en_task s)) se_source_updates"

definition update_upload_context ::
  "instant \<Rightarrow> instant \<Rightarrow> session_entry \<Rightarrow> (session_update_upload_context, update_admission_error) result" where
  "update_upload_context now later s0 =
     and_then (ok_or (lookup s0) UpdateNotFound) (\<lambda>s.
     and_then (ok_or (source_updates s) UpdateNotFound) (\<lambda>policy.
     let live = (case en_state s of Ready _ \<Rightarrow> True | Action _ \<Rightarrow> True | Updating _ \<Rightarrow> True | _ \<Rightarrow> False) in
     if live \<and> now < en_deadline s
     then Inr \<lparr>uc_policy = policy, uc_remaining_lifetime = en_deadline s - later\<rparr>
     else Inl UpdateNotFound))"

record session_update_reservation =
  rv_update_id :: string
  rv_request_id :: string
  rv_request_digest :: bytes
  rv_base_revision :: u64

datatype session_update_admission =
    Start session_update_reservation
  | Retry session_update_response

definition admit_update ::
  "string \<Rightarrow> string \<Rightarrow> bytes \<Rightarrow> u64 \<Rightarrow> session_entry
     \<Rightarrow> (session_update_admission, update_admission_error) result \<times> session_entry" where
  "admit_update fresh_id request_id request_digest base_revision s =
     (let d = en_update_data s;
          start = (if ud_revision d \<noteq> base_revision
            then (Inl (RevisionConflict (revision_string (ud_revision d))), s)
            else (Inr (Start \<lparr>rv_update_id = fresh_id, rv_request_id = request_id,
              rv_request_digest = request_digest, rv_base_revision = base_revision\<rparr>),
              s\<lparr>en_state := Updating fresh_id\<rparr>))
      in (case ud_last_success d of
            None \<Rightarrow> start
          | Some prior \<Rightarrow>
              if sx_request_id prior = request_id
              then (if sx_request_digest prior = request_digest then (Inr (Retry (sx_response prior)), s)
                else (Inl RequestConflict, s))
              else start))"

text \<open>The identifier is \<open>''upd_''\<close> and a fresh UUID.\<close>

definition start_update ::
  "string \<Rightarrow> instant \<Rightarrow> string \<Rightarrow> bytes \<Rightarrow> u64 \<Rightarrow> session_entry
     \<Rightarrow> (session_update_admission, update_admission_error) result \<times> session_entry" where
  "start_update fresh_id now request_id request_digest base_revision s =
     (if lookup s = None \<or> source_updates s = None then (Inl UpdateNotFound, s)
      else
        (case en_state s of
           Ready _ \<Rightarrow>
             if now < en_deadline s
             then admit_update (''upd_'' @ fresh_id) request_id request_digest base_revision s
             else (Inl UpdateNotFound, s)
         | Terminating _ \<Rightarrow> (Inl UpdateNotFound, s)
         | Terminated _ \<Rightarrow> (Inl UpdateNotFound, s)
         | _ \<Rightarrow> (Inl OperationConflict, s)))"

definition update_failed :: "string \<Rightarrow> update_error" where
  "update_failed message = \<lparr>ue_kind = Internal, ue_message = message, ue_rollback_proven = False\<rparr>"

definition update_cancelled_error :: "string \<Rightarrow> update_error" where
  "update_cancelled_error message = \<lparr>ue_kind = Cancelled, ue_message = message, ue_rollback_proven = True\<rparr>"

definition finish_update_error :: "instant \<Rightarrow> string \<Rightarrow> update_error \<Rightarrow> session_entry \<Rightarrow> critical" where
  "finish_update_error later op err s =
     (case en_state s of
        Terminating t \<Rightarrow> (s, if tm_owner t = UpdateOwner then Some (tm_explicit t) else None)
      | Updating active \<Rightarrow>
          if active = op \<and> \<not> ue_rollback_proven err then (terminate False UpdateOwner s, Some False)
          else if active = op then (spawn_timer IdleTimer (s\<lparr>en_state := Ready later\<rparr>), None)
          else (s, None)
      | _ \<Rightarrow> (s, None))"

definition update_response ::
  "session_entry \<Rightarrow> session_update_reservation \<Rightarrow> u64 \<Rightarrow> applied_evidence \<Rightarrow> session_update_response" where
  "update_response s r next_revision applied =
     \<lparr>ur_session_id = en_id s, ur_update_id = rv_update_id r, ur_request_id = rv_request_id r,
      ur_base_revision = revision_string (rv_base_revision r),
      ur_workspace_revision = revision_string next_revision,
      ur_changed = ae_changed applied, ur_deleted = ae_deleted applied\<rparr>"

definition record_update ::
  "session_update_reservation \<Rightarrow> u64 \<Rightarrow> session_update_response \<Rightarrow> session_entry \<Rightarrow> session_entry" where
  "record_update r next_revision response s =
     s\<lparr>en_update_data := \<lparr>ud_revision = next_revision, ud_last_success =
        Some \<lparr>sx_request_id = rv_request_id r, sx_request_digest = rv_request_digest r,
          sx_response = response\<rparr>\<rparr>\<rparr>"

definition finish_update ::
  "instant \<Rightarrow> instant \<Rightarrow> session_update_reservation \<Rightarrow> u64 \<Rightarrow> applied_evidence \<Rightarrow> session_entry
     \<Rightarrow> (session_update_response, update_error) result \<times> critical" where
  "finish_update now later r next_revision applied s =
     (let response = update_response s r next_revision applied in
      case en_state s of
        Updating op \<Rightarrow>
          if op = rv_update_id r \<and> op \<notin> en_cancelled s \<and> now < en_deadline s
          then (Inr response, spawn_timer IdleTimer
            ((record_update r next_revision response s)\<lparr>en_state := Ready later\<rparr>), None)
          else (Inl (update_cancelled_error ''update exceeded session lifetime''),
            terminate False UpdateOwner s, Some False)
      | Terminating t \<Rightarrow>
          if tm_owner t = UpdateOwner
          then (Inl (update_cancelled_error ''update cancelled''), s, Some (tm_explicit t))
          else (Inl (update_failed ''update lost session ownership''), s, None)
      | _ \<Rightarrow> (Inl (update_failed ''update lost session ownership''), s, None))"

definition metadata_version :: "session_entry \<Rightarrow> nat" where
  "metadata_version s =
     (case tc_session (en_task s) of
        Some session \<Rightarrow> if se_services session \<noteq> [] then METADATA_VERSION else 2
      | None \<Rightarrow> 2)"

definition durable_services :: "session_entry \<Rightarrow> durable_service_process list" where
  "durable_services s = map rs_process (en_services s)"

definition ready_metadata :: "u64 \<Rightarrow> session_entry \<Rightarrow> durable_session_metadata" where
  "ready_metadata revision s =
     \<lparr>dm_version = metadata_version s, dm_session_id = en_id s, dm_task_id = en_task_id s,
      dm_workspace_revision = revision, dm_state = DurableReady, dm_services = durable_services s\<rparr>"

text \<open>
  The worker of an update. The entry is read when the worker starts (\<open>s0\<close>, for the metadata) and
  changed once, when the update is finished (\<open>s\<close>); other threads act in between. The argument
  \<open>apply_prepared\<close> is \<^verbatim>\<open>apply_update\<close> for the resolved identity and the metadata to commit.
\<close>

definition execute_update ::
  "((u32 \<times> string \<times> u32) option, build_error) result
     \<Rightarrow> (u32 \<times> u32 \<Rightarrow> durable_session_metadata \<Rightarrow> (applied_evidence, update_error) result)
     \<Rightarrow> instant \<Rightarrow> instant \<Rightarrow> session_update_reservation \<Rightarrow> session_entry \<Rightarrow> session_entry
     \<Rightarrow> (session_update_response, update_error) result \<times> critical" where
  "execute_update identity apply_prepared now later r s0 s =
     (let fail = (\<lambda>err. (Inl err, finish_update_error later (rv_update_id r) err s)) in
      case checked_add (rv_base_revision r) 1 of
        None \<Rightarrow> fail (update_failed ''workspace revision overflow'')
      | Some next_revision \<Rightarrow>
          (case identity of
             Inl err \<Rightarrow> fail (update_failed (be_message err))
           | Inr None \<Rightarrow> fail (update_failed ''managed source updates require a task identity'')
           | Inr (Some (uid, _, gid)) \<Rightarrow>
               (case apply_prepared (uid, gid) (ready_metadata next_revision s0) of
                  Inr applied \<Rightarrow> finish_update now later r next_revision applied s
                | Inl err \<Rightarrow> fail err)))"

definition update_worker_panicked :: "session_entry \<Rightarrow> critical" where
  "update_worker_panicked s =
     (if \<not> en_registered s then (s, None)
      else
        (case en_state s of
           Updating op \<Rightarrow> (terminate False Requester (cancel_operation op s), Some False)
         | Terminating t \<Rightarrow> (s, if tm_owner t = UpdateOwner then Some (tm_explicit t) else None)
         | _ \<Rightarrow> (s, None)))"

section \<open>Actions\<close>

record session_action_reservation =
  rr_action_id :: string
  rr_action_name :: string
  rr_action :: session_action_config
  rr_mode :: session_action_mode
  rr_workspace_revision :: string

definition start_action ::
  "string \<Rightarrow> instant \<Rightarrow> string \<Rightarrow> session_entry
     \<Rightarrow> (session_action_reservation, action_error) result \<times> session_entry" where
  "start_action fresh_id now action_name s =
     (case (lookup s, tc_session (en_task s)) of
        (Some _, Some session) \<Rightarrow>
          (case select_action session action_name of
             Inl e \<Rightarrow> (Inl e, s)
           | Inr (action, mode) \<Rightarrow>
               (case en_state s of
                  Ready _ \<Rightarrow>
                    if now < en_deadline s
                    then (Inr \<lparr>rr_action_id = ''act_'' @ fresh_id, rr_action_name = action_name, rr_action = action,
                      rr_mode = mode, rr_workspace_revision = revision_string (ud_revision (en_update_data s))\<rparr>,
                      s\<lparr>en_state := Action (''act_'' @ fresh_id)\<rparr>)
                    else (Inl ActionNotFound, s)
                | Terminating _ \<Rightarrow> (Inl ActionNotFound, s)
                | Terminated _ \<Rightarrow> (Inl ActionNotFound, s)
                | _ \<Rightarrow> (Inl ActionConflict, s)))
      | _ \<Rightarrow> (Inl ActionNotFound, s))"

definition action_can_publish :: "instant \<Rightarrow> string \<Rightarrow> session_entry \<Rightarrow> bool" where
  "action_can_publish now op s =
     (case en_state s of
        Action active \<Rightarrow> active = op \<and> active \<notin> en_cancelled s \<and> now < en_deadline s
      | _ \<Rightarrow> False)"

definition finish_action :: "instant \<Rightarrow> string \<Rightarrow> bool \<Rightarrow> session_entry \<Rightarrow> critical" where
  "finish_action later op reusable s =
     (case en_state s of
        Action active \<Rightarrow>
          if active = op \<and> reusable then (spawn_timer IdleTimer (s\<lparr>en_state := Ready later\<rparr>), None)
          else if active = op then (terminate False ActionOwner s, Some False)
          else (s, None)
      | Terminating t \<Rightarrow> (s, if tm_owner t = ActionOwner then Some (tm_explicit t) else None)
      | _ \<Rightarrow> (s, None))"

definition acknowledge_action_delivery ::
  "instant \<Rightarrow> instant \<Rightarrow> string \<Rightarrow> session_entry \<Rightarrow> bool \<times> session_entry" where
  "acknowledge_action_delivery now later op s =
     (if \<not> en_registered s then (False, s)
      else
        (case en_state s of
           Action active \<Rightarrow>
             if active = op \<and> active \<notin> en_cancelled s \<and> now < en_deadline s
             then (True, spawn_timer IdleTimer (s\<lparr>en_state := Ready later\<rparr>))
             else if active = op then (False, terminate False ActionOwner (cancel_operation active s))
             else (False, s)
         | _ \<Rightarrow> (False, s)))"

definition disconnect_action :: "string \<Rightarrow> session_entry \<Rightarrow> session_entry" where
  "disconnect_action op s =
     (if \<not> en_registered s then s
      else
        (case en_state s of
           Action active \<Rightarrow>
             if active = op then terminate False ActionOwner (cancel_operation active s) else s
         | _ \<Rightarrow> s))"

section \<open>Stopping and expiry\<close>

datatype stop_outcome = StopRejected stop_error | StopWaits | StopCleans

definition stop :: "session_entry \<Rightarrow> stop_outcome \<times> session_entry" where
  "stop s =
     (if \<not> en_registered s then (StopRejected StopNotFound, s)
      else
        (case en_state s of
           Initializing started \<Rightarrow>
             if started then (StopWaits, terminate True Initializer (cancel_initialization s))
             else (StopCleans, terminate True Requester (cancel_initialization s))
         | Action op \<Rightarrow> (StopWaits, terminate True ActionOwner (cancel_operation op s))
         | Updating op \<Rightarrow> (StopWaits, terminate True UpdateOwner (cancel_operation op s))
         | Ready _ \<Rightarrow> (StopCleans, terminate True Requester (cancel_initialization s))
         | Terminating _ \<Rightarrow> (StopRejected StopConflict, s)
         | Terminated _ \<Rightarrow> (StopRejected StopConflict, s)))"

text \<open>What a waiting \<^verbatim>\<open>stop\<close> returns when it is woken: it goes on waiting on \<^const>\<open>None\<close>.\<close>

definition stop_response :: "session_entry \<Rightarrow> session_stop_response option" where
  "stop_response s = (case en_state s of Terminated response \<Rightarrow> Some response | _ \<Rightarrow> None)"

definition expire_lifetime :: "session_entry \<Rightarrow> critical" where
  "expire_lifetime s =
     (if \<not> en_registered s then (s, None)
      else
        (case en_state s of
           Initializing started \<Rightarrow>
             if started then (terminate False Initializer (cancel_initialization s), None)
             else (terminate False Requester (cancel_initialization s), Some False)
         | Action op \<Rightarrow> (terminate False ActionOwner (cancel_operation op s), None)
         | Updating op \<Rightarrow> (terminate False UpdateOwner (cancel_operation op s), None)
         | Ready _ \<Rightarrow> (terminate False Requester (cancel_initialization s), Some False)
         | _ \<Rightarrow> (s, None)))"

definition idle_timeout :: "session_entry \<Rightarrow> nat" where
  "idle_timeout s = (case tc_session (en_task s) of Some session \<Rightarrow> secs (se_idle_timeout_sec session) | None \<Rightarrow> 0)"

definition expire_idle :: "instant \<Rightarrow> nat \<Rightarrow> session_entry \<Rightarrow> critical" where
  "expire_idle now idle s =
     (if \<not> en_registered s then (s, None)
      else
        (case en_state s of
           Ready activity \<Rightarrow> if idle \<le> now - activity then (terminate False Requester s, Some False) else (s, None)
         | _ \<Rightarrow> (s, None)))"

definition idle_remaining :: "instant \<Rightarrow> nat \<Rightarrow> session_entry \<Rightarrow> nat option" where
  "idle_remaining now idle s0 =
     Option.bind (lookup s0) (\<lambda>s.
       case en_state s of Ready activity \<Rightarrow> Some (idle - (now - activity)) | _ \<Rightarrow> None)"

definition abort_timers :: "session_entry \<Rightarrow> session_entry" where
  "abort_timers s = s\<lparr>en_timers := []\<rparr>"

section \<open>Cleanup\<close>

text \<open>
  What the outside world answers to a cleanup: for each service, in the order they are stopped,
  whether stopping it failed and whether that failure leaves its identity unproven; whether the
  workspace is a directory before the teardown and before the collection; the teardown's result;
  the collected artifacts, unless the collection failed.
\<close>

record cleanup_io =
  ci_stop :: "durable_service_process \<Rightarrow> bool option"
  ci_dir_before_teardown :: bool
  ci_teardown :: session_teardown_result
  ci_dir_before_collection :: bool
  ci_collection :: "(artifact_archive option \<times> artifact_restrictions option) option"

definition cleanup_begin :: "session_entry \<Rightarrow> running_service list \<times> session_entry" where
  "cleanup_begin s = (en_services s,
     (abort_timers s)\<lparr>en_retaining_service_output := True, en_services := []\<rparr>)"

definition stop_services :: "(durable_service_process \<Rightarrow> bool option) \<Rightarrow> running_service list \<Rightarrow> bool \<times> bool" where
  "stop_services stop_one services =
     foldl (\<lambda>(failed, unproven) v.
         case stop_one (rs_process v) of
           None \<Rightarrow> (failed, unproven)
         | Some cleanup_unproven \<Rightarrow> (True, unproven \<or> cleanup_unproven))
       (False, False) (rev services)"

definition missing_workspace :: session_teardown_result where
  "missing_workspace = \<lparr>td_duration_ms = 0, td_exit_code = None, td_timed_out = False,
     td_error_code = Some ''workspace_missing''\<rparr>"

definition set_error_code :: "string \<Rightarrow> session_teardown_result \<Rightarrow> session_teardown_result" where
  "set_error_code code t = (if td_error_code t = None then t\<lparr>td_error_code := Some code\<rparr> else t)"

definition cleanup_response ::
  "cleanup_io \<Rightarrow> bool \<Rightarrow> bool \<Rightarrow> session_entry \<Rightarrow> session_stop_response" where
  "cleanup_response io explicit service_cleanup_failed s =
     (let teardown0 = (if ci_dir_before_teardown io then ci_teardown io else missing_workspace);
          teardown1 = (if service_cleanup_failed then set_error_code ''service_cleanup_failed'' teardown0
            else teardown0);
          (teardown, artifacts, artifact_restrictions) =
            (if explicit \<and> ci_dir_before_collection io
             then (case ci_collection io of
                 Some (archive, restrictions) \<Rightarrow> (teardown1, archive, restrictions)
               | None \<Rightarrow> (set_error_code ''artifact_collection_failed'' teardown1, None, None))
             else (teardown1, None, None))
      in \<lparr>sr_session_id = en_id s, sr_teardown = teardown, sr_artifacts = artifacts,
          sr_artifact_restrictions = artifact_restrictions\<rparr>)"

definition cleanup_finish :: "session_stop_response \<Rightarrow> session_entry \<Rightarrow> session_entry" where
  "cleanup_finish response s =
     s\<lparr>en_registered := False, en_permit := False, en_state := Terminated response\<rparr>"

text \<open>Whether the protected metadata is removed: it is kept while a service may survive.\<close>

definition cleanup_entry ::
  "cleanup_io \<Rightarrow> bool \<Rightarrow> session_entry \<Rightarrow> session_stop_response \<times> bool \<times> session_entry" where
  "cleanup_entry io explicit s =
     (let (services, s1) = cleanup_begin s;
          (failed, unproven) = stop_services (ci_stop io) services;
          response = cleanup_response io explicit failed s1
      in (response, \<not> unproven, cleanup_finish response s1))"

end
