(* ===== verification/Session_Lifecycle.thy ===== *)
theory Session_Lifecycle
  imports Session_State
begin

text \<open>
  A session under concurrency. The threads that act on one session are the request that uploads its
  source, the initializer, the workers of its actions and updates, the streams that observe them,
  requests to stop it, its timers and the monitors of its services. A step of the system is one
  critical section of one thread, or one of its visible effects outside the lock; between two steps
  of a thread every other thread may take any number of steps.

  The proved invariant says which thread is responsible for the cleanup in every state, and so that
  the teardown of a session runs exactly once.
\<close>

section \<open>Threads\<close>

text \<open>Where the initializer is in \<^verbatim>\<open>initialize\<close>; the upload precedes it.\<close>

datatype initializer_pc =
    Uploading
  | Extracting
  | StartingServices
  | Checking
  | Committing
  | Electing
  | Retracting
  | FailingInit
  | InitDone

text \<open>
  Where the worker of an action is in \<^verbatim>\<open>execute_action\<close>: running, waiting for the acknowledgement
  of the final event, acknowledged, or about to call \<^verbatim>\<open>finish_action\<close> after a failure (with the
  final event already in the stream or not).
\<close>

datatype action_pc = ActionRunning | ActionWaiting | ActionAcknowledged | ActionFailing bool | ActionDone

datatype update_pc =
    UpdateRunning session_update_reservation
  | UpdateCommitted session_update_reservation u64 applied_evidence
  | UpdateDone

text \<open>A thread inside \<^verbatim>\<open>cleanup_entry\<close>, before and after it took the services.\<close>

datatype cleaner = CleanerStarting bool | CleanerRunning bool "running_service list"

record system =
  sy_entry :: session_entry
  sy_clock :: instant
  sy_durable :: "durable_session_metadata option"
  sy_init :: initializer_pc
  sy_spawned :: bool
  sy_actions :: "string \<rightharpoonup> action_pc"
  sy_updates :: "string \<rightharpoonup> update_pc"
  sy_cleaners :: "cleaner list"
  sy_waiters :: nat
  sy_teardowns :: nat
  sy_overlap :: bool

text \<open>
  The last two fields only observe: how many cleanups took the session's services, and whether an
  action was admitted while the worker of an earlier action had given up on its acknowledgement but
  not yet called \<^verbatim>\<open>finish_action\<close>.
\<close>

abbreviation sy_state :: "system \<Rightarrow> session_state" where
  "sy_state y \<equiv> en_state (sy_entry y)"

definition spawned_cleaner :: "bool option \<Rightarrow> cleaner list" where
  "spawned_cleaner c = (case c of None \<Rightarrow> [] | Some explicit \<Rightarrow> [CleanerStarting explicit])"

definition enter :: "critical \<Rightarrow> system \<Rightarrow> system" where
  "enter r y = y\<lparr>sy_entry := fst r, sy_cleaners := sy_cleaners y @ spawned_cleaner (snd r)\<rparr>"

definition initial :: "system \<Rightarrow> bool" where
  "initial y \<longleftrightarrow>
     (\<exists>root sid validated. reserve root sid (sy_clock y) validated = Some (sy_entry y))
     \<and> sy_durable y = None \<and> sy_init y = Uploading \<and> \<not> sy_spawned y \<and> sy_actions y = Map.empty
     \<and> sy_updates y = Map.empty \<and> sy_cleaners y = [] \<and> sy_waiters y = 0 \<and> sy_teardowns y = 0
     \<and> \<not> sy_overlap y"

definition starting_metadata :: "session_entry \<Rightarrow> durable_session_metadata" where
  "starting_metadata s =
     \<lparr>dm_version = METADATA_VERSION, dm_session_id = en_id s, dm_task_id = en_task_id s,
      dm_workspace_revision = 0, dm_state = DurableStartingServices, dm_services = durable_services s\<rparr>"

definition action_failing :: "system \<Rightarrow> bool" where
  "action_failing y \<longleftrightarrow> (\<exists>op e. sy_actions y op = Some (ActionFailing e))"

inductive step :: "system \<Rightarrow> system \<Rightarrow> bool" where
  tick: "step y (y\<lparr>sy_clock := sy_clock y + d\<rparr>)"
| upload_received: "sy_init y = Uploading \<Longrightarrow> begin_initialization (sy_clock y) (sy_entry y) = (ok, r)
    \<Longrightarrow> step y ((enter r y)\<lparr>sy_init := (if ok then Extracting else InitDone)\<rparr>)"
| upload_failed: "sy_init y = Uploading
    \<Longrightarrow> step y ((enter (cancel_upload (sy_entry y)) y)\<lparr>sy_init := InitDone\<rparr>)"
| upload_abandoned: "sy_init y = Uploading \<Longrightarrow> step y (y\<lparr>sy_init := InitDone\<rparr>)"
| extracted: "sy_init y = Extracting \<Longrightarrow> step y (y\<lparr>sy_init := StartingServices\<rparr>)"
| init_failed: "sy_init y \<in> {Extracting, StartingServices} \<Longrightarrow> step y (y\<lparr>sy_init := FailingInit\<rparr>)"
| startup_recorded: "sy_init y = StartingServices
    \<Longrightarrow> step y (y\<lparr>sy_durable := Some (starting_metadata (sy_entry y))\<rparr>)"
| service_spawned: "sy_init y = StartingServices \<Longrightarrow> step y (y\<lparr>sy_spawned := True\<rparr>)"
| service_pushed: "sy_init y = StartingServices \<Longrightarrow> sy_spawned y
    \<Longrightarrow> step y (y\<lparr>sy_entry := (sy_entry y)\<lparr>en_services := en_services (sy_entry y) @ [v]\<rparr>\<rparr>)"
| services_ready: "sy_init y = StartingServices \<Longrightarrow> step y (y\<lparr>sy_init := Checking\<rparr>)"
| commit_checked: "sy_init y = Checking \<Longrightarrow> commit_check (sy_clock y) (sy_entry y) = (ok, s)
    \<Longrightarrow> step y (y\<lparr>sy_entry := s, sy_init := (if ok then Committing else FailingInit)\<rparr>)"
| metadata_written: "sy_init y = Committing
    \<Longrightarrow> step y (y\<lparr>sy_durable := Some (ready_metadata 0 (sy_entry y)), sy_init := Electing\<rparr>)"
| metadata_failed: "sy_init y = Committing \<Longrightarrow> m \<in> {sy_durable y, Some (ready_metadata 0 (sy_entry y))}
    \<Longrightarrow> step y (y\<lparr>sy_durable := m, sy_entry := fail_initialization (sy_entry y), sy_init := FailingInit\<rparr>)"
| elected: "sy_init y = Electing \<Longrightarrow> commit_election (sy_clock y) later (sy_entry y) = (ok, s)
    \<Longrightarrow> step y (y\<lparr>sy_entry := s, sy_init := (if ok then InitDone else Retracting)\<rparr>)"
| retracted: "sy_init y = Retracting \<Longrightarrow> m \<in> {sy_durable y, None}
    \<Longrightarrow> step y (y\<lparr>sy_durable := m, sy_init := FailingInit\<rparr>)"
| init_cleanup: "sy_init y = FailingInit
    \<Longrightarrow> step y ((enter (initializer_cleanup False (sy_entry y)) y)\<lparr>sy_init := InitDone\<rparr>)"
| service_exit: "sy_spawned y \<Longrightarrow> step y (enter (service_failed (sy_entry y)) y)"
| start_disconnect: "step y (enter (disconnect (sy_entry y)) y)"
| update_admitted:
    "start_update fresh (sy_clock y) rid digest base (sy_entry y) = (Inr (Start r), s)
    \<Longrightarrow> sy_updates y (rv_update_id r) = None
    \<Longrightarrow> step y (y\<lparr>sy_entry := s, sy_updates := (sy_updates y)(rv_update_id r \<mapsto> UpdateRunning r)\<rparr>)"
| update_committed: "sy_updates y op = Some (UpdateRunning r) \<Longrightarrow> checked_add (rv_base_revision r) 1 = Some n
    \<Longrightarrow> step y (y\<lparr>sy_durable := Some (ready_metadata n (sy_entry y)),
        sy_updates := (sy_updates y)(op \<mapsto> UpdateCommitted r n applied)\<rparr>)"
| update_finished: "sy_updates y op = Some (UpdateCommitted r n applied)
    \<Longrightarrow> finish_update (sy_clock y) later r n applied (sy_entry y) = (res, c)
    \<Longrightarrow> step y ((enter c y)\<lparr>sy_updates := (sy_updates y)(op \<mapsto> UpdateDone)\<rparr>)"
| update_failed_unwritten: "sy_updates y op = Some (UpdateRunning r)
    \<Longrightarrow> step y ((enter (finish_update_error later op err (sy_entry y)) y)\<lparr>
        sy_updates := (sy_updates y)(op \<mapsto> UpdateDone)\<rparr>)"
| update_failed_written: "sy_updates y op = Some (UpdateRunning r)
    \<Longrightarrow> checked_add (rv_base_revision r) 1 = Some n
    \<Longrightarrow> step y ((enter (finish_update_error later op err (sy_entry y)) y)\<lparr>
        sy_durable := Some (ready_metadata n (sy_entry y)), sy_updates := (sy_updates y)(op \<mapsto> UpdateDone)\<rparr>)"
| update_panicked: "sy_updates y op \<in> {Some (UpdateRunning r), Some (UpdateCommitted r n applied)}
    \<Longrightarrow> step y ((enter (update_worker_panicked (sy_entry y)) y)\<lparr>
        sy_updates := (sy_updates y)(op \<mapsto> UpdateDone)\<rparr>)"
| action_admitted: "start_action fresh (sy_clock y) name (sy_entry y) = (Inr r, s)
    \<Longrightarrow> sy_actions y (rr_action_id r) = None
    \<Longrightarrow> step y (y\<lparr>sy_entry := s, sy_actions := (sy_actions y)(rr_action_id r \<mapsto> ActionRunning),
        sy_overlap := sy_overlap y \<or> action_failing y\<rparr>)"
| action_failed: "sy_actions y op = Some ActionRunning
    \<Longrightarrow> step y (y\<lparr>sy_actions := (sy_actions y)(op \<mapsto> ActionFailing False)\<rparr>)"
| action_enqueued: "sy_actions y op = Some ActionRunning \<Longrightarrow> action_can_publish now op (sy_entry y)
    \<Longrightarrow> step y (y\<lparr>sy_actions := (sy_actions y)(op \<mapsto> ActionWaiting)\<rparr>)"
| action_unacknowledged: "sy_actions y op = Some ActionWaiting
    \<Longrightarrow> step y (y\<lparr>sy_actions := (sy_actions y)(op \<mapsto> ActionFailing True)\<rparr>)"
| acknowledged: "sy_actions y op = Some p \<Longrightarrow> p \<in> {ActionWaiting, ActionFailing True}
    \<Longrightarrow> acknowledge_action_delivery (sy_clock y) later op (sy_entry y) = (ok, s)
    \<Longrightarrow> step y (y\<lparr>sy_entry := s, sy_actions := (sy_actions y)(op \<mapsto>
        (if p = ActionWaiting then (if ok then ActionAcknowledged else ActionFailing True) else p))\<rparr>)"
| action_delivered: "sy_actions y op = Some ActionAcknowledged
    \<Longrightarrow> step y (y\<lparr>sy_actions := (sy_actions y)(op \<mapsto> ActionDone)\<rparr>)"
| action_finished: "sy_actions y op = Some (ActionFailing e)
    \<Longrightarrow> step y ((enter (finish_action later op False (sy_entry y)) y)\<lparr>
        sy_actions := (sy_actions y)(op \<mapsto> ActionDone)\<rparr>)"
| action_disconnect: "step y (y\<lparr>sy_entry := disconnect_action op (sy_entry y)\<rparr>)"
| stop_waits: "stop (sy_entry y) = (StopWaits, s) \<Longrightarrow> step y (y\<lparr>sy_entry := s, sy_waiters := Suc (sy_waiters y)\<rparr>)"
| stop_cleans: "stop (sy_entry y) = (StopCleans, s) \<Longrightarrow> step y (enter (s, Some True) y)"
| stop_returns: "sy_waiters y = Suc n \<Longrightarrow> stop_response (sy_entry y) = Some response
    \<Longrightarrow> step y (y\<lparr>sy_waiters := n\<rparr>)"
| lifetime_timer: "en_deadline (sy_entry y) \<le> sy_clock y \<Longrightarrow> step y (enter (expire_lifetime (sy_entry y)) y)"
| idle_timer: "step y (enter (expire_idle (sy_clock y) (idle_timeout (sy_entry y)) (sy_entry y)) y)"
| cleanup_started: "CleanerStarting explicit \<in> set (sy_cleaners y) \<Longrightarrow> cleanup_begin (sy_entry y) = (services, s)
    \<Longrightarrow> step y (y\<lparr>sy_entry := s, sy_teardowns := Suc (sy_teardowns y), sy_cleaners :=
        CleanerRunning explicit services # remove1 (CleanerStarting explicit) (sy_cleaners y)\<rparr>)"
| cleanup_finished: "CleanerRunning explicit services \<in> set (sy_cleaners y)
    \<Longrightarrow> stop_services (ci_stop io) services = (failed, unproven)
    \<Longrightarrow> m \<in> {sy_durable y, None} \<Longrightarrow> (unproven \<Longrightarrow> m = sy_durable y)
    \<Longrightarrow> step y (y\<lparr>sy_entry := cleanup_finish (cleanup_response io explicit failed (sy_entry y)) (sy_entry y),
        sy_durable := m, sy_cleaners := remove1 (CleanerRunning explicit services) (sy_cleaners y)\<rparr>)"

inductive reachable :: "system \<Rightarrow> bool" where
  reachable_initial: "initial y \<Longrightarrow> reachable y"
| reachable_step: "reachable y \<Longrightarrow> step y y' \<Longrightarrow> reachable y'"

section \<open>Who cleans up\<close>

definition init_live :: "initializer_pc \<Rightarrow> bool" where
  "init_live p \<longleftrightarrow> p \<notin> {Uploading, InitDone}"

fun action_claims :: "action_pc \<Rightarrow> bool" where
  "action_claims ActionAcknowledged = False"
| "action_claims ActionDone = False"
| "action_claims _ = True"

fun action_stale :: "action_pc \<Rightarrow> bool" where
  "action_stale ActionRunning = False"
| "action_stale ActionWaiting = False"
| "action_stale _ = True"

definition no_claim :: "(string \<rightharpoonup> action_pc) \<Rightarrow> bool" where
  "no_claim acts \<longleftrightarrow> (\<forall>op p. acts op = Some p \<longrightarrow> \<not> action_claims p)"

definition only_claim :: "string \<Rightarrow> (string \<rightharpoonup> action_pc) \<Rightarrow> bool" where
  "only_claim op acts \<longleftrightarrow> (\<exists>p. acts op = Some p \<and> action_claims p) \<and> no_claim (acts(op := None))"

text \<open>Workers left behind: they gave up on an acknowledgement that then arrived.\<close>

definition only_stale :: "(string \<rightharpoonup> action_pc) \<Rightarrow> bool" where
  "only_stale acts \<longleftrightarrow> (\<forall>op p. acts op = Some p \<longrightarrow> action_stale p)"

definition updates_done :: "(string \<rightharpoonup> update_pc) \<Rightarrow> bool" where
  "updates_done upds \<longleftrightarrow> (\<forall>op p. upds op = Some p \<longrightarrow> p = UpdateDone)"

definition only_update :: "string \<Rightarrow> (string \<rightharpoonup> update_pc) \<Rightarrow> bool" where
  "only_update op upds \<longleftrightarrow> (\<exists>p. upds op = Some p \<and> p \<noteq> UpdateDone) \<and> updates_done (upds(op := None))"

definition one_cleaner :: "cleaner list \<Rightarrow> nat \<Rightarrow> bool \<Rightarrow> bool" where
  "one_cleaner cls n explicit \<longleftrightarrow>
     (cls = [CleanerStarting explicit] \<and> n = 0) \<or> (\<exists>vs. cls = [CleanerRunning explicit vs] \<and> n = 1)"

definition no_cleaner :: "cleaner list \<Rightarrow> nat \<Rightarrow> bool" where
  "no_cleaner cls n \<longleftrightarrow> cls = [] \<and> n = 0"

text \<open>
  The one thread that will clean up, or is cleaning up, in each state: \<open>live\<close> says whether the initializer runs, \<open>acts\<close> and \<open>upds\<close>
  are the workers, \<open>cls\<close> the cleanups that run and \<open>n\<close> how many started.
\<close>

fun responsible ::
  "session_state \<Rightarrow> bool \<Rightarrow> (string \<rightharpoonup> action_pc) \<Rightarrow> (string \<rightharpoonup> update_pc) \<Rightarrow> cleaner list \<Rightarrow> nat \<Rightarrow> bool" where
  "responsible (Initializing started) live acts upds cls n \<longleftrightarrow>
     live = started \<and> only_stale acts \<and> updates_done upds \<and> no_cleaner cls n"
| "responsible (Ready _) live acts upds cls n \<longleftrightarrow>
     \<not> live \<and> only_stale acts \<and> updates_done upds \<and> no_cleaner cls n"
| "responsible (Action op) live acts upds cls n \<longleftrightarrow>
     \<not> live \<and> only_claim op acts \<and> updates_done upds \<and> no_cleaner cls n"
| "responsible (Updating op) live acts upds cls n \<longleftrightarrow>
     \<not> live \<and> only_stale acts \<and> only_update op upds \<and> no_cleaner cls n"
| "responsible (Terminating t) live acts upds cls n \<longleftrightarrow>
     (case tm_owner t of
        Requester \<Rightarrow> \<not> live \<and> only_stale acts \<and> updates_done upds \<and> one_cleaner cls n (tm_explicit t)
      | Initializer \<Rightarrow> only_stale acts \<and> updates_done upds
          \<and> (if live then no_cleaner cls n else one_cleaner cls n (tm_explicit t))
      | ActionOwner \<Rightarrow> \<not> live \<and> updates_done upds
          \<and> (if no_claim acts then one_cleaner cls n (tm_explicit t)
             else (\<exists>op. only_claim op acts) \<and> no_cleaner cls n)
      | UpdateOwner \<Rightarrow> \<not> live \<and> only_stale acts
          \<and> (if updates_done upds then one_cleaner cls n (tm_explicit t)
             else (\<exists>op. only_update op upds) \<and> no_cleaner cls n))"
| "responsible (Terminated _) live acts upds cls n \<longleftrightarrow>
     \<not> live \<and> only_stale acts \<and> updates_done upds \<and> cls = [] \<and> n = 1"

definition exclusive :: "system \<Rightarrow> bool" where
  "exclusive y \<longleftrightarrow> responsible (sy_state y) (init_live (sy_init y)) (sy_actions y) (sy_updates y) (sy_cleaners y) (sy_teardowns y)
     \<and> (sy_spawned y \<longrightarrow> sy_state y \<noteq> Initializing False)"

lemma no_claim_upd [simp]:
  "no_claim (acts(op \<mapsto> p)) \<longleftrightarrow> \<not> action_claims p \<and> no_claim (acts(op := None))"
  by (auto simp: no_claim_def)

lemma only_stale_upd [simp]:
  "only_stale (acts(op \<mapsto> p)) \<longleftrightarrow> action_stale p \<and> only_stale (acts(op := None))"
  by (auto simp: only_stale_def)

lemma updates_done_upd [simp]:
  "updates_done (upds(op \<mapsto> p)) \<longleftrightarrow> p = UpdateDone \<and> updates_done (upds(op := None))"
  by (auto simp: updates_done_def)

lemma terminate_simps [simp]:
  "en_state (terminate e w s) = Terminating \<lparr>tm_explicit = e, tm_owner = w\<rparr>"
  "en_state (cancel_initialization s) = en_state s" "en_state (cancel_operation op s) = en_state s"
  "en_state (spawn_timer t s) = en_state s" "en_state (retain_outputs s) = en_state s"
  by (simp_all add: terminate_def cancel_initialization_def cancel_operation_def spawn_timer_def retain_outputs_def)

lemma enter_simps [simp]:
  "sy_entry (enter r y) = fst r" "sy_clock (enter r y) = sy_clock y" "sy_durable (enter r y) = sy_durable y"
  "sy_init (enter r y) = sy_init y" "sy_spawned (enter r y) = sy_spawned y" "sy_actions (enter r y) = sy_actions y"
  "sy_updates (enter r y) = sy_updates y" "sy_waiters (enter r y) = sy_waiters y"
  "sy_teardowns (enter r y) = sy_teardowns y" "sy_overlap (enter r y) = sy_overlap y"
  "sy_cleaners (enter r y) = sy_cleaners y @ spawned_cleaner (snd r)"
  by (simp_all add: enter_def)

lemma init_live_simps [simp]:
  "\<not> init_live Uploading" "\<not> init_live InitDone" "init_live Extracting" "init_live StartingServices"
  "init_live Checking" "init_live Committing" "init_live Electing" "init_live Retracting" "init_live FailingInit"
  by (simp_all add: init_live_def)

lemma no_claim_stale: "no_claim acts \<Longrightarrow> only_stale acts"
proof -
  assume "no_claim acts"
  then have "\<not> action_claims p" if "acts op = Some p" for op p using that unfolding no_claim_def by blast
  moreover have "action_stale p" if "\<not> action_claims p" for p using that by (cases p) auto
  ultimately show "only_stale acts" unfolding only_stale_def by blast
qed

lemma only_stale_no_claim: "only_stale (sy_actions y) \<Longrightarrow> \<not> action_failing y \<Longrightarrow> no_claim (sy_actions y)"
proof -
  assume a: "only_stale (sy_actions y)" "\<not> action_failing y"
  have "\<not> action_claims p" if "sy_actions y op = Some p" for op p
  proof (cases p)
    case (ActionFailing e)
    with a(2) that show ?thesis unfolding action_failing_def by blast
  next
    case ActionRunning
    with a(1) that show ?thesis unfolding only_stale_def by fastforce
  next
    case ActionWaiting
    with a(1) that show ?thesis unfolding only_stale_def by fastforce
  qed auto
  then show ?thesis unfolding no_claim_def by blast
qed

lemma removed_keeps:
  "only_stale acts \<Longrightarrow> only_stale (acts(op := None))" "no_claim acts \<Longrightarrow> no_claim (acts(op := None))"
  "updates_done upds \<Longrightarrow> updates_done (upds(op := None))"
  by (auto simp: only_stale_def no_claim_def updates_done_def)

lemma spawned_cleaner_simps [simp]:
  "spawned_cleaner None = []" "spawned_cleaner (Some e) = [CleanerStarting e]"
  by (simp_all add: spawned_cleaner_def)

lemma no_cleaner_add [simp]: "no_cleaner cls n \<Longrightarrow> one_cleaner (cls @ [CleanerStarting e]) n e'  \<longleftrightarrow> e = e'"
  by (auto simp: no_cleaner_def one_cleaner_def)

lemma only_claim_not_none: "only_claim op acts \<Longrightarrow> \<not> no_claim acts"
  by (auto simp: only_claim_def no_claim_def)

lemma only_update_not_done: "only_update op upds \<Longrightarrow> \<not> updates_done upds"
  by (auto simp: only_update_def updates_done_def)

lemma only_update_unique:
  assumes "only_update op' upds" and "upds op = Some p" and "p \<noteq> UpdateDone"
  shows "op' = op \<and> updates_done (upds(op := None))"
proof -
  from assms(1) have d: "updates_done (upds(op' := None))" by (simp add: only_update_def)
  have "op' = op"
  proof (rule ccontr)
    assume "op' \<noteq> op"
    then have "(upds(op' := None)) op = Some p" using assms(2) by simp
    with d assms(3) show False unfolding updates_done_def by blast
  qed
  with d show ?thesis by simp
qed

lemma only_claim_unique:
  assumes "only_claim op' acts" and "acts op = Some p" and "action_claims p"
  shows "op' = op \<and> no_claim (acts(op := None))"
proof -
  from assms(1) have d: "no_claim (acts(op' := None))" by (simp add: only_claim_def)
  have "op' = op"
  proof (rule ccontr)
    assume "op' \<noteq> op"
    then have "(acts(op' := None)) op = Some p" using assms(2) by simp
    with d assms(3) show False unfolding no_claim_def by blast
  qed
  with d show ?thesis by simp
qed

text \<open>Handlers that only react to the state keep the responsibility unique.\<close>

named_theorems responsible_intros

lemma responsible_same [responsible_intros]:
  "responsible st live acts upds cls n \<Longrightarrow> st = st' \<Longrightarrow> responsible st' live acts upds (cls @ spawned_cleaner None) n"
  by simp

lemma responsible_cancel_upload [responsible_intros]:
  assumes "responsible (en_state s) False acts upds cls n"
  shows "responsible (en_state (fst (cancel_upload s))) False acts upds (cls @ spawned_cleaner (snd (cancel_upload s))) n"
  using assms by (cases "en_state s") (auto simp: cancel_upload_def)

lemma responsible_begin [responsible_intros]:
  assumes "responsible (en_state s) False acts upds cls n" and "begin_initialization now s = (ok, r)"
  shows "responsible (en_state (fst r)) ok acts upds (cls @ spawned_cleaner (snd r)) n"
  using assms by (cases "en_state s") (auto simp: begin_initialization_def split: if_splits)

lemma responsible_service_failed [responsible_intros]:
  assumes "responsible (en_state s) live acts upds cls n" and "en_state s \<noteq> Initializing False"
  shows "responsible (en_state (fst (service_failed s))) live acts upds
    (cls @ spawned_cleaner (snd (service_failed s))) n"
  using assms
  by (cases "en_state s") (auto simp: service_failed_def dest: only_claim_not_none only_update_not_done)

lemma responsible_disconnect [responsible_intros]:
  assumes "responsible (en_state s) live acts upds cls n"
  shows "responsible (en_state (fst (disconnect s))) live acts upds (cls @ spawned_cleaner (snd (disconnect s))) n"
  using assms by (cases "en_state s") (auto simp: disconnect_def)

lemma responsible_disconnect_action [responsible_intros]:
  assumes "responsible (en_state s) live acts upds cls n"
  shows "responsible (en_state (disconnect_action op s)) live acts upds cls n"
  using assms by (cases "en_state s") (auto simp: disconnect_action_def dest: only_claim_not_none)

lemma responsible_stop [responsible_intros]:
  assumes "responsible (en_state s) live acts upds cls n" and "stop s = (out, s')"
  shows "responsible (en_state s') live acts upds
    (cls @ spawned_cleaner (if out = StopCleans then Some True else None)) n"
  using assms
  by (cases "en_state s") (auto simp: stop_def split: if_splits dest: only_claim_not_none only_update_not_done)

lemma responsible_expire_lifetime [responsible_intros]:
  assumes "responsible (en_state s) live acts upds cls n"
  shows "responsible (en_state (fst (expire_lifetime s))) live acts upds
    (cls @ spawned_cleaner (snd (expire_lifetime s))) n"
  using assms
  by (cases "en_state s") (auto simp: expire_lifetime_def dest: only_claim_not_none only_update_not_done)

lemma responsible_expire_idle [responsible_intros]:
  assumes "responsible (en_state s) live acts upds cls n"
  shows "responsible (en_state (fst (expire_idle now idle s))) live acts upds
    (cls @ spawned_cleaner (snd (expire_idle now idle s))) n"
  using assms by (cases "en_state s") (auto simp: expire_idle_def)

text \<open>The initializer.\<close>

lemma responsible_fail_initialization [responsible_intros]:
  assumes "responsible (en_state s) True acts upds cls n"
  shows "responsible (en_state (fail_initialization s)) True acts upds cls n"
  using assms by (cases "en_state s") (auto simp: fail_initialization_def is_initializing_def)

lemma responsible_commit_check [responsible_intros]:
  assumes "responsible (en_state s) True acts upds cls n" and "commit_check now s = (ok, s')"
  shows "responsible (en_state s') True acts upds cls n"
  using assms responsible_fail_initialization by (auto simp: commit_check_def split: if_splits)

lemma responsible_commit_election [responsible_intros]:
  assumes "responsible (en_state s) True acts upds cls n" and "commit_election now later s = (ok, s')"
  shows "responsible (en_state s') (\<not> ok) acts upds cls n"
proof (cases ok)
  case True
  with assms show ?thesis
    by (cases "en_state s") (auto simp: commit_election_def is_initializing_def split: if_splits)
next
  case False
  with assms responsible_fail_initialization show ?thesis by (auto simp: commit_election_def split: if_splits)
qed

lemma responsible_initializer_cleanup [responsible_intros]:
  assumes "responsible (en_state s) True acts upds cls n"
  shows "responsible (en_state (fst (initializer_cleanup e s))) False acts upds
    (cls @ spawned_cleaner (snd (initializer_cleanup e s))) n"
  using assms by (cases "en_state s") (auto simp: initializer_cleanup_def split: cleanup_owner.splits if_splits)

text \<open>The worker of an update.\<close>

lemma responsible_update_pc [responsible_intros]:
  assumes "responsible st live acts upds cls n" and "upds op = Some p" "p \<noteq> UpdateDone" "p' \<noteq> UpdateDone"
  shows "responsible st live acts (upds(op \<mapsto> p')) cls n"
proof -
  have "\<not> updates_done upds" using assms(2,3) by (auto simp: updates_done_def)
  moreover have "only_update op' (upds(op \<mapsto> p'))" if "only_update op' upds" for op'
    using that assms(2-4) by (auto simp: only_update_def updates_done_def split: if_splits)
  ultimately show ?thesis using assms(1)
    by (cases st) (auto simp: updates_done_def [of "upds(op \<mapsto> p')"] assms(4) split: cleanup_owner.splits if_splits)
qed

lemma responsible_update_error [responsible_intros]:
  assumes "responsible (en_state s) live acts upds cls n" and "upds op = Some p" "p \<noteq> UpdateDone"
  shows "responsible (en_state (fst (finish_update_error later op err s))) live acts (upds(op \<mapsto> UpdateDone))
    (cls @ spawned_cleaner (snd (finish_update_error later op err s))) n"
proof -
  have nd: "\<not> updates_done upds" using assms(2,3) by (auto simp: updates_done_def)
  note eq = only_update_unique [of _ upds op, OF _ assms(2,3)]
  show ?thesis using assms(1) nd
    by (cases "en_state s") (auto simp: finish_update_error_def split: cleanup_owner.splits if_splits dest!: eq)
qed

lemma responsible_finish_update [responsible_intros]:
  assumes "responsible (en_state s) live acts upds cls n" and "upds op = Some p" "p \<noteq> UpdateDone"
    and "finish_update now later r v applied s = (res, c)"
  shows "responsible (en_state (fst c)) live acts (upds(op \<mapsto> UpdateDone)) (cls @ spawned_cleaner (snd c)) n"
proof -
  have nd: "\<not> updates_done upds" using assms(2,3) by (auto simp: updates_done_def)
  note eq = only_update_unique [of _ upds op, OF _ assms(2,3)]
  show ?thesis using assms(1,4) nd
    by (cases "en_state s")
      (auto simp: finish_update_def Let_def split: cleanup_owner.splits if_splits dest!: eq)
qed

lemma responsible_update_panicked [responsible_intros]:
  assumes "responsible (en_state s) live acts upds cls n" and "upds op = Some p" "p \<noteq> UpdateDone"
    and "en_registered s"
  shows "responsible (en_state (fst (update_worker_panicked s))) live acts (upds(op \<mapsto> UpdateDone))
    (cls @ spawned_cleaner (snd (update_worker_panicked s))) n"
proof -
  have nd: "\<not> updates_done upds" using assms(2,3) by (auto simp: updates_done_def)
  note eq = only_update_unique [of _ upds op, OF _ assms(2,3)]
  show ?thesis using assms(1,4) nd
    by (cases "en_state s") (auto simp: update_worker_panicked_def split: cleanup_owner.splits if_splits dest!: eq)
qed

text \<open>The worker of an action.\<close>

lemma responsible_action_pc [responsible_intros]:
  assumes "responsible st live acts upds cls n" and "acts op = Some p"
    and "action_claims p = action_claims p'" and "action_stale p \<Longrightarrow> action_stale p'"
  shows "responsible st live (acts(op \<mapsto> p')) upds cls n"
proof -
  have "no_claim (acts(op \<mapsto> p')) = no_claim acts" using assms(2,3) by (auto simp: no_claim_def split: if_splits)
  moreover have "only_claim op' (acts(op \<mapsto> p')) = only_claim op' acts" for op'
    using assms(2,3) by (auto simp: only_claim_def no_claim_def split: if_splits)
  moreover have "only_stale acts \<Longrightarrow> only_stale (acts(op \<mapsto> p'))"
    using assms(2,4) by (auto simp: only_stale_def split: if_splits)
  ultimately show ?thesis using assms(1) by (cases st) (auto split: cleanup_owner.splits if_splits)
qed

lemma responsible_finish_action [responsible_intros]:
  assumes "responsible (en_state s) live acts upds cls n" and "acts op = Some (ActionFailing e)"
  shows "responsible (en_state (fst (finish_action later op False s))) live (acts(op \<mapsto> ActionDone)) upds
    (cls @ spawned_cleaner (snd (finish_action later op False s))) n"
proof -
  have c: "action_claims (ActionFailing e)" by simp
  then have nd: "\<not> no_claim acts" using assms(2) unfolding no_claim_def by blast
  note eq = only_claim_unique [of _ acts op, OF _ assms(2) c]
  have "only_stale acts \<Longrightarrow> only_stale (acts(op := None))" by (rule removed_keeps)
  with assms(1) nd show ?thesis
    by (cases "en_state s") (auto simp: finish_action_def split: cleanup_owner.splits if_splits dest!: eq)
qed

lemma responsible_acknowledged [responsible_intros]:
  assumes "responsible (en_state s) live acts upds cls n" and "acts op = Some p" "action_claims p"
    and "p' \<in> {p, if ok then ActionAcknowledged else ActionFailing True}" "ok \<Longrightarrow> p \<noteq> p' \<or> p = ActionFailing True"
    and "acknowledge_action_delivery now later op s = (ok, s')"
  shows "responsible (en_state s') live (acts(op \<mapsto> p')) upds cls n"
proof (cases "en_state s = Action op \<and> en_registered s")
  case True
  with assms(1) have a: "only_claim op acts" "\<not> live" "updates_done upds" "no_cleaner cls n" by auto
  then have "no_claim (acts(op := None))" by (simp add: only_claim_def)
  then have st: "only_stale (acts(op := None))" by (rule no_claim_stale)
  show ?thesis
  proof (cases ok)
    case ok: True
    with True assms(6) have "en_state s' = Ready later"
      by (auto simp: acknowledge_action_delivery_def split: if_splits)
    moreover from ok assms(4,5) have "action_stale p'" by auto
    ultimately show ?thesis using a st by simp
  next
    case False
    with True assms(6) have "en_state s' = Terminating \<lparr>tm_explicit = False, tm_owner = ActionOwner\<rparr>"
      by (auto simp: acknowledge_action_delivery_def split: if_splits)
    moreover from False assms(3,4) have p': "action_claims p'" by auto
    with a(1) have "only_claim op (acts(op \<mapsto> p'))" by (simp add: only_claim_def)
    ultimately show ?thesis using a p' by auto
  qed
next
  case False
  with assms(6) have eq: "s' = s" "\<not> ok"
    by (auto simp: acknowledge_action_delivery_def split: if_splits session_state.splits)
  have "action_claims p'" using assms(3,4) eq(2) by auto
  moreover have "action_stale p'" if "action_stale p" using that assms(4) eq(2) by auto
  ultimately show ?thesis using responsible_action_pc [OF assms(1,2), of p'] assms(3) eq(1) by simp
qed

lemma start_update_Start:
  assumes "start_update fresh now rid digest base s = (Inr (Start r), s')"
  shows "\<exists>t. en_state s = Ready t" and "s' = s\<lparr>en_state := Updating (rv_update_id r)\<rparr>"
    and "rv_base_revision r = ud_revision (en_update_data s)"
  using assms
  by (auto simp: start_update_def admit_update_def Let_def split: session_state.splits if_splits option.splits)

lemma start_action_Inr:
  assumes "start_action fresh now name s = (Inr r, s')"
  shows "\<exists>t. en_state s = Ready t" and "s' = s\<lparr>en_state := Action (rr_action_id r)\<rparr>"
  using assms
  by (auto simp: start_action_def split: session_state.splits if_splits option.splits sum.splits prod.splits)

section \<open>Bookkeeping\<close>

definition is_terminated :: "session_entry \<Rightarrow> bool" where
  "is_terminated s \<longleftrightarrow> stop_response s \<noteq> None"

lemma is_terminated_simps [simp]:
  "is_terminated s \<longleftrightarrow> (\<exists>r. en_state s = Terminated r)"
  by (auto simp: is_terminated_def stop_response_def split: session_state.splits)

text \<open>What every critical section except the end of a cleanup leaves alone.\<close>

definition kept :: "session_entry \<Rightarrow> session_entry \<Rightarrow> bool" where
  "kept s s' \<longleftrightarrow> en_registered s' = en_registered s \<and> en_permit s' = en_permit s \<and> en_id s' = en_id s
     \<and> en_task s' = en_task s \<and> en_task_id s' = en_task_id s \<and> en_deadline s' = en_deadline s
     \<and> (is_terminated s' \<longleftrightarrow> is_terminated s)"

named_theorems kept_intros

lemma kept_refl [simp]: "kept s s" by (simp add: kept_def)

lemmas section_defs = begin_initialization_def cancel_upload_def fail_initialization_def is_initializing_def
  commit_check_def commit_election_def initializer_cleanup_def service_failed_def disconnect_def
  finish_update_error_def finish_update_def update_worker_panicked_def finish_action_def
  acknowledge_action_delivery_def disconnect_action_def stop_def expire_lifetime_def expire_idle_def
  terminate_def cancel_initialization_def cancel_operation_def spawn_timer_def retain_outputs_def
  record_update_def Let_def

lemma kept_sections [kept_intros]:
  "begin_initialization now s = (ok, r) \<Longrightarrow> kept s (fst r)"
  "kept s (fst (cancel_upload s))" "kept s (fail_initialization s)"
  "commit_check now s = (ok, s') \<Longrightarrow> kept s s'" "commit_election now later s = (ok, s') \<Longrightarrow> kept s s'"
  "kept s (fst (initializer_cleanup e s))" "kept s (fst (service_failed s))" "kept s (fst (disconnect s))"
  "kept s (fst (finish_update_error later op err s))" "finish_update now later u v applied s = (res, r) \<Longrightarrow> kept s (fst r)"
  "kept s (fst (update_worker_panicked s))" "kept s (fst (finish_action later op b s))"
  "acknowledge_action_delivery now later op s = (ok, s') \<Longrightarrow> kept s s'" "kept s (disconnect_action op s)"
  "stop s = (out, s') \<Longrightarrow> kept s s'" "kept s (fst (expire_lifetime s))" "kept s (fst (expire_idle now idle s))"
  by (auto simp: kept_def section_defs split: session_state.splits if_splits)

lemma kept_starts [kept_intros]:
  "start_update fresh now rid digest base s = (Inr (Start u), s') \<Longrightarrow> kept s s'"
  "start_action fresh now name s = (Inr a, s') \<Longrightarrow> kept s s'"
  using start_update_Start(1,2) start_action_Inr by (fastforce simp: kept_def)+

definition booked :: "session_entry \<Rightarrow> bool" where
  "booked s \<longleftrightarrow> en_registered s = (\<not> is_terminated s) \<and> en_permit s = (\<not> is_terminated s)"

lemma kept_booked: "kept s s' \<Longrightarrow> booked s \<Longrightarrow> booked s'"
  by (auto simp: kept_def booked_def)

lemma booked_step: "step y y' \<Longrightarrow> booked (sy_entry y) \<Longrightarrow> booked (sy_entry y')"
proof (induction rule: step.induct)
  case (service_pushed y v)
  then show ?case by (simp add: booked_def)
next
  case (cleanup_started explicit y services s)
  then show ?case by (auto simp: booked_def cleanup_begin_def abort_timers_def)
next
  case (cleanup_finished explicit services y io failed unproven m)
  then show ?case by (simp add: booked_def cleanup_finish_def)
next
  case (stop_cleans y s)
  then show ?case using kept_booked [OF kept_sections(15)] by simp
qed (auto intro: kept_booked kept_intros simp del: is_terminated_simps)

section \<open>The invariant\<close>

lemma responsible_cleanup_begin:
  assumes "responsible st live acts upds cls n" and "CleanerStarting e \<in> set cls"
  shows "responsible st live acts upds (CleanerRunning e vs # remove1 (CleanerStarting e) cls) (Suc n)"
  using assms
  by (cases st) (auto simp: no_cleaner_def one_cleaner_def split: cleanup_owner.splits if_splits)

lemma responsible_cleanup_finish:
  assumes "responsible st live acts upds cls n" and "CleanerRunning e vs \<in> set cls"
  shows "responsible (Terminated response) live acts upds (remove1 (CleanerRunning e vs) cls) n"
  using assms no_claim_stale
  by (cases st) (auto simp: no_cleaner_def one_cleaner_def split: cleanup_owner.splits if_splits)

lemma not_initializing_False:
  "responsible st live acts upds cls n \<Longrightarrow> live \<Longrightarrow> st \<noteq> Initializing False"
  by auto

lemma sections_not_fresh:
  "en_state s \<noteq> Initializing False \<Longrightarrow> en_state (fst (service_failed s)) \<noteq> Initializing False"
  by (auto simp: service_failed_def split: session_state.splits)

definition safe :: "system \<Rightarrow> bool" where
  "safe y \<longleftrightarrow> exclusive y \<and> booked (sy_entry y)"

lemma exclusiveI:
  assumes "responsible (sy_state y) (init_live (sy_init y)) (sy_actions y) (sy_updates y) (sy_cleaners y) (sy_teardowns y)"
    and "sy_spawned y \<Longrightarrow> sy_state y \<noteq> Initializing False"
  shows "exclusive y"
  using assms by (simp add: exclusive_def)

lemma never_fresh_again:
  assumes "step y y'" and "sy_state y \<noteq> Initializing False"
  shows "sy_state y' \<noteq> Initializing False"
  using assms
proof (induction rule: step.induct)
  case (update_admitted fresh y rid digest base r s)
  then show ?case using start_update_Start(2) by fastforce
next
  case (action_admitted fresh y name r s)
  then show ?case using start_action_Inr(2) by fastforce
next
  case (cleanup_started explicit y services s)
  then show ?case by (auto simp: cleanup_begin_def abort_timers_def)
next
  case (cleanup_finished explicit services y io failed unproven m)
  then show ?case by (simp add: cleanup_finish_def)
qed (auto simp: section_defs split: session_state.splits if_splits)

lemma exclusive_step:
  assumes "step y y'" and "safe y" and "\<not> sy_overlap y'"
  shows "exclusive y'"
proof -
  from assms(2) have R: "responsible (sy_state y) (init_live (sy_init y)) (sy_actions y) (sy_updates y)
      (sy_cleaners y) (sy_teardowns y)" and S: "sy_spawned y \<Longrightarrow> sy_state y \<noteq> Initializing False"
    and B: "booked (sy_entry y)" by (auto simp: safe_def exclusive_def)
  have S': "sy_state y' \<noteq> Initializing False" if "sy_spawned y"
    using never_fresh_again [OF assms(1) S [OF that]] .
  show ?thesis using assms(1,3) R S S' B
  proof (cases rule: step.cases)
    case (tick d)
    with R S show ?thesis by (simp add: exclusive_def)
  next
    case (upload_received ok r)
    with R S' responsible_begin [of "sy_entry y"] show ?thesis by (cases ok) (auto intro!: exclusiveI)
  next
    case upload_failed
    with R S' responsible_cancel_upload [of "sy_entry y"] show ?thesis by (auto intro!: exclusiveI)
  next
    case upload_abandoned
    with R S show ?thesis by (simp add: exclusive_def)
  next
    case extracted
    with R S show ?thesis by (simp add: exclusive_def)
  next
    case init_failed
    with R S show ?thesis by (auto simp: exclusive_def)
  next
    case startup_recorded
    with R S show ?thesis by (simp add: exclusive_def)
  next
    case service_spawned
    with R show ?thesis by (auto intro!: exclusiveI dest: not_initializing_False)
  next
    case (service_pushed v)
    with R S show ?thesis by (simp add: exclusive_def)
  next
    case services_ready
    with R S show ?thesis by (simp add: exclusive_def)
  next
    case (commit_checked ok s)
    with R S' responsible_commit_check [of "sy_entry y"] show ?thesis by (auto intro!: exclusiveI)
  next
    case metadata_written
    with R S show ?thesis by (simp add: exclusive_def)
  next
    case (metadata_failed m)
    with R S' responsible_fail_initialization [of "sy_entry y"] show ?thesis by (auto intro!: exclusiveI)
  next
    case (elected later ok s)
    with R have "responsible (en_state s) (\<not> ok) (sy_actions y) (sy_updates y) (sy_cleaners y) (sy_teardowns y)"
      by (intro responsible_commit_election [OF _ elected(3)]) simp
    with S' elected show ?thesis by (cases ok) (auto intro!: exclusiveI)
  next
    case (retracted m)
    with R S show ?thesis by (simp add: exclusive_def)
  next
    case init_cleanup
    with R S' responsible_initializer_cleanup [of "sy_entry y"] show ?thesis by (auto intro!: exclusiveI)
  next
    case service_exit
    with R S S' responsible_service_failed [of "sy_entry y"] show ?thesis by (auto intro!: exclusiveI)
  next
    case start_disconnect
    with R S' responsible_disconnect [of "sy_entry y"] show ?thesis by (auto intro!: exclusiveI)
  next
    case (update_admitted fresh rid digest base r s)
    from start_update_Start [OF update_admitted(2)] obtain t where
      "sy_state y = Ready t" "en_state s = Updating (rv_update_id r)" by auto
    moreover have "sy_updates y = (sy_updates y)(rv_update_id r := None)" using update_admitted(3) by auto
    ultimately show ?thesis using R S' update_admitted by (auto intro!: exclusiveI simp: only_update_def)
  next
    case (update_committed op r n applied)
    with R S responsible_update_pc [of "sy_state y"] show ?thesis by (auto intro!: exclusiveI)
  next
    case (update_finished op r n applied later res c)
    with R S' responsible_finish_update [of "sy_entry y"] show ?thesis by (auto intro!: exclusiveI)
  next
    case (update_failed_unwritten op r later err)
    with R S' responsible_update_error [of "sy_entry y"] show ?thesis by (auto intro!: exclusiveI)
  next
    case (update_failed_written op r n later err)
    with R S' responsible_update_error [of "sy_entry y"] show ?thesis by (auto intro!: exclusiveI)
  next
    case (update_panicked op r n applied)
    then obtain p where p: "sy_updates y op = Some p" "p \<noteq> UpdateDone" by auto
    have "en_registered (sy_entry y)"
      using B R p by (cases "sy_state y") (auto simp: booked_def updates_done_def)
    from responsible_update_panicked [OF R p this] update_panicked S' show ?thesis by (auto intro!: exclusiveI)
  next
    case (action_admitted fresh name r s)
    from start_action_Inr [OF action_admitted(2)] obtain t where
      st: "sy_state y = Ready t" "en_state s = Action (rr_action_id r)" by auto
    moreover have "sy_actions y = (sy_actions y)(rr_action_id r := None)" using action_admitted(3) by auto
    moreover have "no_claim (sy_actions y)"
      using only_stale_no_claim assms(3) R st action_admitted(1) by auto
    ultimately show ?thesis using R S' action_admitted by (auto intro!: exclusiveI simp: only_claim_def)
  next
    case (action_failed op)
    from responsible_action_pc [OF R action_failed(2), of "ActionFailing False"] action_failed S show ?thesis by (simp add: exclusive_def)
  next
    case (action_enqueued op now)
    from responsible_action_pc [OF R action_enqueued(2), of "ActionWaiting"] action_enqueued S show ?thesis by (simp add: exclusive_def)
  next
    case (action_unacknowledged op)
    from responsible_action_pc [OF R action_unacknowledged(2), of "ActionFailing True"] action_unacknowledged S show ?thesis by (simp add: exclusive_def)
  next
    case (acknowledged op p later ok s)
    then have "action_claims p" by auto
    from responsible_acknowledged [OF R acknowledged(2) this _ _ acknowledged(4),
        of "if p = ActionWaiting then (if ok then ActionAcknowledged else ActionFailing True) else p"]
      acknowledged S' show ?thesis by (auto intro!: exclusiveI split: if_splits)
  next
    case (action_delivered op)
    from responsible_action_pc [OF R action_delivered(2), of "ActionDone"] action_delivered S show ?thesis by (simp add: exclusive_def)
  next
    case (action_finished op e later)
    with R S' responsible_finish_action [of "sy_entry y"] show ?thesis by (auto intro!: exclusiveI)
  next
    case (action_disconnect op)
    with R S' responsible_disconnect_action [of "sy_entry y"] show ?thesis by (auto intro!: exclusiveI)
  next
    case (stop_waits s)
    with R S' responsible_stop [of "sy_entry y"] show ?thesis by (fastforce intro!: exclusiveI)
  next
    case (stop_cleans s)
    with R S' responsible_stop [of "sy_entry y"] show ?thesis by (fastforce intro!: exclusiveI)
  next
    case (stop_returns n response)
    with R S show ?thesis by (simp add: exclusive_def)
  next
    case lifetime_timer
    with R S' responsible_expire_lifetime [of "sy_entry y"] show ?thesis by (auto intro!: exclusiveI)
  next
    case idle_timer
    with R S' responsible_expire_idle [of "sy_entry y"] show ?thesis by (auto intro!: exclusiveI)
  next
    case (cleanup_started explicit services s)
    then have "en_state s = sy_state y" by (auto simp: cleanup_begin_def abort_timers_def)
    with R S' cleanup_started responsible_cleanup_begin show ?thesis by (auto intro!: exclusiveI)
  next
    case (cleanup_finished explicit services io failed unproven m)
    from responsible_cleanup_finish [OF R cleanup_finished(2), of "cleanup_response io explicit failed (sy_entry y)"]
    show ?thesis unfolding cleanup_finished(1) by (simp add: exclusive_def cleanup_finish_def)
  qed
qed

lemma overlap_step: "step y y' \<Longrightarrow> sy_overlap y \<Longrightarrow> sy_overlap y'"
  by (induction rule: step.induct) auto

lemma reserve_Some:
  assumes "reserve root sid now validated = Some s"
  shows "en_state s = Initializing False" "en_registered s" "en_permit s" "en_services s = []" "en_id s = sid"
    "ud_revision (en_update_data s) = 0"
  using assms unfolding reserve_def spawn_timer_def by (auto split: option.splits if_split_asm)

lemma initial_safe:
  assumes "initial y"
  shows "safe y"
proof -
  from assms obtain root sid validated where "reserve root sid (sy_clock y) validated = Some (sy_entry y)"
    unfolding initial_def by blast
  from reserve_Some [OF this] assms show ?thesis
    by (simp add: initial_def safe_def exclusive_def booked_def only_stale_def updates_done_def no_cleaner_def)
qed

lemma reachable_safe: "reachable y \<Longrightarrow> \<not> sy_overlap y \<Longrightarrow> safe y"
proof (induction rule: reachable.induct)
  case (reachable_initial y)
  then show ?case by (simp add: initial_safe)
next
  case (reachable_step y y')
  then have "safe y" using overlap_step by blast
  with reachable_step exclusive_step booked_step show ?case by (auto simp: safe_def)
qed

end
