(* ===== verification/Transitions.thy ===== *)
theory Transitions
  imports Main
begin

text \<open>
  Liveness of a transition system by a ranking: from every state of the invariant that is not yet at
  the goal some step lowers the rank, and no step raises it. A run that is weakly fair to the
  lowering steps then reaches the goal.
\<close>

locale ranked_system =
  fixes step :: "'s \<Rightarrow> 's \<Rightarrow> bool"
    and inv :: "'s \<Rightarrow> bool"
    and goal :: "'s \<Rightarrow> bool"
    and rank :: "'s \<Rightarrow> nat"
  assumes inv_step: "inv s \<Longrightarrow> step s t \<Longrightarrow> inv t"
    and rank_step: "inv s \<Longrightarrow> \<not> goal s \<Longrightarrow> step s t \<Longrightarrow> rank t \<le> rank s"
    and helpful: "inv s \<Longrightarrow> \<not> goal s \<Longrightarrow> \<exists>t. step s t \<and> rank t < rank s"
begin

lemma reaches_goal: "inv s \<Longrightarrow> \<exists>t. step\<^sup>*\<^sup>* s t \<and> goal t"
proof (induction "rank s" arbitrary: s rule: less_induct)
  case less
  show ?case
  proof (cases "goal s")
    case True
    then show ?thesis by blast
  next
    case False
    with less.prems helpful obtain t where t: "step s t" "rank t < rank s" by blast
    from less.hyps [OF t(2) inv_step [OF less.prems t(1)]] obtain u where "step\<^sup>*\<^sup>* t u" "goal u" by blast
    with t(1) show ?thesis by (meson converse_rtranclp_into_rtranclp)
  qed
qed

lemma run_inv:
  assumes "\<forall>i. step (run i) (run (Suc i))" and "inv (run 0)"
  shows "inv (run i)"
  using assms by (induction i) (auto intro: inv_step)

lemma fair_run_reaches_goal:
  assumes run: "\<forall>i. step (run i) (run (Suc i))" and start: "inv (run 0)"
    and fair: "\<And>i. \<forall>j\<ge>i. \<exists>t. step (run j) t \<and> rank t < rank (run j)
      \<Longrightarrow> \<exists>j\<ge>i. rank (run (Suc j)) < rank (run j)"
  shows "\<exists>i. goal (run i)"
proof (rule ccontr)
  assume never: "\<nexists>i. goal (run i)"
  have inv: "inv (run i)" for i by (rule run_inv [OF run start])
  have le: "rank (run (Suc i)) \<le> rank (run i)" for i using rank_step inv never run by blast
  have mono: "rank (run j) \<le> rank (run i)" if "i \<le> j" for i j
    by (rule lift_Suc_antimono_le [of "\<lambda>i. rank (run i)", OF le that])
  have lower: "\<exists>j. rank (run j) < rank (run i)" for i
  proof -
    have "\<forall>j\<ge>i. \<exists>t. step (run j) t \<and> rank t < rank (run j)" using helpful inv never by blast
    from fair [OF this] obtain j where j: "i \<le> j" "rank (run (Suc j)) < rank (run j)" by blast
    from j(2) mono [OF j(1)] have "rank (run (Suc j)) < rank (run i)" by simp
    then show ?thesis by blast
  qed
  have "\<exists>j. rank (run j) + n \<le> rank (run 0)" for n
  proof (induction n)
    case 0
    then show ?case by auto
  next
    case (Suc n)
    then obtain j where j: "rank (run j) + n \<le> rank (run 0)" by blast
    from lower [of j] obtain k where "rank (run k) < rank (run j)" by blast
    with j show ?case by (intro exI [of _ k]) simp
  qed
  from this [of "Suc (rank (run 0))"] show False by simp
qed

end

end
