(* ===== verification/Session_Guarantees.thy ===== *)
theory Session_Guarantees
  imports Session_Lifecycle Transitions
begin

text \<open>
  What the lifecycle guarantees: durable metadata behind every session a client can use, cleanup
  exactly once with the permit released, explicit results for explicit stops, and progress of every
  termination.
\<close>

section \<open>Durable metadata\<close>

fun usable :: "session_state \<Rightarrow> bool" where
  "usable (Ready _) = True"
| "usable (Action _) = True"
| "usable (Updating _) = True"
| "usable _ = False"

definition revision :: "session_entry \<Rightarrow> u64" where
  "revision s = ud_revision (en_update_data s)"

definition ready_record :: "session_entry \<Rightarrow> durable_session_metadata option \<Rightarrow> u64 \<Rightarrow> bool" where
  "ready_record s d n \<longleftrightarrow> (\<exists>m. d = Some m \<and> dm_session_id m = en_id s \<and> dm_task_id m = en_task_id s
     \<and> dm_state m = DurableReady \<and> dm_workspace_revision m = n)"

definition recorded :: "session_entry \<Rightarrow> durable_session_metadata option \<Rightarrow> bool" where
  "recorded s d \<longleftrightarrow> ready_record s d (revision s)
     \<or> (\<exists>n. checked_add (revision s) 1 = Some n \<and> ready_record s d n)"

definition update_tracked :: "session_entry \<Rightarrow> durable_session_metadata option \<Rightarrow> update_pc option \<Rightarrow> bool" where
  "update_tracked s d p \<longleftrightarrow>
     (\<exists>r. p = Some (UpdateRunning r) \<and> rv_base_revision r = revision s)
     \<or> (\<exists>r n applied. p = Some (UpdateCommitted r n applied) \<and> rv_base_revision r = revision s
        \<and> checked_add (revision s) 1 = Some n \<and> ready_record s d n)"

definition durable_inv :: "system \<Rightarrow> bool" where
  "durable_inv y \<longleftrightarrow>
     (usable (sy_state y) \<longrightarrow> recorded (sy_entry y) (sy_durable y))
     \<and> (sy_init y = Electing \<longrightarrow> ready_record (sy_entry y) (sy_durable y) 0)
     \<and> (is_initializing (sy_entry y) \<longrightarrow> revision (sy_entry y) = 0)
     \<and> (\<forall>op. sy_state y = Updating op \<longrightarrow> update_tracked (sy_entry y) (sy_durable y) (sy_updates y op))"

text \<open>A section that makes no session usable and no update current.\<close>

definition settled :: "session_entry \<Rightarrow> session_entry \<Rightarrow> bool" where
  "settled s s' \<longleftrightarrow> en_id s' = en_id s \<and> en_task_id s' = en_task_id s \<and> en_update_data s' = en_update_data s
     \<and> (usable (en_state s') \<longrightarrow> usable (en_state s))
     \<and> (\<forall>b. en_state s' = Initializing b \<longrightarrow> is_initializing s)
     \<and> (\<forall>op. en_state s' = Updating op \<longrightarrow> en_state s = Updating op)"

lemma settled_refl [simp]: "settled s s"
  by (simp add: settled_def is_initializing_def)

lemma settled_services: "settled s (s\<lparr>en_services := vs\<rparr>)"
  by (auto simp: settled_def is_initializing_def)

lemma settled_sections:
  "begin_initialization now s = (ok, s', c) \<Longrightarrow> settled s s'"
  "settled s (fst (cancel_upload s))" "settled s (fail_initialization s)"
  "commit_check now s = (ok, s') \<Longrightarrow> settled s s'" "commit_election now later s = (False, s') \<Longrightarrow> settled s s'"
  "settled s (fst (initializer_cleanup e s))" "settled s (fst (service_failed s))" "settled s (fst (disconnect s))"
  "settled s (fst (finish_update_error later op err s))" "settled s (fst (update_worker_panicked s))"
  "settled s (fst (finish_action later op b s))"
  "acknowledge_action_delivery now later op s = (ok, s') \<Longrightarrow> settled s s'" "settled s (disconnect_action op s)"
  "stop s = (out, s') \<Longrightarrow> settled s s'" "settled s (fst (expire_lifetime s))" "settled s (fst (expire_idle now idle s))"
  "cleanup_begin s = (vs, s') \<Longrightarrow> settled s s'" "settled s (cleanup_finish response s)"
  by (auto simp: settled_def section_defs cleanup_begin_def abort_timers_def cleanup_finish_def
      split: session_state.splits if_splits)

lemma recorded_settled:
  "settled s s' \<Longrightarrow> ready_record s' d n = ready_record s d n"
  "settled s s' \<Longrightarrow> revision s' = revision s"
  "settled s s' \<Longrightarrow> recorded s' d = recorded s d"
  "settled s s' \<Longrightarrow> update_tracked s' d p = update_tracked s d p"
  by (auto simp: settled_def ready_record_def recorded_def revision_def update_tracked_def)

lemma durable_settled:
  assumes "durable_inv y" and "settled (sy_entry y) (sy_entry y')"
    and "usable (sy_state y) \<or> sy_init y' = Electing \<Longrightarrow> sy_durable y' = sy_durable y"
    and "sy_init y' = Electing \<Longrightarrow> sy_init y = Electing"
    and "\<And>op. sy_state y' = Updating op \<Longrightarrow> sy_updates y' op = sy_updates y op"
  shows "durable_inv y'"
proof -
  have u: "usable (sy_state y)" if "sy_state y' = Updating op" for op
    using assms(2) that by (auto simp: settled_def)
  have i: "is_initializing (sy_entry y)" if "is_initializing (sy_entry y')"
    using assms(2) that by (auto simp: settled_def is_initializing_def split: session_state.splits)
  from assms u i show ?thesis
    unfolding durable_inv_def
    by (auto simp: recorded_settled [OF assms(2)]) (auto simp: settled_def)
qed

lemma responsible_live: "responsible st True acts upds cls n \<Longrightarrow> \<not> usable st"
  by (cases st) auto

lemma responsible_update:
  assumes "responsible st live acts upds cls n" and "upds op = Some p" "p \<noteq> UpdateDone"
  shows "\<not> live" and "usable st \<Longrightarrow> st = Updating op" and "cls = []"
proof -
  have nd: "\<not> updates_done upds" using assms(2,3) by (auto simp: updates_done_def)
  have eq: "op' = op" if "only_update op' upds" for op' using only_update_unique [OF that assms(2,3)] by simp
  show "\<not> live" and "usable st \<Longrightarrow> st = Updating op" and "cls = []"
    using assms(1) nd eq by (cases st; auto simp: no_cleaner_def split: cleanup_owner.splits if_splits)+
qed

lemma responsible_cleaner:
  assumes "responsible st live acts upds cls n" and "cls \<noteq> []"
  shows "\<not> live" and "\<not> usable st"
  using assms by (cases st; auto simp: no_cleaner_def split: cleanup_owner.splits if_splits)+

lemma durable_elected:
  assumes "durable_inv y" and "sy_init y = Electing" and "commit_election now later (sy_entry y) = (True, s)"
  shows "durable_inv (y\<lparr>sy_entry := s, sy_init := InitDone\<rparr>)"
proof -
  have "ready_record (sy_entry y) (sy_durable y) 0" "revision (sy_entry y) = 0" "en_state s = Ready later"
    "en_id s = en_id (sy_entry y)" "en_task_id s = en_task_id (sy_entry y)"
    "en_update_data s = en_update_data (sy_entry y)"
    using assms
    by (auto simp: durable_inv_def commit_election_def spawn_timer_def retain_outputs_def split: if_splits)
  then show ?thesis
    by (auto simp: durable_inv_def recorded_def ready_record_def revision_def is_initializing_def)
qed

lemma durable_update_admitted:
  assumes "durable_inv y" and "start_update fresh now rid digest base (sy_entry y) = (Inr (Start r), s)"
    and "sy_init y \<noteq> Electing"
  shows "durable_inv (y\<lparr>sy_entry := s, sy_updates := (sy_updates y)(rv_update_id r \<mapsto> UpdateRunning r)\<rparr>)"
proof -
  from start_update_Start [OF assms(2)] obtain t where
    "sy_state y = Ready t" "s = (sy_entry y)\<lparr>en_state := Updating (rv_update_id r)\<rparr>"
    "rv_base_revision r = revision (sy_entry y)" by (auto simp: revision_def)
  with assms(1,3) show ?thesis
    by (auto simp: durable_inv_def recorded_def ready_record_def revision_def is_initializing_def update_tracked_def)
qed

lemma durable_action_admitted:
  assumes "durable_inv y" and "start_action fresh now name (sy_entry y) = (Inr r, s)" and "sy_init y \<noteq> Electing"
  shows "durable_inv (y\<lparr>sy_entry := s, sy_actions := acts, sy_overlap := b\<rparr>)"
proof -
  from start_action_Inr [OF assms(2)] obtain t where
    "sy_state y = Ready t" "s = (sy_entry y)\<lparr>en_state := Action (rr_action_id r)\<rparr>" by auto
  with assms(1,3) show ?thesis
    by (auto simp: durable_inv_def recorded_def ready_record_def revision_def is_initializing_def)
qed

lemma ready_record_metadata: "ready_record s (Some (ready_metadata n s)) n"
  by (simp add: ready_record_def ready_metadata_def)

lemma durable_update_committed:
  assumes "durable_inv y" and "sy_updates y op = Some (UpdateRunning r)" and "checked_add (rv_base_revision r) 1 = Some n"
    and "usable (sy_state y) \<Longrightarrow> sy_state y = Updating op" and "sy_init y \<noteq> Electing"
  shows "durable_inv (y\<lparr>sy_durable := Some (ready_metadata n (sy_entry y)),
        sy_updates := (sy_updates y)(op \<mapsto> UpdateCommitted r n applied)\<rparr>)"
proof -
  let ?d = "Some (ready_metadata n (sy_entry y))"
  have rec: "ready_record (sy_entry y) ?d n" by (rule ready_record_metadata)
  show ?thesis
  proof (cases "sy_state y = Updating op")
    case True
    with assms(1,2) have base: "rv_base_revision r = revision (sy_entry y)"
      by (auto simp: durable_inv_def update_tracked_def)
    with rec assms(3) have "recorded (sy_entry y) ?d" by (simp add: recorded_def)
    moreover have "update_tracked (sy_entry y) ?d (Some (UpdateCommitted r n applied))"
      using base rec assms(3) by (simp add: update_tracked_def)
    moreover have "\<not> is_initializing (sy_entry y)" using True by (simp add: is_initializing_def)
    ultimately show ?thesis using True assms(5) by (simp add: durable_inv_def)
  next
    case False
    with assms(4) have "\<not> usable (sy_state y)" by blast
    moreover from this have "sy_state y \<noteq> Updating op'" for op' by auto
    ultimately show ?thesis using assms(1,5) by (simp add: durable_inv_def)
  qed
qed

lemma durable_update_finished:
  assumes "durable_inv y" and "sy_updates y op = Some (UpdateCommitted r n applied)"
    and "finish_update now later r n applied (sy_entry y) = (res, c)"
    and "usable (sy_state y) \<Longrightarrow> sy_state y = Updating op" and "sy_init y \<noteq> Electing"
  shows "durable_inv ((enter c y)\<lparr>sy_updates := (sy_updates y)(op \<mapsto> UpdateDone)\<rparr>)"
proof (cases "sy_state y = Updating op")
  case True
  then have tr: "ready_record (sy_entry y) (sy_durable y) n"
    using assms(1,2) by (auto simp: durable_inv_def update_tracked_def)
  have "en_state (fst c) = Ready later \<and> revision (fst c) = n
      \<or> \<not> usable (en_state (fst c)) \<and> \<not> is_initializing (fst c)"
    and "en_id (fst c) = en_id (sy_entry y)" "en_task_id (fst c) = en_task_id (sy_entry y)"
    using True assms(3)
    by (auto simp: finish_update_def Let_def spawn_timer_def record_update_def revision_def terminate_def
        is_initializing_def split: if_splits)
  with tr assms(5) show ?thesis
    by (auto simp: durable_inv_def recorded_def ready_record_def is_initializing_def)
next
  case False
  with assms(4) have nu: "\<not> usable (sy_state y)" by blast
  with assms(3) have "fst c = sy_entry y"
    by (cases "sy_state y") (auto simp: finish_update_def Let_def split: if_splits)
  with nu assms(1,5) show ?thesis by (auto simp: durable_inv_def)
qed

lemma update_error_leaves:
  assumes "usable (en_state s) \<Longrightarrow> en_state s = Updating op"
  shows "en_state (fst (finish_update_error later op err s)) \<noteq> Updating op'"
  using assms by (cases "en_state s") (auto simp: finish_update_error_def)

lemma durable_update_failed_written:
  assumes "durable_inv y" and "sy_updates y op = Some (UpdateRunning r)" and "checked_add (rv_base_revision r) 1 = Some n"
    and "usable (sy_state y) \<Longrightarrow> sy_state y = Updating op" and "sy_init y \<noteq> Electing"
  shows "durable_inv ((enter (finish_update_error later op err (sy_entry y)) y)\<lparr>
        sy_durable := Some (ready_metadata n (sy_entry y)), sy_updates := (sy_updates y)(op \<mapsto> UpdateDone)\<rparr>)"
proof -
  let ?s = "fst (finish_update_error later op err (sy_entry y))" and ?d = "Some (ready_metadata n (sy_entry y))"
  have st: "settled (sy_entry y) ?s" by (rule settled_sections)
  have "recorded ?s ?d" if "usable (en_state ?s)"
  proof -
    have "sy_state y = Updating op" using st that assms(4) by (auto simp: settled_def)
    with assms(1,2) have "rv_base_revision r = revision (sy_entry y)"
      by (auto simp: durable_inv_def update_tracked_def)
    with assms(3) ready_record_metadata have "recorded (sy_entry y) ?d" by (auto simp: recorded_def)
    then show ?thesis using recorded_settled(3) [OF st] by simp
  qed
  moreover have "revision ?s = 0" if "is_initializing ?s"
  proof -
    have "is_initializing (sy_entry y)" using st that by (auto simp: settled_def is_initializing_def split: session_state.splits)
    with assms(1) recorded_settled(2) [OF st] show ?thesis by (simp add: durable_inv_def)
  qed
  ultimately show ?thesis
    using update_error_leaves [OF assms(4)] assms(5) by (simp add: durable_inv_def)
qed

lemma durable_step:
  assumes "step y y'" and "safe y" and D: "durable_inv y"
  shows "durable_inv y'"
proof -
  from assms(2) have R: "responsible (sy_state y) (init_live (sy_init y)) (sy_actions y) (sy_updates y)
      (sy_cleaners y) (sy_teardowns y)" by (simp add: safe_def exclusive_def)
  have L: "\<not> usable (sy_state y)" if "init_live (sy_init y)" using R that responsible_live by simp
  have U: "sy_init y \<noteq> Electing" "usable (sy_state y) \<Longrightarrow> sy_state y = Updating op"
    if "sy_updates y op = Some p" "p \<noteq> UpdateDone" for op p
    using responsible_update [OF R that] by auto
  have C: "sy_init y \<noteq> Electing" "\<not> usable (sy_state y)" if "c \<in> set (sy_cleaners y)" for c
  proof -
    from that have "sy_cleaners y \<noteq> []" by auto
    from responsible_cleaner [OF R this] show "sy_init y \<noteq> Electing" "\<not> usable (sy_state y)" by auto
  qed
  have E: "sy_init y \<noteq> Electing" if "usable (sy_state y)" using L that by auto
  note keep = durable_settled [OF D]
  show ?thesis using assms(1)
  proof (cases rule: step.cases)
    case (elected later ok s)
    show ?thesis
    proof (cases ok)
      case True
      with elected durable_elected [OF D] show ?thesis by simp
    next
      case False
      show ?thesis unfolding elected(1)
        by (rule keep) (use elected False settled_sections(5) in auto)
    qed
  next
    case (update_admitted fresh rid digest base r s)
    from start_update_Start(1) [OF update_admitted(2)] have "sy_init y \<noteq> Electing" using E by auto
    with durable_update_admitted [OF D update_admitted(2)] update_admitted(1) show ?thesis by simp
  next
    case (action_admitted fresh name r s)
    from start_action_Inr(1) [OF action_admitted(2)] have "sy_init y \<noteq> Electing" using E by auto
    with durable_action_admitted [OF D action_admitted(2)] action_admitted(1) show ?thesis by simp
  next
    case (update_committed op r n applied)
    from durable_update_committed [OF D update_committed(2,3) U(2) U(1)] update_committed show ?thesis by simp
  next
    case (update_finished op r n applied later res c)
    from durable_update_finished [OF D update_finished(2,3) U(2) U(1)] update_finished show ?thesis by simp
  next
    case metadata_written
    have "\<not> usable (sy_state y)" using L metadata_written(2) by simp
    moreover from this have "sy_state y \<noteq> Updating op" for op by auto
    ultimately show ?thesis using D ready_record_metadata metadata_written(1) by (simp add: durable_inv_def)
  next
    case startup_recorded
    show ?thesis unfolding startup_recorded(1) by (rule keep) (use L startup_recorded(2) in auto)
  next
    case (metadata_failed m)
    show ?thesis unfolding metadata_failed(1) by (rule keep) (use L metadata_failed(2) settled_sections(3) in auto)
  next
    case (retracted m)
    show ?thesis unfolding retracted(1) by (rule keep) (use L retracted(2) in auto)
  next
    case (update_failed_unwritten op r later err)
    from U [OF update_failed_unwritten(2)] have "usable (sy_state y) \<Longrightarrow> sy_state y = Updating op" by auto
    note left = update_error_leaves [OF this]
    show ?thesis unfolding update_failed_unwritten(1)
      by (rule keep) (use left settled_sections(9) in auto)
  next
    case (update_failed_written op r n later err)
    from durable_update_failed_written [OF D update_failed_written(2,3) U(2) U(1)] update_failed_written
    show ?thesis by simp
  next
    case (update_panicked op r n applied)
    then obtain p where p: "sy_updates y op = Some p" "p \<noteq> UpdateDone" by auto
    have "en_registered (sy_entry y)"
      using assms(2) R p by (cases "sy_state y") (auto simp: safe_def booked_def updates_done_def)
    then have "en_state (fst (update_worker_panicked (sy_entry y))) \<noteq> Updating op'" for op'
      by (auto simp: update_worker_panicked_def split: session_state.splits)
    then show ?thesis unfolding update_panicked(1)
      by (intro keep) (use settled_sections(10) in auto)
  next
    case (cleanup_started explicit services s)
    show ?thesis unfolding cleanup_started(1) by (rule keep) (use settled_sections(17) cleanup_started in auto)
  next
    case (cleanup_finished explicit services io failed unproven m)
    show ?thesis unfolding cleanup_finished(1)
      by (rule keep) (use C [OF cleanup_finished(2)] settled_sections(18) in auto)
  qed (auto intro!: keep intro: settled_sections settled_services)
qed

lemma initial_durable:
  assumes "initial y"
  shows "durable_inv y"
proof -
  from assms obtain root sid validated where "reserve root sid (sy_clock y) validated = Some (sy_entry y)"
    unfolding initial_def by blast
  from reserve_Some [OF this] assms show ?thesis by (simp add: initial_def durable_inv_def revision_def)
qed

lemma reachable_durable: "reachable y \<Longrightarrow> \<not> sy_overlap y \<Longrightarrow> durable_inv y"
proof (induction rule: reachable.induct)
  case (reachable_initial y)
  then show ?case by (simp add: initial_durable)
next
  case (reachable_step y y')
  then have "\<not> sy_overlap y" using overlap_step by blast
  with reachable_step durable_step reachable_safe show ?case by blast
qed

section \<open>Services\<close>

text \<open>Once a cleanup took the services, no service is added.\<close>

definition services_inv :: "system \<Rightarrow> bool" where
  "services_inv y \<longleftrightarrow> (sy_teardowns y \<noteq> 0 \<longrightarrow> en_services (sy_entry y) = [])"

definition adds_no_service :: "session_entry \<Rightarrow> session_entry \<Rightarrow> bool" where
  "adds_no_service s s' \<longleftrightarrow> (en_services s = [] \<longrightarrow> en_services s' = [])"

lemma sections_services:
  "adds_no_service s s" "begin_initialization now s = (ok, s', c) \<Longrightarrow> adds_no_service s s'"
  "adds_no_service s (fst (cancel_upload s))" "adds_no_service s (fail_initialization s)"
  "commit_check now s = (ok, s') \<Longrightarrow> adds_no_service s s'"
  "commit_election now later s = (ok, s') \<Longrightarrow> adds_no_service s s'"
  "adds_no_service s (fst (initializer_cleanup e s))" "adds_no_service s (fst (service_failed s))"
  "adds_no_service s (fst (disconnect s))" "adds_no_service s (fst (finish_update_error later op err s))"
  "finish_update now later r v applied s = (res, s', c) \<Longrightarrow> adds_no_service s s'"
  "adds_no_service s (fst (update_worker_panicked s))" "adds_no_service s (fst (finish_action later op b s))"
  "acknowledge_action_delivery now later op s = (ok, s') \<Longrightarrow> adds_no_service s s'"
  "adds_no_service s (disconnect_action op s)" "stop s = (out, s') \<Longrightarrow> adds_no_service s s'"
  "adds_no_service s (fst (expire_lifetime s))" "adds_no_service s (fst (expire_idle now idle s))"
  "adds_no_service s (cleanup_finish response s)"
  by (auto simp: adds_no_service_def section_defs cleanup_finish_def split: session_state.splits if_splits)

lemma services_keep:
  "services_inv y \<Longrightarrow> adds_no_service (sy_entry y) (sy_entry y') \<Longrightarrow> sy_teardowns y' = sy_teardowns y
    \<Longrightarrow> services_inv y'"
  by (simp add: services_inv_def adds_no_service_def)

lemma services_step:
  assumes "step y y'" and "safe y" and "services_inv y"
  shows "services_inv y'"
  using assms(1)
proof (cases rule: step.cases)
  case (service_pushed v)
  from assms(2) service_pushed(2) have "sy_teardowns y = 0"
    by (cases "sy_state y") (auto simp: safe_def exclusive_def no_cleaner_def split: cleanup_owner.splits)
  then show ?thesis unfolding service_pushed(1) by (simp add: services_inv_def)
next
  case (cleanup_started explicit services s)
  then show ?thesis by (auto simp: services_inv_def cleanup_begin_def)
next
  case (update_admitted fresh rid digest base r s)
  with assms(3) start_update_Start(2) show ?thesis by (fastforce simp: services_inv_def)
next
  case (action_admitted fresh name r s)
  with assms(3) start_action_Inr(2) show ?thesis by (fastforce simp: services_inv_def)
qed (auto intro!: services_keep [OF assms(3)] intro: sections_services)

lemma reachable_services: "reachable y \<Longrightarrow> \<not> sy_overlap y \<Longrightarrow> services_inv y"
proof (induction rule: reachable.induct)
  case (reachable_initial y)
  then show ?case by (simp add: initial_def services_inv_def)
next
  case (reachable_step y y')
  then have "\<not> sy_overlap y" using overlap_step by blast
  with reachable_step services_step reachable_safe show ?case by blast
qed

section \<open>Termination is final\<close>

lemma terminating_stays:
  assumes "step y y'" and "sy_state y = Terminating t"
  shows "sy_state y' = Terminating t \<or> is_terminated (sy_entry y')"
  using assms
proof (induction rule: step.induct)
  case (update_admitted fresh y rid digest base r s)
  then show ?case using start_update_Start(1) by fastforce
next
  case (action_admitted fresh y name r s)
  then show ?case using start_action_Inr(1) by fastforce
next
  case (cleanup_started explicit y services s)
  then show ?case by (auto simp: cleanup_begin_def abort_timers_def)
next
  case (cleanup_finished explicit services y io failed unproven m)
  then show ?case by (simp add: cleanup_finish_def)
qed (auto simp: section_defs split: if_splits)

lemma kept_terminated: "kept s s' \<Longrightarrow> is_terminated s \<Longrightarrow> is_terminated s'"
  by (simp add: kept_def)

lemma terminated_stays:
  assumes "step y y'" and "is_terminated (sy_entry y)"
  shows "is_terminated (sy_entry y')"
  using assms
proof (induction rule: step.induct)
  case (service_pushed y v)
  then show ?case by simp
next
  case (cleanup_started explicit y services s)
  then show ?case by (auto simp: cleanup_begin_def abort_timers_def)
next
  case (cleanup_finished explicit services y io failed unproven m)
  then show ?case by (simp add: cleanup_finish_def)
next
  case (stop_cleans y s)
  then show ?case using kept_sections(15) [OF stop_cleans(1)] by (auto simp: kept_def)
qed (auto intro: kept_terminated kept_intros simp del: is_terminated_simps)

section \<open>Waiting stops\<close>

definition waiting_inv :: "system \<Rightarrow> bool" where
  "waiting_inv y \<longleftrightarrow> sy_waiters y = 0 \<or> is_terminated (sy_entry y)
     \<or> (\<exists>t. sy_state y = Terminating t \<and> tm_explicit t)"

lemma stop_waits_explicit: "stop s = (StopWaits, s') \<Longrightarrow> \<exists>t. en_state s' = Terminating t \<and> tm_explicit t"
  by (auto simp: stop_def split: if_splits session_state.splits)

lemma waiters_step:
  "step y y' \<Longrightarrow> sy_waiters y' \<le> sy_waiters y \<or> (\<exists>t. sy_state y' = Terminating t \<and> tm_explicit t)"
  by (induction rule: step.induct) (auto dest: stop_waits_explicit)

lemma waiting_step:
  assumes "step y y'" and "waiting_inv y"
  shows "waiting_inv y'"
  using waiters_step [OF assms(1)] terminating_stays [OF assms(1)] terminated_stays [OF assms(1)] assms(2)
  unfolding waiting_inv_def by (metis le_zero_eq)

lemma reachable_waiting: "reachable y \<Longrightarrow> waiting_inv y"
proof (induction rule: reachable.induct)
  case (reachable_initial y)
  then show ?case by (simp add: initial_def waiting_inv_def)
next
  case (reachable_step y y')
  then show ?case using waiting_step by blast
qed

section \<open>Progress\<close>

fun init_rank :: "initializer_pc \<Rightarrow> nat" where
  "init_rank Uploading = 1"
| "init_rank Extracting = 9"
| "init_rank StartingServices = 8"
| "init_rank Checking = 7"
| "init_rank Committing = 6"
| "init_rank Electing = 5"
| "init_rank Retracting = 4"
| "init_rank FailingInit = 3"
| "init_rank InitDone = 0"

fun action_rank :: "action_pc \<Rightarrow> nat" where
  "action_rank ActionRunning = 5"
| "action_rank ActionWaiting = 4"
| "action_rank (ActionFailing _) = 3"
| "action_rank _ = 0"

fun update_rank :: "update_pc \<Rightarrow> nat" where
  "update_rank (UpdateRunning _) = 5"
| "update_rank (UpdateCommitted _ _ _) = 4"
| "update_rank UpdateDone = 0"

fun cleaner_rank :: "cleaner \<Rightarrow> nat" where
  "cleaner_rank (CleanerStarting _) = 2"
| "cleaner_rank (CleanerRunning _ _) = 1"

definition worst :: "('p \<Rightarrow> nat) \<Rightarrow> (string \<rightharpoonup> 'p) \<Rightarrow> nat" where
  "worst f m = Max (insert 0 (f ` ran m))"

definition rank :: "system \<Rightarrow> nat" where
  "rank y = init_rank (sy_init y) + worst action_rank (sy_actions y) + worst update_rank (sy_updates y)
     + sum_list (map cleaner_rank (sy_cleaners y))"

lemma worst_le:
  assumes "\<And>p. f p \<le> (5 :: nat)"
  shows "worst f m \<le> k \<longleftrightarrow> (\<forall>op p. m op = Some p \<longrightarrow> f p \<le> k)"
proof -
  have "f ` ran m \<subseteq> {0..5}" using assms by auto
  then have "finite (f ` ran m)" by (rule finite_subset) simp
  then show ?thesis unfolding worst_def by (auto simp: ran_def)
qed

lemma rank_bounded [simp]: "action_rank p \<le> 5" "update_rank u \<le> 5"
  by (cases p; simp) (cases u; simp)

lemma worst_mono:
  assumes f: "\<And>p. f p \<le> (5 :: nat)" and "m op = Some p" and "f p' \<le> f p"
  shows "worst f (m(op \<mapsto> p')) \<le> worst f m"
proof -
  have le: "f q \<le> worst f m" if "m i = Some q" for i q using worst_le [of f m "worst f m", OF f] that by blast
  show ?thesis using le le [OF assms(2)] assms(3) by (auto simp: worst_le [of f, OF f] intro: order_trans)
qed

lemma worst_only:
  assumes f: "\<And>p. f p \<le> (5 :: nat)" and "\<forall>i q. (m(op := None)) i = Some q \<longrightarrow> f q = 0"
  shows "worst f (m(op \<mapsto> p)) = f p"
proof (rule antisym)
  have "f q \<le> f p" if "(m(op \<mapsto> p)) i = Some q" for i q
    using assms(2) that by (cases "i = op") (auto dest: spec [of _ i])
  then show "worst f (m(op \<mapsto> p)) \<le> f p" unfolding worst_le [of f, OF f] by blast
  show "f p \<le> worst f (m(op \<mapsto> p))"
    using worst_le [of f "m(op \<mapsto> p)" "worst f (m(op \<mapsto> p))", OF f] by (auto dest: spec [of _ op])
qed

lemma worst_action_only:
  assumes "no_claim (acts(op := None))"
  shows "worst action_rank (acts(op \<mapsto> p)) = action_rank p"
proof (rule worst_only)
  have "action_rank q = 0" if "\<not> action_claims q" for q using that by (cases q) auto
  with assms show "\<forall>i q. (acts(op := None)) i = Some q \<longrightarrow> action_rank q = 0" unfolding no_claim_def by blast
qed simp

lemma worst_update_only:
  assumes "updates_done (upds(op := None))"
  shows "worst update_rank (upds(op \<mapsto> p)) = update_rank p"
proof (rule worst_only)
  from assms show "\<forall>i q. (upds(op := None)) i = Some q \<longrightarrow> update_rank q = 0"
    unfolding updates_done_def by fastforce
qed simp

lemma rank_enter:
  "rank (enter r y) = rank y + (case snd r of None \<Rightarrow> 0 | Some _ \<Rightarrow> 2)"
  by (simp add: rank_def split: option.split)

lemma update_done_rank:
  assumes "responsible (Terminating t) live acts upds cls n" and "upds op = Some p" "p \<noteq> UpdateDone"
  shows "worst update_rank (upds(op \<mapsto> UpdateDone)) + (if tm_owner t = UpdateOwner then 2 else 0)
    \<le> worst update_rank upds \<and> worst update_rank (upds(op \<mapsto> UpdateDone)) + 2 < worst update_rank upds"
proof -
  have nd: "\<not> updates_done upds" using assms(2,3) by (auto simp: updates_done_def)
  with assms(1) obtain op' where "tm_owner t = UpdateOwner" "only_update op' upds"
    by (auto split: cleanup_owner.splits if_splits)
  with only_update_unique [OF this(2) assms(2,3)] have u: "updates_done (upds(op := None))" by simp
  have "upds = upds(op \<mapsto> p)" using assms(2) by auto
  then have "worst update_rank upds = update_rank p" using worst_update_only [OF u, of p] by simp
  moreover have "4 \<le> update_rank p" using assms(3) by (cases p) auto
  ultimately show ?thesis using worst_update_only [OF u, of UpdateDone] by auto
qed

lemma action_done_rank:
  assumes "responsible (Terminating t) live acts upds cls n" and "acts op = Some (ActionFailing e)"
  shows "worst action_rank (acts(op \<mapsto> ActionDone)) + (if tm_owner t = ActionOwner then 2 else 0)
    \<le> worst action_rank acts"
proof (cases "tm_owner t = ActionOwner")
  case True
  have c: "action_claims (ActionFailing e)" by simp
  then have "\<not> no_claim acts" using assms(2) unfolding no_claim_def by blast
  with assms(1) True obtain op' where "only_claim op' acts" by (auto split: if_splits)
  with only_claim_unique [OF this assms(2) c] have u: "no_claim (acts(op := None))" by simp
  have "acts = acts(op \<mapsto> ActionFailing e)" using assms(2) by auto
  then have "worst action_rank acts = 3" using worst_action_only [OF u, of "ActionFailing e"] by simp
  with worst_action_only [OF u, of ActionDone] True show ?thesis by simp
next
  case False
  with worst_mono [of action_rank acts op "ActionFailing e" ActionDone] assms(2) show ?thesis by simp
qed

lemma sum_list_remove1:
  "x \<in> set xs \<Longrightarrow> sum_list (map f xs) = f x + sum_list (map f (remove1 x xs))" for f :: "'a \<Rightarrow> nat"
  by (induction xs) auto

lemma rank_not_raised:
  assumes "step y y'" and "safe y" and T: "sy_state y = Terminating t"
  shows "rank y' \<le> rank y"
proof -
  from assms(2) T have R: "responsible (Terminating t) (init_live (sy_init y)) (sy_actions y) (sy_updates y)
      (sy_cleaners y) (sy_teardowns y)" by (simp add: safe_def exclusive_def)
  show ?thesis using assms(1)
  proof (cases rule: step.cases)
    case (update_admitted fresh rid digest base r s)
    then show ?thesis using start_update_Start(1) T by fastforce
  next
    case (action_admitted fresh name r s)
    then show ?thesis using start_action_Inr(1) T by fastforce
  next
    case (update_committed op r n applied)
    then show ?thesis using worst_mono [of update_rank "sy_updates y" op] by (simp add: rank_def)
  next
    case (update_finished op r n applied later res c)
    then have "c = (sy_entry y, if tm_owner t = UpdateOwner then Some (tm_explicit t) else None)"
      using T by (auto simp: finish_update_def Let_def)
    with update_done_rank [OF R update_finished(2)] update_finished show ?thesis
      by (auto simp: rank_def split: if_splits)
  next
    case (update_failed_unwritten op r later err)
    with update_done_rank [OF R update_failed_unwritten(2)] T show ?thesis
      by (auto simp: rank_def finish_update_error_def split: if_splits)
  next
    case (update_failed_written op r n later err)
    with update_done_rank [OF R update_failed_written(2)] T show ?thesis
      by (auto simp: rank_def finish_update_error_def split: if_splits)
  next
    case (update_panicked op r n applied)
    then obtain p where "sy_updates y op = Some p" "p \<noteq> UpdateDone" by auto
    with update_done_rank [OF R this] T update_panicked(1) show ?thesis
      by (auto simp: rank_def update_worker_panicked_def split: if_splits)
  next
    case (action_failed op)
    then show ?thesis using worst_mono [of action_rank "sy_actions y" op] by (simp add: rank_def)
  next
    case (action_enqueued op now)
    then show ?thesis using worst_mono [of action_rank "sy_actions y" op] by (simp add: rank_def)
  next
    case (action_unacknowledged op)
    then show ?thesis using worst_mono [of action_rank "sy_actions y" op] by (simp add: rank_def)
  next
    case (acknowledged op p later ok s)
    then have "\<not> ok" using T by (auto simp: acknowledge_action_delivery_def split: if_splits)
    with acknowledged show ?thesis
      using worst_mono [of action_rank "sy_actions y" op p] by (auto simp: rank_def)
  next
    case (action_delivered op)
    then show ?thesis using worst_mono [of action_rank "sy_actions y" op] by (simp add: rank_def)
  next
    case (action_finished op e later)
    with action_done_rank [OF R action_finished(2)] T show ?thesis
      by (auto simp: rank_def finish_action_def split: if_splits)
  next
    case (cleanup_started explicit services s)
    then show ?thesis by (simp add: rank_def sum_list_remove1)
  next
    case (cleanup_finished explicit services io failed unproven m)
    then show ?thesis by (simp add: rank_def sum_list_remove1)
  qed (use T in \<open>auto simp: rank_def section_defs split: if_splits\<close>)
qed

lemma helpful_cleaner:
  assumes "one_cleaner (sy_cleaners y) n explicit"
  shows "\<exists>y'. step y y' \<and> rank y' < rank y"
proof -
  consider "sy_cleaners y = [CleanerStarting explicit]" | vs where "sy_cleaners y = [CleanerRunning explicit vs]"
    using assms by (auto simp: one_cleaner_def)
  then show ?thesis
  proof cases
    case 1
    obtain services s where "cleanup_begin (sy_entry y) = (services, s)" by (cases "cleanup_begin (sy_entry y)")
    from cleanup_started [OF _ this, of explicit] 1 show ?thesis by (auto intro!: exI simp: rank_def)
  next
    case 2
    obtain io :: cleanup_io where True by blast
    obtain failed unproven where "stop_services (ci_stop io) vs = (failed, unproven)"
      by (cases "stop_services (ci_stop io) vs")
    from cleanup_finished [OF _ this, of explicit y "sy_durable y"] 2 show ?thesis
      by (auto intro!: exI simp: rank_def)
  qed
qed

lemma helpful_initializer:
  assumes "sy_state y = Terminating t" and "init_live (sy_init y)"
  shows "\<exists>y'. step y y' \<and> rank y' < rank y"
proof (cases "sy_init y")
  case Extracting
  with init_failed [of y] show ?thesis by (auto intro!: exI simp: rank_def)
next
  case StartingServices
  with init_failed [of y] show ?thesis by (auto intro!: exI simp: rank_def)
next
  case Checking
  have "commit_check (sy_clock y) (sy_entry y) = (False, sy_entry y)"
    using assms(1) by (simp add: commit_check_def is_initializing_def fail_initialization_def)
  from commit_checked [OF Checking this] Checking show ?thesis by (auto intro!: exI simp: rank_def)
next
  case Committing
  with metadata_written [of y] show ?thesis by (auto intro!: exI simp: rank_def)
next
  case Electing
  have "commit_election (sy_clock y) 0 (sy_entry y) = (False, sy_entry y)"
    using assms(1) by (simp add: commit_election_def is_initializing_def fail_initialization_def)
  from elected [OF Electing this] Electing show ?thesis by (auto intro!: exI simp: rank_def)
next
  case Retracting
  with retracted [of y "sy_durable y"] show ?thesis by (auto intro!: exI simp: rank_def)
next
  case FailingInit
  have "snd (initializer_cleanup False (sy_entry y)) = None \<or> (\<exists>e. snd (initializer_cleanup False (sy_entry y)) = Some e)"
    by auto
  with init_cleanup [OF FailingInit] FailingInit show ?thesis by (auto intro!: exI simp: rank_def)
qed (use assms(2) in auto)

lemma helpful_action:
  assumes R: "responsible (Terminating t) live (sy_actions y) upds cls n" and "sy_state y = Terminating t"
    and "only_claim op (sy_actions y)"
  shows "\<exists>y'. step y y' \<and> rank y' < rank y"
proof -
  from assms(3) obtain p where p: "sy_actions y op = Some p" "action_claims p" and u: "no_claim ((sy_actions y)(op := None))"
    by (auto simp: only_claim_def)
  have "sy_actions y = (sy_actions y)(op \<mapsto> p)" using p(1) by auto
  then have w: "worst action_rank (sy_actions y) = action_rank p" using worst_action_only [OF u, of p] by simp
  note w' = worst_action_only [OF u]
  show ?thesis
  proof (cases p)
    case ActionRunning
    with action_failed [of y op] p w w' show ?thesis by (auto intro!: exI simp: rank_def)
  next
    case ActionWaiting
    with action_unacknowledged [of y op] p w w' show ?thesis by (auto intro!: exI simp: rank_def)
  next
    case (ActionFailing e)
    with action_finished [of y op e 0] p w w' assms(2) show ?thesis
      by (auto intro!: exI simp: rank_def finish_action_def)
  qed (use p in auto)
qed

lemma helpful_update:
  assumes R: "responsible (Terminating t) live acts (sy_updates y) cls n" and T: "sy_state y = Terminating t"
    and "only_update op (sy_updates y)"
  shows "\<exists>y'. step y y' \<and> rank y' < rank y"
proof -
  from assms(3) obtain p where p: "sy_updates y op = Some p" "p \<noteq> UpdateDone" by (auto simp: only_update_def)
  note d = update_done_rank [OF R p, THEN conjunct2]
  show ?thesis
  proof (cases p)
    case (UpdateRunning r)
    with p have "sy_updates y op = Some (UpdateRunning r)" by simp
    from update_failed_unwritten [OF this, of 0 "update_failed []"] d T show ?thesis
      by (intro exI conjI) (assumption, auto simp: rank_def finish_update_error_def)
  next
    case (UpdateCommitted r n applied)
    with p have "sy_updates y op = Some (UpdateCommitted r n applied)" by simp
    moreover obtain res where "finish_update (sy_clock y) 0 r n applied (sy_entry y)
        = (res, sy_entry y, if tm_owner t = UpdateOwner then Some (tm_explicit t) else None)"
      using T by (cases "tm_owner t = UpdateOwner") (auto simp: finish_update_def Let_def)
    ultimately have "step y ((enter (sy_entry y, if tm_owner t = UpdateOwner then Some (tm_explicit t) else None) y)\<lparr>
        sy_updates := (sy_updates y)(op \<mapsto> UpdateDone)\<rparr>)" by (rule update_finished)
    with d show ?thesis by (intro exI conjI) (assumption, auto simp: rank_def)
  qed (use p in auto)
qed

lemma rank_lowered:
  assumes "safe y" and T: "sy_state y = Terminating t"
  shows "\<exists>y'. step y y' \<and> rank y' < rank y"
proof -
  from assms have R: "responsible (Terminating t) (init_live (sy_init y)) (sy_actions y) (sy_updates y)
      (sy_cleaners y) (sy_teardowns y)" by (simp add: safe_def exclusive_def)
  show ?thesis
  proof (cases "tm_owner t")
    case Initializer
    with R helpful_initializer [OF T] helpful_cleaner show ?thesis by (auto split: if_splits)
  next
    case ActionOwner
    with R helpful_action [OF R T] helpful_cleaner show ?thesis by (auto split: if_splits)
  next
    case UpdateOwner
    with R helpful_update [OF R T] helpful_cleaner show ?thesis by (auto split: if_splits)
  next
    case Requester
    with R helpful_cleaner show ?thesis by auto
  qed
qed

definition terminating :: "system \<Rightarrow> bool" where
  "terminating y \<longleftrightarrow> (\<exists>t. sy_state y = Terminating t) \<or> is_terminated (sy_entry y)"

definition terminating_inv :: "system \<Rightarrow> bool" where
  "terminating_inv y \<longleftrightarrow> reachable y \<and> \<not> sy_overlap y \<and> terminating y"

lemma terminating_no_admission:
  assumes "step y y'" and "terminating y"
  shows "sy_overlap y' = sy_overlap y"
  using assms
proof (cases rule: step.cases)
  case (action_admitted fresh name r s)
  with assms(2) start_action_Inr(1) show ?thesis by (fastforce simp: terminating_def)
qed auto

interpretation stopping: ranked_system step terminating_inv "\<lambda>y. is_terminated (sy_entry y)" rank
proof
  fix y y'
  assume i: "terminating_inv y" and s: "step y y'"
  then show "terminating_inv y'"
    using terminating_no_admission [OF s] terminating_stays [OF s] terminated_stays [OF s] reachable_step
    by (auto simp: terminating_inv_def terminating_def)
  assume "\<not> is_terminated (sy_entry y)"
  with i obtain t where "sy_state y = Terminating t" by (auto simp: terminating_inv_def terminating_def)
  with i rank_not_raised [OF s] reachable_safe show "rank y' \<le> rank y" by (auto simp: terminating_inv_def)
next
  fix y
  assume i: "terminating_inv y" and "\<not> is_terminated (sy_entry y)"
  then obtain t where "sy_state y = Terminating t" by (auto simp: terminating_inv_def terminating_def)
  with i rank_lowered reachable_safe show "\<exists>y'. step y y' \<and> rank y' < rank y" by (auto simp: terminating_inv_def)
qed

end
