(* ===== verification/Session_Scenarios.thy ===== *)
theory Session_Scenarios
  imports Session_Guarantees
begin

text \<open>
  Concrete runs of a session, and the guarantees of the lifecycle. The predicate \<open>at_point\<close> collects what
  the following steps depend on; the clock stands still at 0.
\<close>

section \<open>Runs\<close>

definition at_point ::
  "system \<Rightarrow> session_state \<Rightarrow> initializer_pc \<Rightarrow> (string \<rightharpoonup> action_pc) \<Rightarrow> cleaner list \<Rightarrow> nat \<Rightarrow> bool" where
  "at_point y st i acts cls n \<longleftrightarrow> reachable y \<and> sy_state y = st \<and> sy_init y = i \<and> sy_actions y = acts
     \<and> sy_cleaners y = cls \<and> sy_teardowns y = n \<and> sy_clock y = 0 \<and> en_deadline (sy_entry y) = 20000000000
     \<and> en_task (sy_entry y) = sample_task \<and> en_registered (sy_entry y)"

definition undisturbed :: "system \<Rightarrow> bool" where
  "undisturbed y \<longleftrightarrow> \<not> en_initialization_cancelled (sy_entry y) \<and> en_cancelled (sy_entry y) = {} \<and> \<not> sy_overlap y
     \<and> sy_waiters y = 0"

lemma run_start: "\<exists>y. at_point y (Initializing False) Uploading Map.empty [] 0 \<and> undisturbed y"
proof -
  define v where "v = \<lparr>vr_request_id = None, vr_task_id = ''b'', vr_task = sample_task\<rparr>"
  have l: "se_max_lifetime_sec sample_session = 20" by (simp add: sample_session_def)
  have s: "tc_session (vr_task v) = Some sample_session" by (simp add: v_def sample_task_def)
  have d: "instant_checked_add 0 (secs 20) = Some 20000000000" by (simp add: instant_checked_add_def secs_def)
  have "\<not> MAX_SESSION_LIFETIME_SEC < 20" by (simp add: MAX_SESSION_LIFETIME_SEC_def)
  then obtain e where e: "reserve ''/w'' ''ses_0'' 0 v = Some e" "en_state e = Initializing False"
    "en_deadline e = 20000000000" "en_task e = sample_task" "en_registered e"
    "\<not> en_initialization_cancelled e" "en_cancelled e = {}"
    by (simp add: reserve_def s l d spawn_timer_def) (simp add: v_def)
  define y where "y = \<lparr>sy_entry = e, sy_clock = 0, sy_durable = None, sy_init = Uploading, sy_spawned = False,
    sy_actions = Map.empty, sy_updates = Map.empty, sy_cleaners = [], sy_waiters = 0, sy_teardowns = 0,
    sy_overlap = False\<rparr>"
  have "initial y" using e(1) by (auto simp: initial_def y_def)
  then have "reachable y" by (rule reachable_initial)
  with e have "at_point y (Initializing False) Uploading Map.empty [] 0 \<and> undisturbed y"
    by (simp add: at_point_def undisturbed_def y_def)
  then show ?thesis by blast
qed

lemma run_upload:
  assumes "at_point y (Initializing False) Uploading acts cls n" and "undisturbed y"
  shows "\<exists>y'. at_point y' (Initializing True) Extracting acts cls n \<and> undisturbed y'"
proof -
  have b: "begin_initialization (sy_clock y) (sy_entry y) = (True, (sy_entry y)\<lparr>en_state := Initializing True\<rparr>, None)"
    using assms by (simp add: at_point_def undisturbed_def begin_initialization_def)
  have i: "sy_init y = Uploading" and r: "reachable y" using assms by (simp_all add: at_point_def)
  from reachable_step [OF r upload_received [OF i b]] assms show ?thesis
    by (intro exI [of _ "(enter ((sy_entry y)\<lparr>en_state := Initializing True\<rparr>, None) y)\<lparr>sy_init := Extracting\<rparr>"])
      (simp add: at_point_def undisturbed_def)
qed

lemma run_initialize:
  assumes "at_point y (Initializing True) Extracting acts cls n" and "undisturbed y"
  shows "\<exists>y'. at_point y' (Ready 0) InitDone acts cls n \<and> undisturbed y'"
proof -
  define y1 where "y1 = y\<lparr>sy_init := StartingServices\<rparr>"
  define y2 where "y2 = y1\<lparr>sy_init := Checking\<rparr>"
  define y3 where "y3 = y2\<lparr>sy_entry := sy_entry y2, sy_init := Committing\<rparr>"
  define y4 where "y4 = y3\<lparr>sy_durable := Some (ready_metadata 0 (sy_entry y3)), sy_init := Electing\<rparr>"
  define s where "s = snd (commit_election 0 0 (sy_entry y4))"
  define y5 where "y5 = y4\<lparr>sy_entry := s, sy_init := InitDone\<rparr>"
  from assms have "reachable y" "sy_init y = Extracting" by (simp_all add: at_point_def)
  then have r1: "reachable y1" "sy_init y1 = StartingServices"
    using reachable_step [OF _ extracted [of y]] by (simp_all add: y1_def)
  then have r2: "reachable y2" "sy_init y2 = Checking"
    using reachable_step [OF _ services_ready [of y1]] by (simp_all add: y2_def)
  have e: "sy_entry y2 = sy_entry y" "sy_clock y2 = 0" using assms by (simp_all add: y1_def y2_def at_point_def)
  have "commit_check (sy_clock y2) (sy_entry y2) = (True, sy_entry y2)"
    using assms by (simp add: e at_point_def undisturbed_def commit_check_def is_initializing_def)
  with r2 have r3: "reachable y3" "sy_init y3 = Committing"
    using reachable_step [OF _ commit_checked [OF r2(2)]] by (auto simp: y3_def)
  then have r4: "reachable y4" "sy_init y4 = Electing"
    using reachable_step [OF _ metadata_written [of y3]] by (simp_all add: y4_def)
  have e4: "sy_entry y4 = sy_entry y" "sy_clock y4 = 0" using e by (simp_all add: y3_def y4_def)
  have "commit_election (sy_clock y4) 0 (sy_entry y4) = (True, s)"
    using assms by (simp add: s_def e4 at_point_def undisturbed_def commit_election_def is_initializing_def)
  with r4 have "reachable y5"
    using reachable_step [OF _ elected [OF r4(2)]] by (fastforce simp: y5_def)
  moreover have "en_state s = Ready 0 \<and> en_deadline s = en_deadline (sy_entry y) \<and> en_task s = en_task (sy_entry y)
      \<and> en_registered s = en_registered (sy_entry y) \<and> \<not> en_initialization_cancelled s
      \<and> en_cancelled s = en_cancelled (sy_entry y)"
    using assms by (simp add: s_def e4 at_point_def undisturbed_def commit_election_def is_initializing_def
      spawn_timer_def retain_outputs_def)
  ultimately have "at_point y5 (Ready 0) InitDone acts cls n \<and> undisturbed y5"
    using assms e e4 by (simp add: at_point_def undisturbed_def y5_def y4_def y3_def y2_def y1_def)
  then show ?thesis by blast
qed

lemma run_ready: "\<exists>y. at_point y (Ready 0) InitDone Map.empty [] 0 \<and> undisturbed y"
  using run_start run_upload run_initialize by blast

lemma run_stop:
  assumes "at_point y (Ready t) i acts [] n"
  shows "\<exists>y'. at_point y' (Terminating \<lparr>tm_explicit = True, tm_owner = Requester\<rparr>) i acts [CleanerStarting True] n
    \<and> sy_overlap y' = sy_overlap y"
proof -
  let ?s = "terminate True Requester (cancel_initialization (sy_entry y))"
  have "stop (sy_entry y) = (StopCleans, ?s)" using assms by (simp add: at_point_def stop_def)
  from reachable_step [OF _ stop_cleans [OF this]] assms
  have "at_point (enter (?s, Some True) y) (Terminating \<lparr>tm_explicit = True, tm_owner = Requester\<rparr>) i acts
      [CleanerStarting True] n \<and> sy_overlap (enter (?s, Some True) y) = sy_overlap y"
    by (simp add: at_point_def terminate_def cancel_initialization_def)
  then show ?thesis by blast
qed

lemma run_cleanup:
  assumes "at_point y (Terminating t) i acts cls n" and "CleanerStarting e \<in> set cls"
  shows "\<exists>y' vs. at_point y' (Terminating t) i acts (CleanerRunning e vs # remove1 (CleanerStarting e) cls) (Suc n)
    \<and> sy_overlap y' = sy_overlap y"
proof -
  obtain vs s where b: "cleanup_begin (sy_entry y) = (vs, s)" by (cases "cleanup_begin (sy_entry y)")
  have "CleanerStarting e \<in> set (sy_cleaners y)" using assms by (simp add: at_point_def)
  from reachable_step [OF _ cleanup_started [OF this b]] assms b
  have "at_point (y\<lparr>sy_entry := s, sy_teardowns := Suc (sy_teardowns y), sy_cleaners :=
        CleanerRunning e vs # remove1 (CleanerStarting e) (sy_cleaners y)\<rparr>) (Terminating t) i acts
      (CleanerRunning e vs # remove1 (CleanerStarting e) cls) (Suc n)"
    by (auto simp: at_point_def cleanup_begin_def abort_timers_def)
  then show ?thesis by (intro exI conjI) (assumption, simp)
qed

text \<open>An action whose acknowledgement arrives after its worker gave up, and the next action.\<close>

lemma run_action:
  assumes "at_point y (Ready t) i acts cls n" and "acts (''act_'' @ op) = None"
  shows "\<exists>y'. at_point y' (Action (''act_'' @ op)) i (acts(''act_'' @ op \<mapsto> ActionRunning)) cls n
    \<and> en_cancelled (sy_entry y') = en_cancelled (sy_entry y)
    \<and> sy_overlap y' = (sy_overlap y \<or> action_failing y)"
proof -
  have "tc_session sample_task = Some sample_session" by (simp add: sample_task_def)
  moreover obtain a where "select_action sample_session ''a'' = Inr (a, Named)"
    by (simp add: select_action_def sample_session_def)
  ultimately obtain r where r: "start_action op (sy_clock y) ''a'' (sy_entry y)
      = (Inr r, (sy_entry y)\<lparr>en_state := Action (''act_'' @ op)\<rparr>)" "rr_action_id r = ''act_'' @ op"
    using assms(1) by (simp add: at_point_def start_action_def lookup_def)
  from r(2) assms have "sy_actions y (rr_action_id r) = None" by (simp add: at_point_def)
  from reachable_step [OF _ action_admitted [OF r(1) this]] assms(1) r(2)
  have "at_point (y\<lparr>sy_entry := (sy_entry y)\<lparr>en_state := Action (''act_'' @ op)\<rparr>,
      sy_actions := (sy_actions y)(rr_action_id r \<mapsto> ActionRunning), sy_overlap := sy_overlap y \<or> action_failing y\<rparr>)
      (Action (''act_'' @ op)) i (acts(''act_'' @ op \<mapsto> ActionRunning)) cls n"
    by (simp add: at_point_def)
  then show ?thesis by (intro exI conjI) (assumption, simp_all)
qed

lemma run_late_acknowledgement:
  assumes "at_point y (Action op) i acts cls n" and "acts op = Some ActionRunning" and "en_cancelled (sy_entry y) = {}"
  shows "\<exists>y'. at_point y' (Ready 0) i (acts(op \<mapsto> ActionFailing True)) cls n"
proof -
  define y1 where "y1 = y\<lparr>sy_actions := (sy_actions y)(op \<mapsto> ActionWaiting)\<rparr>"
  define y2 where "y2 = y1\<lparr>sy_actions := (sy_actions y1)(op \<mapsto> ActionFailing True)\<rparr>"
  define s where "s = spawn_timer IdleTimer ((sy_entry y2)\<lparr>en_state := Ready 0\<rparr>)"
  have "action_can_publish 0 op (sy_entry y)" using assms by (simp add: at_point_def action_can_publish_def)
  with assms have r1: "reachable y1"
    using reachable_step [OF _ action_enqueued [of y op 0]] by (simp add: at_point_def y1_def)
  have r2: "reachable y2"
    using reachable_step [OF r1 action_unacknowledged [of y1 op]] by (simp add: y2_def y1_def)
  have "acknowledge_action_delivery (sy_clock y2) 0 op (sy_entry y2) = (True, s)"
    using assms by (simp add: s_def at_point_def acknowledge_action_delivery_def y2_def y1_def)
  from reachable_step [OF r2 acknowledged [OF _ _ this, of "ActionFailing True"]]
  have "reachable (y2\<lparr>sy_entry := s, sy_actions := (sy_actions y2)(op \<mapsto> ActionFailing True)\<rparr>)"
    by (simp add: y2_def)
  with assms(1) have "at_point (y2\<lparr>sy_entry := s, sy_actions := (sy_actions y2)(op \<mapsto> ActionFailing True)\<rparr>)
      (Ready 0) i (acts(op \<mapsto> ActionFailing True)) cls n"
    by (simp add: at_point_def s_def spawn_timer_def y2_def y1_def)
  then show ?thesis by blast
qed

lemma run_action_stop:
  assumes "at_point y (Action op) i acts cls n"
  shows "\<exists>y'. at_point y' (Terminating \<lparr>tm_explicit = True, tm_owner = ActionOwner\<rparr>) i acts cls n
    \<and> 0 < sy_waiters y' \<and> sy_overlap y' = sy_overlap y"
proof -
  let ?s = "terminate True ActionOwner (cancel_operation op (sy_entry y))"
  have "stop (sy_entry y) = (StopWaits, ?s)" using assms by (simp add: at_point_def stop_def)
  from reachable_step [OF _ stop_waits [OF this]] assms
  have "at_point (y\<lparr>sy_entry := ?s, sy_waiters := Suc (sy_waiters y)\<rparr>)
      (Terminating \<lparr>tm_explicit = True, tm_owner = ActionOwner\<rparr>) i acts cls n"
    by (simp add: at_point_def terminate_def cancel_operation_def)
  then show ?thesis by (intro exI conjI) (assumption, simp_all)
qed

lemma run_action_finish:
  assumes "at_point y (Terminating \<lparr>tm_explicit = e, tm_owner = ActionOwner\<rparr>) i acts cls n"
    and "acts op = Some (ActionFailing b)"
  shows "\<exists>y'. at_point y' (Terminating \<lparr>tm_explicit = e, tm_owner = ActionOwner\<rparr>) i (acts(op \<mapsto> ActionDone))
    (cls @ [CleanerStarting e]) n"
proof -
  have f: "finish_action 0 op False (sy_entry y) = (sy_entry y, Some e)"
    using assms by (simp add: at_point_def finish_action_def)
  have "reachable ((enter (finish_action 0 op False (sy_entry y)) y)\<lparr>sy_actions := (sy_actions y)(op \<mapsto> ActionDone)\<rparr>)"
    using assms reachable_step [OF _ action_finished [of y op b 0]] by (simp add: at_point_def)
  with assms(1) have "at_point ((enter (sy_entry y, Some e) y)\<lparr>sy_actions := (sy_actions y)(op \<mapsto> ActionDone)\<rparr>)
      (Terminating \<lparr>tm_explicit = e, tm_owner = ActionOwner\<rparr>) i (acts(op \<mapsto> ActionDone)) (cls @ [CleanerStarting e]) n"
    by (simp add: at_point_def f)
  then show ?thesis by blast
qed

lemma run_action_failure:
  assumes "at_point y st i acts cls n" and "acts op = Some ActionRunning"
  shows "\<exists>y'. at_point y' st i (acts(op \<mapsto> ActionFailing False)) cls n"
proof -
  have "at_point (y\<lparr>sy_actions := (sy_actions y)(op \<mapsto> ActionFailing False)\<rparr>) st i (acts(op \<mapsto> ActionFailing False)) cls n"
    using assms reachable_step [OF _ action_failed [of y op]] by (simp add: at_point_def)
  then show ?thesis by blast
qed

section \<open>Guarantees\<close>

text \<open>
  C1. A session is cleaned up at most once, by one thread, whatever requests, timers, disconnects,
  service failures and workers race: at most one cleanup runs at any time, none before the session
  terminates, and a terminated session had exactly one, holds no permit, is out of the registry and
  has no service left. The runs excluded are those in which a new action was admitted while the
  worker of an earlier one had given up on its acknowledgement and not yet finished.
\<close>

theorem cleanup_exactly_once:
  assumes "reachable y" and "\<not> sy_overlap y"
  shows "sy_teardowns y \<le> 1 \<and> length (sy_cleaners y) \<le> 1
    \<and> (sy_teardowns y = 1 \<or> sy_cleaners y \<noteq> [] \<longrightarrow> terminating y)
    \<and> (is_terminated (sy_entry y) \<longleftrightarrow> sy_teardowns y = 1 \<and> sy_cleaners y = [])
    \<and> (en_permit (sy_entry y) \<longleftrightarrow> \<not> is_terminated (sy_entry y))
    \<and> (en_registered (sy_entry y) \<longleftrightarrow> \<not> is_terminated (sy_entry y))
    \<and> (is_terminated (sy_entry y) \<longrightarrow> en_services (sy_entry y) = [])"
proof -
  from reachable_safe [OF assms] have R: "responsible (sy_state y) (init_live (sy_init y)) (sy_actions y) (sy_updates y)
      (sy_cleaners y) (sy_teardowns y)" and B: "booked (sy_entry y)" by (simp_all add: safe_def exclusive_def)
  have "sy_teardowns y \<le> 1 \<and> length (sy_cleaners y) \<le> 1
      \<and> (sy_teardowns y = 1 \<or> sy_cleaners y \<noteq> [] \<longrightarrow> terminating y)
      \<and> (is_terminated (sy_entry y) \<longleftrightarrow> sy_teardowns y = 1 \<and> sy_cleaners y = [])"
    using R by (cases "sy_state y")
      (auto simp: terminating_def one_cleaner_def no_cleaner_def split: cleanup_owner.splits if_splits)
  moreover from this have "is_terminated (sy_entry y) \<longrightarrow> en_services (sy_entry y) = []"
    using reachable_services [OF assms] by (auto simp: services_inv_def simp del: is_terminated_simps)
  ultimately show ?thesis using B unfolding booked_def by blast
qed

theorem cleanup_exactly_once_witness:
  "\<exists>y. reachable y \<and> \<not> sy_overlap y \<and> terminating y \<and> sy_teardowns y = 1 \<and> length (sy_cleaners y) \<le> 1"
proof -
  from run_ready obtain y0 where y0: "at_point y0 (Ready 0) InitDone Map.empty [] 0" "undisturbed y0" by blast
  from run_stop [OF y0(1)] obtain y1 where
    y1: "at_point y1 (Terminating \<lparr>tm_explicit = True, tm_owner = Requester\<rparr>) InitDone Map.empty [CleanerStarting True] 0"
      "sy_overlap y1 = sy_overlap y0" by blast
  from run_cleanup [OF y1(1), of True] obtain y2 vs where
    y2: "at_point y2 (Terminating \<lparr>tm_explicit = True, tm_owner = Requester\<rparr>) InitDone Map.empty [CleanerRunning True vs] 1"
      "sy_overlap y2 = sy_overlap y1" by auto
  have r: "reachable y2" "\<not> sy_overlap y2" using y2 y1(2) y0(2) by (simp_all add: at_point_def undisturbed_def)
  have "sy_teardowns y2 = 1" using y2(1) by (simp add: at_point_def)
  with cleanup_exactly_once [OF r] r show ?thesis by blast
qed







text \<open>
  C29. Without that exclusion the cleanup can run twice: \<^verbatim>\<open>finish_action\<close> does not compare its
  action with the one that is terminating, so a worker whose acknowledgement came late cleans up for
  the next action while that action's own worker does so too.
\<close>

theorem late_acknowledgement_cleans_twice:
  "\<exists>y. reachable y \<and> sy_teardowns y = 2 \<and> length (sy_cleaners y) = 2"
proof -
  let ?t = "Terminating \<lparr>tm_explicit = True, tm_owner = ActionOwner\<rparr>" and ?a = "''act_1''" and ?b = "''act_2''"
  from run_ready obtain y0 where y0: "at_point y0 (Ready 0) InitDone Map.empty [] 0" "en_cancelled (sy_entry y0) = {}"
    by (auto simp: undisturbed_def)
  from run_action [OF y0(1), of "''1''"] y0(2) obtain y1 where
    y1: "at_point y1 (Action ?a) InitDone [?a \<mapsto> ActionRunning] [] 0" "en_cancelled (sy_entry y1) = {}" by auto
  from run_late_acknowledgement [OF y1(1) _ y1(2)] obtain y2 where
    y2: "at_point y2 (Ready 0) InitDone [?a \<mapsto> ActionFailing True] [] 0" by auto
  from run_action [OF y2, of "''2''"] obtain y3 where
    y3: "at_point y3 (Action ?b) InitDone [?a \<mapsto> ActionFailing True, ?b \<mapsto> ActionRunning] [] 0" by auto
  from run_action_stop [OF y3] obtain y4 where
    y4: "at_point y4 ?t InitDone [?a \<mapsto> ActionFailing True, ?b \<mapsto> ActionRunning] [] 0" by blast
  from run_action_finish [OF y4, of ?a True] obtain y5 acts where
    y5: "at_point y5 ?t InitDone acts [CleanerStarting True] 0" "acts ?b = Some ActionRunning" by auto
  from run_cleanup [OF y5(1), of True] obtain y6 vs where
    y6: "at_point y6 ?t InitDone acts [CleanerRunning True vs] 1" by auto
  from run_action_failure [OF y6 y5(2)] obtain y7 where
    y7: "at_point y7 ?t InitDone (acts(?b \<mapsto> ActionFailing False)) [CleanerRunning True vs] 1" by blast
  from run_action_finish [OF y7, of ?b False] obtain y8 acts' where
    y8: "at_point y8 ?t InitDone acts' [CleanerRunning True vs, CleanerStarting True] 1" by auto
  from run_cleanup [OF y8, of True] obtain y9 vs' where
    "at_point y9 ?t InitDone acts' [CleanerRunning True vs', CleanerRunning True vs] (Suc (Suc 0))" by auto
  then show ?thesis by (auto simp: at_point_def)
qed

end
