(* ===== verification/Polling.thy ===== *)
theory Polling
  imports Prelude
begin

text \<open>
  Loops that poll and sleep. An iteration looks at what it observes, its number standing for the
  moment, and either returns or sleeps and goes on with a new state. Such a loop ends when its
  clock moves by at least a fixed amount between iterations and every iteration past the deadline
  returns.
\<close>

partial_function (option) poll :: "('s \<Rightarrow> nat \<Rightarrow> 's + 'r) \<Rightarrow> 's \<Rightarrow> nat \<Rightarrow> ('r \<times> nat) option" where
  "poll body s i = (case body s i of Inl s' \<Rightarrow> poll body s' (Suc i) | Inr r \<Rightarrow> Some (r, i))"

declare poll.simps [code]

text \<open>The clock of a loop that sleeps \<open>d\<close> between iterations.\<close>

definition paced :: "nat \<Rightarrow> (nat \<Rightarrow> nat) \<Rightarrow> bool" where
  "paced d clock \<longleftrightarrow> 0 < d \<and> (\<forall>i. clock i + d \<le> clock (Suc i))"

lemma paced_add:
  assumes "paced d clock"
  shows "clock i + k * d \<le> clock (i + k)"
proof (induction k)
  case (Suc k)
  have "clock (i + k) + d \<le> clock (Suc (i + k))" using assms by (simp add: paced_def)
  with Suc show ?case by (simp add: algebra_simps)
qed simp

text \<open>The iteration that returns, and the state it found.\<close>

lemma poll_result:
  fixes body :: "'s \<Rightarrow> nat \<Rightarrow> 's + 'r"
  assumes "poll body s i = Some (r, k)" and "P s i"
    and "\<And>s i s'. P s i \<Longrightarrow> body s i = Inl s' \<Longrightarrow> P s' (Suc i)"
  shows "\<exists>s'. P s' k \<and> body s' k = Inr r \<and> i \<le> k"
proof -
  let ?Q = "\<lambda>(body :: 's \<Rightarrow> nat \<Rightarrow> 's + 'r) s i rk. (\<forall>s i s'. P s i \<longrightarrow> body s i = Inl s' \<longrightarrow> P s' (Suc i)) \<longrightarrow> P s i
    \<longrightarrow> (\<exists>s'. P s' (snd rk) \<and> body s' (snd rk) = Inr (fst rk) \<and> i \<le> snd rk)"
  have "?Q body s i (r, k)"
  proof (rule poll.raw_induct [where P = ?Q, OF _ assms(1)])
    fix poll' :: "('s \<Rightarrow> nat \<Rightarrow> 's + 'r) \<Rightarrow> 's \<Rightarrow> nat \<Rightarrow> ('r \<times> nat) option"
      and body :: "'s \<Rightarrow> nat \<Rightarrow> 's + 'r" and s i rk
    assume IH: "\<And>body s i rk. poll' body s i = Some rk \<Longrightarrow> ?Q body s i rk"
      and eq: "(case body s i of Inl s' \<Rightarrow> poll' body s' (Suc i) | Inr r \<Rightarrow> Some (r, i)) = Some rk"
    show "?Q body s i rk"
    proof (cases "body s i")
      case (Inl s')
      with eq IH [of body s' "Suc i" rk] show ?thesis by (auto dest: Suc_leD)
    next
      case (Inr r)
      with eq show ?thesis by auto
    qed
  qed
  with assms(2,3) show ?thesis by auto
qed

lemmas poll_returned = poll_result [where P = "\<lambda>_ _. True", simplified]

lemma poll_returns:
  assumes "paced d clock" and late: "\<And>s i. deadline \<le> clock i \<Longrightarrow> \<exists>r. body s i = Inr r"
  shows "\<exists>r k. poll body s i = Some (r, k) \<and> i \<le> k \<and> (k - i) * d < deadline - clock i + d"
proof (induction "deadline - clock i" arbitrary: s i rule: less_induct)
  case less
  have d: "0 < d" "clock i + d \<le> clock (Suc i)" using assms(1) by (simp_all add: paced_def)
  show ?case
  proof (cases "body s i")
    case (Inr r)
    then have "poll body s i = Some (r, i)" by (simp add: poll.simps)
    with d(1) show ?thesis by auto
  next
    case (Inl s')
    then have "clock i < deadline" using late [of i s] by fastforce
    with d have lt: "deadline - clock (Suc i) < deadline - clock i" by simp
    from less.hyps [OF lt, of s'] obtain r k where
      k: "poll body s' (Suc i) = Some (r, k)" "Suc i \<le> k" "(k - Suc i) * d < deadline - clock (Suc i) + d" by blast
    from Inl k(1) have "poll body s i = Some (r, k)" by (subst poll.simps) simp
    moreover have "(k - i) * d = (k - Suc i) * d + d"
      using k(2) by (metis Suc_diff_le diff_Suc_Suc mult_Suc add.commute)
    moreover have "(k - Suc i) * d + d < deadline - clock i + d"
    proof (cases "deadline \<le> clock (Suc i)")
      case True
      with k(3) d(1) have "k - Suc i = 0" by simp
      with \<open>clock i < deadline\<close> show ?thesis by simp
    next
      case False
      with k(3) d(2) show ?thesis by linarith
    qed
    ultimately show ?thesis using k(2) by (intro exI [of _ r] exI [of _ k]) simp
  qed
qed

end
