(* ===== verification/Process.thy ===== *)
theory Process
  imports Polling Build_Error Posix_Fs
begin

text \<open>
  Child processes and event channels of \<^verbatim>\<open>src/build.rs\<close>: the loops that wait for a process group to
  disappear, escalate from \<^verbatim>\<open>SIGTERM\<close> to \<^verbatim>\<open>SIGKILL\<close>, enforce a timeout and forward events to a
  bounded channel. The operating system answers each iteration of a loop; a loop that does not
  return is \<^const>\<open>None\<close>. Times are nanoseconds since the loop began.
\<close>

definition TIMEOUT_EXIT_CODE :: int where "TIMEOUT_EXIT_CODE = 124"

definition TIMEOUT_KILL_GRACE :: nat where "TIMEOUT_KILL_GRACE = 5000000000"

definition OUTPUT_CHUNK_SIZE :: nat where "OUTPUT_CHUNK_SIZE = 4096"

definition OUTPUT_FORWARD_GRACE :: nat where "OUTPUT_FORWARD_GRACE = 2000000000"

definition ESRCH :: nat where "ESRCH = 3"

definition EPERM :: nat where "EPERM = 1"

definition millis :: "nat \<Rightarrow> nat" where "millis n = n * 1000000"

section \<open>Signals and exit codes\<close>

text \<open>The result of \<^verbatim>\<open>kill\<close> or \<^verbatim>\<open>killpg\<close>.\<close>

type_synonym kill_result = "io_error option"

definition process_group_exists :: "kill_result \<Rightarrow> (bool, io_error) result" where
  "process_group_exists r =
     (case r of
        None \<Rightarrow> Inr True
      | Some err \<Rightarrow>
          if raw_os_error err = Some ESRCH then Inr False
          else if raw_os_error err = Some EPERM then Inr True
          else Inl err)"

definition signal_group :: "kill_result \<Rightarrow> (unit, io_error) result" where
  "signal_group r =
     (case r of
        None \<Rightarrow> Inr ()
      | Some err \<Rightarrow> if raw_os_error err = Some ESRCH then Inr () else Inl err)"

text \<open>The group first, then the process alone.\<close>

definition signal_process_group :: "kill_result \<Rightarrow> kill_result \<Rightarrow> (unit, io_error) result" where
  "signal_process_group on_group on_process = (if on_group = None then Inr () else signal_group on_process)"

record exit_status =
  es_code :: "int option"
  es_signal :: "int option"

definition exit_code :: "exit_status \<Rightarrow> int" where
  "exit_code status =
     (case es_code status of
        Some c \<Rightarrow> c
      | None \<Rightarrow> (case es_signal status of Some s \<Rightarrow> 128 + s | None \<Rightarrow> 1))"

section \<open>Waiting for a process group\<close>

text \<open>What the iterations of a waiting loop observe.\<close>

record watch =
  wt_try_wait :: "nat \<Rightarrow> (exit_status option, io_error) result"
  wt_group :: "nat \<Rightarrow> kill_result"
  wt_elapsed :: "nat \<Rightarrow> nat"

definition group_wait_body ::
  "watch \<Rightarrow> nat \<Rightarrow> int option \<Rightarrow> nat \<Rightarrow> int option + (int option \<times> bool, io_error) result" where
  "group_wait_body w timeout code i =
     (case (if code = None then map_sum id (map_option exit_code) (wt_try_wait w i) else Inr code) of
        Inl err \<Rightarrow> Inr (Inl err)
      | Inr code' \<Rightarrow>
          (case process_group_exists (wt_group w i) of
             Inl err \<Rightarrow> Inr (Inl err)
           | Inr alive \<Rightarrow>
               if \<not> alive then Inr (Inr (code', True))
               else if timeout \<le> wt_elapsed w i then Inr (Inr (code', False))
               else Inl code'))"

definition wait_for_group_and_exit :: "watch \<Rightarrow> nat \<Rightarrow> (int option \<times> bool, io_error) result option" where
  "wait_for_group_and_exit w timeout = map_option fst (poll (group_wait_body w timeout) None 0)"

datatype signal = SIGTERM | SIGKILL

text \<open>
  The two waits and the last \<^verbatim>\<open>try_wait\<close> are the arguments; signals that cannot be sent are only
  logged. The signals sent are part of the result.
\<close>

definition terminate_process ::
  "watch \<Rightarrow> watch \<Rightarrow> (exit_status option, io_error) result \<Rightarrow> ((int, io_error) result \<times> signal list) option" where
  "terminate_process soft hard final =
     (let finish = (\<lambda>code signals.
        case code of
          Some c \<Rightarrow> Some (Inr c, signals)
        | None \<Rightarrow>
            (case final of
               Inl err \<Rightarrow> Some (Inl err, signals)
             | Inr status \<Rightarrow> Some (Inr (case status of Some st \<Rightarrow> exit_code st | None \<Rightarrow> TIMEOUT_EXIT_CODE), signals)))
      in
      case wait_for_group_and_exit soft TIMEOUT_KILL_GRACE of
        None \<Rightarrow> None
      | Some (Inl err) \<Rightarrow> Some (Inl err, [SIGTERM])
      | Some (Inr (code, True)) \<Rightarrow> finish code [SIGTERM]
      | Some (Inr (code, False)) \<Rightarrow>
          (case wait_for_group_and_exit hard TIMEOUT_KILL_GRACE of
             None \<Rightarrow> None
           | Some (Inl err) \<Rightarrow> Some (Inl err, [SIGTERM, SIGKILL])
           | Some (Inr (code', gone)) \<Rightarrow>
               if \<not> gone then Some (Inl (OtherError ''process group survived SIGKILL''), [SIGTERM, SIGKILL])
               else finish (if code = None then code' else code) [SIGTERM, SIGKILL]))"

definition group_gone_body ::
  "(nat \<Rightarrow> kill_result) \<Rightarrow> (nat \<Rightarrow> nat) \<Rightarrow> unit \<Rightarrow> nat \<Rightarrow> unit + (bool, io_error) result" where
  "group_gone_body probes elapsed _ i =
     (if \<not> elapsed i < TIMEOUT_KILL_GRACE then Inr (Inr False)
      else
        (case process_group_exists (probes i) of
           Inl err \<Rightarrow> Inr (Inl err)
         | Inr alive \<Rightarrow> if \<not> alive then Inr (Inr True) else Inl ()))"

definition wait_group_gone :: "(nat \<Rightarrow> kill_result) \<Rightarrow> (nat \<Rightarrow> nat) \<Rightarrow> (bool, io_error) result option" where
  "wait_group_gone probes elapsed = map_option fst (poll (group_gone_body probes elapsed) () 0)"

definition terminate_remaining_group ::
  "kill_result \<Rightarrow> kill_result \<Rightarrow> watch \<Rightarrow> kill_result \<Rightarrow> watch \<Rightarrow> (unit, io_error) result option" where
  "terminate_remaining_group probe sigterm soft sigkill hard =
     (case process_group_exists probe of
        Inl err \<Rightarrow> Some (Inl err)
      | Inr False \<Rightarrow> Some (Inr ())
      | Inr True \<Rightarrow>
          (case signal_group sigterm of
             Inl err \<Rightarrow> Some (Inl err)
           | Inr _ \<Rightarrow>
               (case wait_group_gone (wt_group soft) (wt_elapsed soft) of
                  None \<Rightarrow> None
                | Some (Inl err) \<Rightarrow> Some (Inl err)
                | Some (Inr True) \<Rightarrow> Some (Inr ())
                | Some (Inr False) \<Rightarrow>
                    (case signal_group sigkill of
                       Inl err \<Rightarrow> Some (Inl err)
                     | Inr _ \<Rightarrow>
                         (case wait_group_gone (wt_group hard) (wt_elapsed hard) of
                            None \<Rightarrow> None
                          | Some (Inl err) \<Rightarrow> Some (Inl err)
                          | Some (Inr True) \<Rightarrow> Some (Inr ())
                          | Some (Inr False) \<Rightarrow> Some (Inl (OtherError ''process group survived SIGKILL'')))))))"

section \<open>Waiting for a task\<close>

datatype wait_outcome = Exited int bool nat | WaitCancelled

datatype wait_event = TaskExited exit_status nat | TaskCancelled | TaskTimedOut | TaskWaitError io_error

text \<open>The elapsed time of the exit is read after the status.\<close>

definition task_wait_body ::
  "watch \<Rightarrow> (nat \<Rightarrow> bool) \<Rightarrow> (nat \<Rightarrow> nat) \<Rightarrow> nat \<Rightarrow> unit \<Rightarrow> nat \<Rightarrow> unit + wait_event" where
  "task_wait_body w cancelled exited_at timeout _ i =
     (case wt_try_wait w i of
        Inl err \<Rightarrow> Inr (TaskWaitError err)
      | Inr (Some status) \<Rightarrow> Inr (TaskExited status (exited_at i))
      | Inr None \<Rightarrow>
          if cancelled i then Inr TaskCancelled
          else if timeout \<le> wt_elapsed w i then Inr TaskTimedOut
          else Inl ())"

text \<open>
  The environment of a task: what its wait observes, then what each way of ending it observes.
\<close>

record task_env =
  te_watch :: watch
  te_cancelled :: "nat \<Rightarrow> bool"
  te_exited_at :: "nat \<Rightarrow> nat"
  te_timed_out_at :: nat
  te_probe :: kill_result
  te_sigterm :: kill_result
  te_term :: watch
  te_sigkill :: kill_result
  te_kill :: watch
  te_final :: "(exit_status option, io_error) result"

definition wait_with_timeout :: "task_env \<Rightarrow> u64 \<Rightarrow> (wait_outcome, io_error) result option" where
  "wait_with_timeout e timeout_sec =
     (case map_option fst (poll (task_wait_body (te_watch e) (te_cancelled e) (te_exited_at e)
         (unat timeout_sec * 1000000000)) () 0) of
        None \<Rightarrow> None
      | Some (TaskWaitError err) \<Rightarrow> Some (Inl err)
      | Some (TaskExited status duration) \<Rightarrow>
          (case terminate_remaining_group (te_probe e) (te_sigterm e) (te_term e) (te_sigkill e) (te_kill e) of
             None \<Rightarrow> None
           | Some (Inl err) \<Rightarrow> Some (Inl err)
           | Some (Inr _) \<Rightarrow> Some (Inr (Exited (exit_code status) False duration)))
      | Some TaskCancelled \<Rightarrow>
          (case terminate_process (te_term e) (te_kill e) (te_final e) of
             None \<Rightarrow> None
           | Some (Inl err, _) \<Rightarrow> Some (Inl err)
           | Some (Inr _, _) \<Rightarrow> Some (Inr WaitCancelled))
      | Some TaskTimedOut \<Rightarrow>
          (case terminate_process (te_term e) (te_kill e) (te_final e) of
             None \<Rightarrow> None
           | Some (Inl err, _) \<Rightarrow> Some (Inl err)
           | Some (Inr code, _) \<Rightarrow> Some (Inr (Exited code True (te_timed_out_at e)))))"

section \<open>Sending events\<close>

datatype try_send = Sent | Closed | Full

record send_poll =
  sp_cancelled :: bool
  sp_send :: try_send
  sp_elapsed :: nat

text \<open>
  \<^verbatim>\<open>send_session_response\<close> and \<^verbatim>\<open>send_action_response\<close>: they differ in the message for a flag that is
  already set. The second component says whether the flag is set by the loop.
\<close>

definition send_guarded_body ::
  "string \<Rightarrow> (nat \<Rightarrow> send_poll) \<Rightarrow> unit \<Rightarrow> nat \<Rightarrow> unit + ((unit, build_error) result \<times> bool)" where
  "send_guarded_body cancelled_message polls _ i =
     (let p = polls i in
      if sp_cancelled p then Inr (Inl (be_new ''stream_closed'' cancelled_message), False)
      else
        (case sp_send p of
           Sent \<Rightarrow> Inr (Inr (), False)
         | Closed \<Rightarrow> Inr (Inl (be_new ''stream_closed'' ''client disconnected''), True)
         | Full \<Rightarrow>
             if OUTPUT_FORWARD_GRACE \<le> sp_elapsed p
             then Inr (Inl (be_new ''stream_closed'' ''client is not reading output''), True)
             else Inl ()))"

definition send_session_response :: "(nat \<Rightarrow> send_poll) \<Rightarrow> ((unit, build_error) result \<times> bool) option" where
  "send_session_response polls = map_option fst (poll (send_guarded_body ''client disconnected'' polls) () 0)"

definition send_action_response :: "(nat \<Rightarrow> send_poll) \<Rightarrow> ((unit, build_error) result \<times> bool) option" where
  "send_action_response polls = map_option fst (poll (send_guarded_body ''session action cancelled'' polls) () 0)"

definition send_body :: "(nat \<Rightarrow> send_poll) \<Rightarrow> bool \<Rightarrow> unit \<Rightarrow> nat \<Rightarrow> unit + bool" where
  "send_body polls guarded _ i =
     (let p = polls i in
      if guarded \<and> sp_cancelled p then Inr False
      else
        (case sp_send p of
           Sent \<Rightarrow> Inr True
         | Closed \<Rightarrow> Inr False
         | Full \<Rightarrow> if OUTPUT_FORWARD_GRACE \<le> sp_elapsed p then Inr False else Inl ()))"

definition send_response :: "(nat \<Rightarrow> send_poll) \<Rightarrow> bool option" where
  "send_response polls = map_option fst (poll (send_body polls False) () 0)"

definition forward_output :: "(nat \<Rightarrow> send_poll) \<Rightarrow> bool option" where
  "forward_output polls = map_option fst (poll (send_body polls True) () 0)"

section \<open>Every loop returns\<close>

definition paced_watch :: "nat \<Rightarrow> watch \<Rightarrow> bool" where
  "paced_watch d w \<longleftrightarrow> paced (millis d) (wt_elapsed w)"

lemma poll_total:
  fixes body :: "'s \<Rightarrow> nat \<Rightarrow> 's + 'r"
  assumes "paced d clock" and "\<And>s i. deadline \<le> clock i \<Longrightarrow> \<exists>r. body s i = Inr r"
  shows "\<exists>r. map_option fst (poll body s0 i0) = Some r"
  using poll_returns [of d clock deadline body s0 i0] assms by fastforce

lemma wait_for_group_total:
  assumes "paced_watch d w"
  shows "\<exists>r. wait_for_group_and_exit w timeout = Some r"
  unfolding wait_for_group_and_exit_def
  by (rule poll_total [OF assms [unfolded paced_watch_def], of timeout])
    (auto simp: group_wait_body_def split: sum.split)

lemma terminate_process_total:
  assumes "paced_watch d soft" and "paced_watch d' hard"
  shows "\<exists>r. terminate_process soft hard final = Some r"
  using wait_for_group_total [OF assms(1), of TIMEOUT_KILL_GRACE] wait_for_group_total [OF assms(2), of TIMEOUT_KILL_GRACE]
  by (auto simp: terminate_process_def Let_def split: sum.split option.split bool.split prod.split)

lemma wait_group_gone_total:
  assumes "paced d elapsed"
  shows "\<exists>r. wait_group_gone probes elapsed = Some r"
  unfolding wait_group_gone_def
  by (rule poll_total [OF assms, of TIMEOUT_KILL_GRACE]) (auto simp: group_gone_body_def)

lemma terminate_remaining_group_total:
  assumes "paced_watch d soft" and "paced_watch d' hard"
  shows "\<exists>r. terminate_remaining_group probe sigterm soft sigkill hard = Some r"
  using wait_group_gone_total [OF assms(1) [unfolded paced_watch_def], of "wt_group soft"]
    wait_group_gone_total [OF assms(2) [unfolded paced_watch_def], of "wt_group hard"]
  by (auto simp: terminate_remaining_group_def split: sum.split option.split bool.split)

lemma task_wait_total:
  assumes "paced_watch d w"
  shows "\<exists>r. map_option fst (poll (task_wait_body w cancelled exited_at timeout) () 0) = Some r"
  by (rule poll_total [OF assms [unfolded paced_watch_def], of timeout])
    (auto simp: task_wait_body_def split: sum.split option.split)

text \<open>A clock read before each sleep.\<close>

definition paced_sends :: "(nat \<Rightarrow> send_poll) \<Rightarrow> bool" where
  "paced_sends polls \<longleftrightarrow> paced (millis 10) (\<lambda>i. sp_elapsed (polls i))"

lemma send_guarded_total:
  assumes "paced_sends polls"
  shows "\<exists>r. map_option fst (poll (send_guarded_body msg polls) () 0) = Some r"
  by (rule poll_total [OF assms [unfolded paced_sends_def], of OUTPUT_FORWARD_GRACE])
    (auto simp: send_guarded_body_def Let_def split: try_send.split)

lemma send_body_total:
  assumes "paced_sends polls"
  shows "\<exists>r. map_option fst (poll (send_body polls guarded) () 0) = Some r"
  by (rule poll_total [OF assms [unfolded paced_sends_def], of OUTPUT_FORWARD_GRACE])
    (auto simp: send_body_def Let_def split: try_send.split)

section \<open>A finished wait has seen the group disappear\<close>

definition seen_gone :: "kill_result \<Rightarrow> bool" where
  "seen_gone r \<longleftrightarrow> process_group_exists r = Inr False"

lemma wait_for_group_gone:
  assumes "wait_for_group_and_exit w timeout = Some (Inr (code, True))"
  shows "\<exists>i. seen_gone (wt_group w i)"
proof -
  from assms obtain k where "poll (group_wait_body w timeout) None 0 = Some (Inr (code, True), k)"
    by (auto simp: wait_for_group_and_exit_def)
  from poll_returned [OF this] obtain s where "group_wait_body w timeout s k = Inr (Inr (code, True))" by blast
  then show ?thesis
    by (auto simp: group_wait_body_def seen_gone_def split: sum.splits if_splits)
qed

lemma wait_group_gone_seen:
  assumes "wait_group_gone probes elapsed = Some (Inr True)"
  shows "\<exists>i. seen_gone (probes i)"
proof -
  from assms obtain k where "poll (group_gone_body probes elapsed) () 0 = Some (Inr True, k)"
    by (auto simp: wait_group_gone_def)
  from poll_returned [OF this] have "group_gone_body probes elapsed () k = Inr (Inr True)" by simp
  then show ?thesis
    by (auto simp: group_gone_body_def seen_gone_def split: sum.splits if_splits)
qed

definition ended_gone :: "watch \<Rightarrow> watch \<Rightarrow> bool" where
  "ended_gone soft hard \<longleftrightarrow> (\<exists>i. seen_gone (wt_group soft i) \<or> seen_gone (wt_group hard i))"

lemma terminate_process_gone:
  assumes "terminate_process soft hard final = Some (Inr code, signals)"
  shows "ended_gone soft hard"
  using assms wait_for_group_gone [of soft] wait_for_group_gone [of hard]
  by (fastforce simp: terminate_process_def ended_gone_def split: option.splits sum.splits prod.splits bool.splits if_splits)

lemma terminate_remaining_group_gone:
  assumes "terminate_remaining_group probe sigterm soft sigkill hard = Some (Inr u)"
  shows "seen_gone probe \<or> ended_gone soft hard"
  using assms wait_group_gone_seen [of "wt_group soft"] wait_group_gone_seen [of "wt_group hard"]
  by (fastforce simp: terminate_remaining_group_def ended_gone_def seen_gone_def
      split: option.splits sum.splits bool.splits)

section \<open>Properties\<close>

definition paced_task :: "task_env \<Rightarrow> bool" where
  "paced_task e \<longleftrightarrow> paced_watch 100 (te_watch e) \<and> paced_watch 25 (te_term e) \<and> paced_watch 25 (te_kill e)"

text \<open>A task that never exits and ignores both signals, and one whose group is gone after \<^verbatim>\<open>SIGKILL\<close>.\<close>

definition stuck_watch :: "nat \<Rightarrow> watch" where
  "stuck_watch d = \<lparr>wt_try_wait = \<lambda>_. Inr None, wt_group = \<lambda>_. None, wt_elapsed = \<lambda>i. i * millis d\<rparr>"

definition gone_watch :: watch where
  "gone_watch = \<lparr>wt_try_wait = \<lambda>_. Inr (Some \<lparr>es_code = None, es_signal = Some 9\<rparr>),
     wt_group = \<lambda>_. Some (OsError ESRCH ''no such process''), wt_elapsed = \<lambda>i. i * millis 25\<rparr>"

definition stuck_task :: task_env where
  "stuck_task = \<lparr>te_watch = stuck_watch 100, te_cancelled = \<lambda>_. False, te_exited_at = \<lambda>i. i,
     te_timed_out_at = 0, te_probe = None, te_sigterm = None, te_term = stuck_watch 25,
     te_sigkill = None, te_kill = stuck_watch 25, te_final = Inr None\<rparr>"

definition cancelled_task :: task_env where
  "cancelled_task = stuck_task\<lparr>te_cancelled := \<lambda>_. True, te_term := gone_watch\<rparr>"

lemma paced_multiples [simp]: "paced d (\<lambda>i. i * e) \<longleftrightarrow> 0 < d \<and> d \<le> e"
  by (auto simp: paced_def)

lemma paced_stuck_task: "paced_task stuck_task"
  by (simp add: paced_task_def paced_watch_def stuck_task_def stuck_watch_def millis_def)

lemma paced_cancelled_task: "paced_task cancelled_task"
  by (simp add: paced_task_def paced_watch_def cancelled_task_def stuck_task_def stuck_watch_def gone_watch_def millis_def)

lemma cancelled_task_run: "wait_with_timeout cancelled_task 1 = Some (Inr WaitCancelled)"
  by (simp add: wait_with_timeout_def cancelled_task_def stuck_task_def stuck_watch_def gone_watch_def
      task_wait_body_def poll.simps terminate_process_def wait_for_group_and_exit_def group_wait_body_def
      process_group_exists_def Let_def)

lemma wait_with_timeout_total:
  assumes "paced_task e"
  shows "wait_with_timeout e timeout_sec \<noteq> None"
  using assms task_wait_total [of 100 "te_watch e" "te_cancelled e" "te_exited_at e" "unat timeout_sec * 1000000000"]
    terminate_process_total [of 25 "te_term e" 25 "te_kill e" "te_final e"]
    terminate_remaining_group_total [of 25 "te_term e" 25 "te_kill e" "te_probe e" "te_sigterm e" "te_sigkill e"]
  by (auto simp: paced_task_def wait_with_timeout_def split: wait_event.split option.split sum.split prod.split)

text \<open>
  C18. Waiting for a task always returns, whatever the task does: with clocks that advance by the
  loops' sleeps, the wait ends after the task's timeout at the latest and ending the process group
  ends after the two grace periods at the latest, even when the group survives every signal.
\<close>

theorem wait_with_timeout_returns:
  assumes "paced_task e"
  shows "\<exists>r. wait_with_timeout e timeout_sec = Some r"
  using wait_with_timeout_total [OF assms] by blast

theorem wait_with_timeout_returns_witness:
  "paced_task stuck_task \<and> (\<exists>r. wait_with_timeout stuck_task 1 = Some r)"
  using paced_stuck_task wait_with_timeout_returns [of stuck_task 1] by blast

lemma task_wait_event:
  assumes "map_option fst (poll (task_wait_body w cancelled exited_at timeout) () 0) = Some ev"
  shows "(ev = TaskCancelled \<longrightarrow> (\<exists>i. cancelled i)) \<and> (ev = TaskTimedOut \<longrightarrow> (\<exists>i. timeout \<le> wt_elapsed w i \<and> wt_try_wait w i = Inr None))
    \<and> (\<forall>status d. ev = TaskExited status d \<longrightarrow> (\<exists>i. wt_try_wait w i = Inr (Some status)))"
proof -
  from assms obtain k where "poll (task_wait_body w cancelled exited_at timeout) () 0 = Some (ev, k)" by auto
  from poll_returned [OF this] have "task_wait_body w cancelled exited_at timeout () k = Inr ev" by simp
  then show ?thesis
    by (auto simp: task_wait_body_def split: sum.splits option.splits if_splits)
qed

text \<open>The evidence behind each outcome of a wait.\<close>

definition outcome_justified :: "task_env \<Rightarrow> u64 \<Rightarrow> wait_outcome \<Rightarrow> bool" where
  "outcome_justified e timeout_sec outcome =
     (case outcome of
        WaitCancelled \<Rightarrow> \<exists>i. te_cancelled e i
      | Exited code True _ \<Rightarrow>
          \<exists>i. unat timeout_sec * 1000000000 \<le> wt_elapsed (te_watch e) i \<and> wt_try_wait (te_watch e) i = Inr None
      | Exited code False _ \<Rightarrow> \<exists>i status. wt_try_wait (te_watch e) i = Inr (Some status) \<and> code = exit_code status)"

text \<open>
  C17. No task leaves processes behind: whenever the wait reports an outcome, a probe of the process
  group has found it gone. The outcome is what was observed: a cancelled wait saw the flag, a timed
  out one saw a running task past the timeout, and any other carries the task's own exit code.
\<close>

theorem wait_with_timeout_outcome:
  assumes "wait_with_timeout e timeout_sec = Some (Inr outcome)"
  shows "(seen_gone (te_probe e) \<or> ended_gone (te_term e) (te_kill e)) \<and> outcome_justified e timeout_sec outcome"
proof -
  let ?wait = "map_option fst (poll (task_wait_body (te_watch e) (te_cancelled e) (te_exited_at e)
    (unat timeout_sec * 1000000000)) () 0)"
  from assms obtain ev where ev: "?wait = Some ev"
    by (auto simp: wait_with_timeout_def split: option.splits)
  note run = assms [unfolded wait_with_timeout_def ev]
  note obs = task_wait_event [OF ev]
  show ?thesis
  proof (cases ev)
    case (TaskExited status duration)
    with run terminate_remaining_group_gone [of "te_probe e" "te_sigterm e" "te_term e" "te_sigkill e" "te_kill e"] obs
    show ?thesis by (auto simp: outcome_justified_def split: option.splits sum.splits) blast+
  next
    case TaskCancelled
    with run terminate_process_gone [of "te_term e" "te_kill e" "te_final e"] obs
    show ?thesis by (auto simp: outcome_justified_def split: option.splits sum.splits prod.splits)
  next
    case TaskTimedOut
    with run terminate_process_gone [of "te_term e" "te_kill e" "te_final e"] obs
    show ?thesis by (auto simp: outcome_justified_def split: option.splits sum.splits prod.splits)
  next
    case (TaskWaitError err)
    with run show ?thesis by simp
  qed
qed

theorem wait_with_timeout_outcome_witness:
  "wait_with_timeout cancelled_task 1 = Some (Inr WaitCancelled)
    \<and> (seen_gone (te_probe cancelled_task) \<or> ended_gone (te_term cancelled_task) (te_kill cancelled_task))
    \<and> outcome_justified cancelled_task 1 WaitCancelled"
  using cancelled_task_run wait_with_timeout_outcome [of cancelled_task 1 WaitCancelled] by blast

definition full_channel :: "nat \<Rightarrow> send_poll" where
  "full_channel i = \<lparr>sp_cancelled = False, sp_send = Full, sp_elapsed = i * millis 10\<rparr>"

lemma send_guarded_outcome:
  assumes "map_option fst (poll (send_guarded_body msg polls) () 0) = Some (r, c)"
  shows "\<exists>i. case r of Inr _ \<Rightarrow> sp_send (polls i) = Sent \<and> \<not> c
    | Inl err \<Rightarrow> be_code err = ''stream_closed'' \<and> (sp_cancelled (polls i) \<or> c)"
proof -
  from assms obtain k where "poll (send_guarded_body msg polls) () 0 = Some ((r, c), k)" by auto
  from poll_returned [OF this] have "send_guarded_body msg polls () k = Inr (r, c)" by simp
  then show ?thesis
    by (intro exI [of _ k]) (auto simp: send_guarded_body_def Let_def be_new_def split: if_splits try_send.splits)
qed

text \<open>
  C38. Handing an event to the client's channel always returns, also when the client stops reading:
  either the channel accepted the event, or the loop reports \<^verbatim>\<open>stream_closed\<close> and the operation's
  cancellation flag was found set or is set now, so the worker behind it is stopped.
\<close>

theorem action_event_delivery_returns:
  assumes "paced_sends polls"
  shows "\<exists>r c i. send_action_response polls = Some (r, c)
    \<and> (case r of Inr _ \<Rightarrow> sp_send (polls i) = Sent \<and> \<not> c
       | Inl err \<Rightarrow> be_code err = ''stream_closed'' \<and> (sp_cancelled (polls i) \<or> c))"
  using send_guarded_total [OF assms, of "''session action cancelled''"] send_guarded_outcome [of _ polls]
  unfolding send_action_response_def by (metis surj_pair)

theorem action_event_delivery_returns_witness:
  "paced_sends full_channel \<and> (\<exists>r c i. send_action_response full_channel = Some (r, c)
    \<and> (case r of Inr _ \<Rightarrow> sp_send (full_channel i) = Sent \<and> \<not> c
       | Inl err \<Rightarrow> be_code err = ''stream_closed'' \<and> (sp_cancelled (full_channel i) \<or> c)))"
proof -
  have "paced_sends full_channel" by (simp add: paced_sends_def full_channel_def millis_def)
  with action_event_delivery_returns [of full_channel] show ?thesis by blast
qed

end
