(* ===== verification/Output_Stream.thy ===== *)
theory Output_Stream
  imports Process
begin

text \<open>
  The two reader threads of a task, \<^verbatim>\<open>stream_output\<close> in \<^verbatim>\<open>src/build.rs\<close>. They share the counter of bytes
  read, the flag that the limit was exceeded and the cancellation flag. A schedule interleaves their
  atomic parts: a read with the accounting that follows it, and the forwarding of a chunk.
\<close>

datatype stream_kind = Stdout | Stderr

datatype reader_pc = Reading | Forwarding string | ReaderDone

record output_state =
  os_bytes :: u64
  os_exceeded :: bool
  os_cancelled :: bool
  os_stdout :: reader_pc
  os_stderr :: reader_pc
  os_forwarded :: "(stream_kind \<times> string) list"











section \<open>The budget\<close>

definition forwarded_bytes :: "output_state \<Rightarrow> nat" where
  "forwarded_bytes st = (\<Sum>(_, chunk) \<leftarrow> os_forwarded st. length chunk)"





lemma forwarded_bytes_simps [simp]:
  "forwarded_bytes (st\<lparr>os_forwarded := evs @ [(kind, chunk)]\<rparr>) = (\<Sum>(_, c) \<leftarrow> evs. length c) + length chunk"
  "forwarded_bytes (st\<lparr>os_bytes := n\<rparr>) = forwarded_bytes st"
  "forwarded_bytes (st\<lparr>os_exceeded := b\<rparr>) = forwarded_bytes st"
  "forwarded_bytes (st\<lparr>os_cancelled := b\<rparr>) = forwarded_bytes st"
  "forwarded_bytes (st\<lparr>os_stdout := pc\<rparr>) = forwarded_bytes st"
  "forwarded_bytes (st\<lparr>os_stderr := pc\<rparr>) = forwarded_bytes st"
  by (simp_all add: forwarded_bytes_def)








end
