(* ===== verification/Artifact_Selection.thy ===== *)
theory Artifact_Selection
  imports Config Posix_Fs
begin

text \<open>
  Choosing the files of an artifact archive, from \<^verbatim>\<open>src/artifacts.rs\<close>: patterns, the pruned walk of the
  workspace, its limits and the restricted patterns. A relative path is the list of its names. The
  glob matcher is a parameter, as a compiler of patterns and a match function; the directory walker
  is given by the tree it walks, in the order it meets the entries.
\<close>

datatype artifact_error =
    GlobMiss string
  | GlobPattern string string
  | OutsideRoot string
  | ArtifactIo string io_error
  | ArtifactZip string
  | InvalidPattern string
  | TransferTooLarge u64
  | UncompressedTooLarge u64
  | TooManyFiles usize
  | TooDeep usize
  | SnapshotCancelled
  | UnsupportedFile string

type_synonym rel_path = "string list"

definition path_text :: "rel_path \<Rightarrow> string" where
  "path_text p = join_with (CHR ''/'') p"

definition INTERNAL_EXCLUDE_PATTERN :: string where
  "INTERNAL_EXCLUDE_PATTERN = ''.indentured-server/**''"

text \<open>The answers to the cancellation checks, in order.\<close>

definition check_cancelled :: "(nat \<Rightarrow> bool) \<Rightarrow> nat \<Rightarrow> (nat, artifact_error) result" where
  "check_cancelled cancelled k = (if cancelled k then Inl SnapshotCancelled else Inr (Suc k))"

section \<open>Patterns\<close>

fun compile_patterns :: "'p pattern_new \<Rightarrow> string \<Rightarrow> string list \<Rightarrow> ('p list, artifact_error) result" where
  "compile_patterns pattern_new field [] = Inr []"
| "compile_patterns pattern_new field (p # ps) =
     and_then (map_err (\<lambda>err. InvalidPattern (show_validation_error err)) (validate_relative_pattern p field)) (\<lambda>_.
     and_then (map_err (GlobPattern p) (pattern_new p)) (\<lambda>c.
     and_then (compile_patterns pattern_new field ps) (\<lambda>cs. Inr (c # cs))))"

definition is_excluded :: "('p \<Rightarrow> string \<Rightarrow> bool) \<Rightarrow> 'p list \<Rightarrow> rel_path \<Rightarrow> bool" where
  "is_excluded matches patterns path =
     (patterns \<noteq> [] \<and> list_ex (\<lambda>p. matches p (from_utf8_lossy (path_text path))) patterns)"

text \<open>The path and the directories above it, below the root.\<close>

definition path_ancestors :: "rel_path \<Rightarrow> rel_path list" where
  "path_ancestors path = filter (\<lambda>p. p \<noteq> []) (rev (prefixes path))"

definition is_included :: "('p \<Rightarrow> string \<Rightarrow> bool) \<Rightarrow> 'p list \<Rightarrow> rel_path \<Rightarrow> bool" where
  "is_included matches patterns path =
     list_ex (\<lambda>p. list_ex (\<lambda>candidate. matches p (from_utf8_lossy (path_text candidate))) (path_ancestors path)) patterns"

section \<open>Prefixes of the walk\<close>

definition is_glob_meta :: "char \<Rightarrow> bool" where
  "is_glob_meta c = (c \<in> set ''*?['')"

fun literal_components :: "path_component list \<Rightarrow> rel_path" where
  "literal_components [] = []"
| "literal_components (CurDir # cs) = literal_components cs"
| "literal_components (Normal part # cs) =
     (if list_ex is_glob_meta part then [] else part # literal_components cs)"
| "literal_components _ = []"

definition minimal_step :: "rel_path list \<Rightarrow> rel_path \<Rightarrow> rel_path list" where
  "minimal_step minimal p = (if list_ex (\<lambda>ancestor. prefix ancestor p) minimal then minimal else minimal @ [p])"

definition artifact_walk_prefixes :: "string list \<Rightarrow> rel_path list" where
  "artifact_walk_prefixes include_patterns =
     foldl minimal_step []
       (sort_key length (map (\<lambda>pattern. literal_components (components pattern)) include_patterns))"

definition keep_entry :: "rel_path list \<Rightarrow> rel_path \<Rightarrow> bool" where
  "keep_entry walk_prefixes rel \<longleftrightarrow>
     rel = [] \<or> list_ex (\<lambda>p. prefix rel p \<or> prefix p rel) walk_prefixes"

section \<open>The walk\<close>

datatype walk_tree = WalkLeaf string | WalkDir string "walk_tree list" | WalkBroken string

datatype walk_item = WalkEntry rel_path bool | WalkError string

text \<open>\<^verbatim>\<open>WalkDir\<close> with \<^verbatim>\<open>filter_entry\<close>: a rejected directory is not entered.\<close>

fun walk_filtered :: "(rel_path \<Rightarrow> bool) \<Rightarrow> rel_path \<Rightarrow> walk_tree \<Rightarrow> walk_item list" where
  "walk_filtered keep at (WalkLeaf name) =
     (if keep (at @ [name]) then [WalkEntry (at @ [name]) False] else [])"
| "walk_filtered keep at (WalkDir name children) =
     (if keep (at @ [name])
      then WalkEntry (at @ [name]) True # concat (map (walk_filtered keep (at @ [name])) children) else [])"
| "walk_filtered keep at (WalkBroken err) = [WalkError err]"

definition walk_root :: "(rel_path \<Rightarrow> bool) \<Rightarrow> walk_tree list \<Rightarrow> walk_item list" where
  "walk_root keep children = WalkEntry [] True # concat (map (walk_filtered keep []) children)"

record artifact_identity =
  fi_device :: u64
  fi_inode :: u64

datatype file_type = RegularFile | Directory | Symlink | SpecialFile

record traversal_limits =
  tl_observed :: "rel_path list"
  tl_max_files :: usize
  tl_max_depth :: usize

definition observe :: "traversal_limits \<Rightarrow> rel_path \<Rightarrow> (traversal_limits, artifact_error) result" where
  "observe t relative =
     (if tl_max_depth t < length relative then Inl (TooDeep (tl_max_depth t))
      else if relative \<in> set (tl_observed t) then Inr t
      else if tl_max_files t \<le> length (tl_observed t) then Inl (TooManyFiles (tl_max_files t))
      else Inr (t\<lparr>tl_observed := relative # tl_observed t\<rparr>))"

definition require_regular_file ::
  "string \<Rightarrow> (rel_path \<Rightarrow> (file_type \<times> artifact_identity, io_error) result) \<Rightarrow> rel_path \<Rightarrow> (artifact_identity, artifact_error) result" where
  "require_regular_file build_root lstat path =
     and_then (map_err (ArtifactIo ''inspect artifact path'') (lstat path)) (\<lambda>(kind, identity).
       if kind \<noteq> RegularFile then Inl (UnsupportedFile (path_join build_root (path_text path))) else Inr identity)"

text \<open>The hash map of matched files, as an association list with distinct keys.\<close>

type_synonym matched_files = "(rel_path \<times> artifact_identity) list"

definition or_insert :: "rel_path \<Rightarrow> artifact_identity \<Rightarrow> matched_files \<Rightarrow> matched_files" where
  "or_insert k v m = (if map_of m k = None then m @ [(k, v)] else m)"

record collect_state =
  co_checks :: nat
  co_traversal :: traversal_limits
  co_matched :: matched_files

definition collect_entry ::
  "string \<Rightarrow> (nat \<Rightarrow> bool) \<Rightarrow> (rel_path \<Rightarrow> (file_type \<times> artifact_identity, io_error) result) \<Rightarrow> ('p \<Rightarrow> string \<Rightarrow> bool)
     \<Rightarrow> 'p list \<Rightarrow> 'p list \<Rightarrow> collect_state \<Rightarrow> walk_item \<Rightarrow> (collect_state, artifact_error) result" where
  "collect_entry build_root cancelled lstat matches excludes includes st item =
     and_then (check_cancelled cancelled (co_checks st)) (\<lambda>k.
     let st = st\<lparr>co_checks := k\<rparr> in
     case item of
       WalkError err \<Rightarrow> Inl (ArtifactIo ''walk artifact root'' (OtherError err))
     | WalkEntry rel is_dir \<Rightarrow>
         if rel = [] then Inr st
         else and_then (observe (co_traversal st) rel) (\<lambda>t.
           let st = st\<lparr>co_traversal := t\<rparr> in
           if is_dir then Inr st
           else if is_excluded matches excludes rel \<or> \<not> is_included matches includes rel then Inr st
           else and_then (require_regular_file build_root lstat rel) (\<lambda>identity.
             Inr (st\<lparr>co_matched := or_insert rel identity (co_matched st)\<rparr>))))"

section \<open>Restricted patterns\<close>

definition restricted_indexes :: "('p \<Rightarrow> string \<Rightarrow> bool) \<Rightarrow> 'p list \<Rightarrow> rel_path \<Rightarrow> nat list" where
  "restricted_indexes matches compiled rel =
     filter (\<lambda>i. matches (compiled ! i) (from_utf8_lossy (path_text rel))) [0..<length compiled]"

definition restrict_scan ::
  "(nat \<Rightarrow> bool) \<Rightarrow> ('p \<Rightarrow> string \<Rightarrow> bool) \<Rightarrow> 'p list \<Rightarrow> nat \<times> rel_path list \<times> nat list \<Rightarrow> rel_path
     \<Rightarrow> (nat \<times> rel_path list \<times> nat list, artifact_error) result" where
  "restrict_scan cancelled matches compiled = (\<lambda>(k, restricted_paths, matched_indexes) rel.
     and_then (check_cancelled cancelled k) (\<lambda>k.
       let hits = restricted_indexes matches compiled rel in
       Inr (k, (if hits = [] then restricted_paths else rel # restricted_paths), hits @ matched_indexes)))"

text \<open>The remaining files, the restrictions to report and the number of checks made so far.\<close>

definition apply_restricted_patterns ::
  "(nat \<Rightarrow> bool) \<Rightarrow> 'p pattern_new \<Rightarrow> ('p \<Rightarrow> string \<Rightarrow> bool) \<Rightarrow> string list \<Rightarrow> string \<Rightarrow> nat \<Rightarrow> matched_files
     \<Rightarrow> (matched_files \<times> artifact_restrictions option \<times> nat, artifact_error) result" where
  "apply_restricted_patterns cancelled pattern_new matches restricted_patterns field k matched =
     (if restricted_patterns = [] \<or> matched = [] then Inr (matched, None, k)
      else and_then (compile_patterns pattern_new field restricted_patterns) (\<lambda>compiled.
        and_then (try_fold (restrict_scan cancelled matches compiled) (k, [], []) (map fst matched))
          (\<lambda>(k, restricted_paths, matched_indexes).
             if restricted_paths = [] then Inr (matched, None, k)
             else Inr (filter (\<lambda>(rel, _). rel \<notin> set restricted_paths) matched,
               Some \<lparr>ar_omitted_count = length restricted_paths,
                 ar_matched_patterns = map (\<lambda>i. restricted_patterns ! i)
                   (filter (\<lambda>i. i \<in> set matched_indexes) [0..<length restricted_patterns])\<rparr>, k))))"

definition select_artifacts ::
  "string \<Rightarrow> (nat \<Rightarrow> bool) \<Rightarrow> 'p pattern_new \<Rightarrow> ('p \<Rightarrow> string \<Rightarrow> bool)
     \<Rightarrow> (rel_path \<Rightarrow> (file_type \<times> artifact_identity, io_error) result) \<Rightarrow> walk_tree list \<Rightarrow> artifact_spec \<Rightarrow> artifacts_config
     \<Rightarrow> nat \<Rightarrow> (matched_files \<times> artifact_restrictions option \<times> nat, artifact_error) result" where
  "select_artifacts build_root cancelled pattern_new matches lstat tree spec config k =
     and_then (compile_patterns pattern_new ''artifacts.exclude'' (as_exclude spec @ [INTERNAL_EXCLUDE_PATTERN])) (\<lambda>excludes.
     and_then (compile_patterns pattern_new ''artifacts.include'' (as_include spec)) (\<lambda>includes.
     and_then (try_fold (collect_entry build_root cancelled lstat matches excludes includes)
         \<lparr>co_checks = k, co_traversal = \<lparr>tl_observed = [], tl_max_files = af_max_files config,
            tl_max_depth = af_max_depth config\<rparr>, co_matched = []\<rparr>
         (walk_root (keep_entry (artifact_walk_prefixes (as_include spec))) tree)) (\<lambda>st.
     apply_restricted_patterns cancelled pattern_new matches (af_restricted_patterns config)
       ''artifacts.restricted_patterns'' (co_checks st) (co_matched st))))"

section \<open>Pruning loses nothing\<close>

lemma compile_patterns_ok:
  assumes "compile_patterns pn field ps = Inr cs"
  shows "cs = map (\<lambda>p. projr (pn p)) ps" and "p \<in> set ps \<Longrightarrow> pn p = Inr (projr (pn p))"
    and "p \<in> set ps \<Longrightarrow> \<not> is_absolute p"
  using assms
  by (induction ps arbitrary: cs) (auto simp: result_simps validate_relative_pattern_def split: if_splits)

text \<open>What is used of the glob matcher: characters before the first wildcard match themselves, and a
  pattern without wildcards matches nothing but itself.\<close>

definition literal_glob :: "'p pattern_new \<Rightarrow> ('p \<Rightarrow> string \<Rightarrow> bool) \<Rightarrow> bool" where
  "literal_glob pn matches \<longleftrightarrow>
     (\<forall>p c s. pn p = Inr c \<longrightarrow> matches c s \<longrightarrow>
        prefix (takeWhile (\<lambda>x. \<not> is_glob_meta x) p) s \<and> (list_all (\<lambda>x. \<not> is_glob_meta x) p \<longrightarrow> s = p))"

text \<open>The names of a real directory tree.\<close>

definition proper_path :: "rel_path \<Rightarrow> bool" where
  "proper_path p \<longleftrightarrow> list_all (\<lambda>n. plain_name n \<and> CHR ''/'' \<notin> set n) p \<and> is_utf8 (path_text p)"

lemma from_utf8_lossy_id: "is_utf8 s \<Longrightarrow> from_utf8_lossy s = s"
proof (induction s rule: from_utf8_lossy.induct)
  case (1 s)
  show ?case
  proof (cases "s = []")
    case True
    then show ?thesis by (simp add: from_utf8_lossy.simps)
  next
    case False
    with "1.prems" have "snd (utf8_step s)" "is_utf8 (drop (fst (utf8_step s)) s)"
      by (simp_all add: is_utf8.simps [of s])
    with False "1.IH" show ?thesis by (subst from_utf8_lossy.simps) simp
  qed
qed

fun literal_parts :: "string list \<Rightarrow> rel_path" where
  "literal_parts [] = []"
| "literal_parts (p # ps) =
     (case parse_component p of
        None \<Rightarrow> literal_parts ps
      | Some (Normal part) \<Rightarrow> if list_ex is_glob_meta part then [] else part # literal_parts ps
      | Some _ \<Rightarrow> [])"

lemma literal_components_parts:
  assumes "\<not> is_absolute pattern"
  shows "literal_components (components pattern) = literal_parts (split_on (CHR ''/'') pattern)"
proof -
  have "literal_components (List.map_filter parse_component ps) = literal_parts ps" for ps
    by (induction ps) (auto simp: List.map_filter_def parse_component_def split: option.splits)
  with assms show ?thesis by (simp add: components_def Let_def)
qed

lemma takeWhile_meta_append:
  assumes "\<not> list_ex is_glob_meta p"
  shows "takeWhile (\<lambda>x. \<not> is_glob_meta x) (p @ CHR ''/'' # s) = p @ CHR ''/'' # takeWhile (\<lambda>x. \<not> is_glob_meta x) s"
  using assms by (induction p) (auto simp: is_glob_meta_def)

lemma sep_inject:
  "a @ d # s = b @ d # t \<Longrightarrow> d \<notin> set a \<Longrightarrow> d \<notin> set b \<Longrightarrow> a = b \<and> s = t"
proof (induction a arbitrary: b)
  case Nil
  then show ?case by (cases b) auto
next
  case (Cons x a)
  then show ?case by (cases b) auto
qed

lemma literal_parts_prefix:
  assumes "prefix (takeWhile (\<lambda>x. \<not> is_glob_meta x) (join_with (CHR ''/'') ps)) (join_with (CHR ''/'') q)"
    and "list_all (\<lambda>x. \<not> is_glob_meta x) (join_with (CHR ''/'') ps) \<longrightarrow> join_with (CHR ''/'') q = join_with (CHR ''/'') ps"
    and "\<forall>p\<in>set ps. CHR ''/'' \<notin> set p" and "\<forall>n\<in>set q. plain_name n \<and> CHR ''/'' \<notin> set n"
    and "ps \<noteq> []" and "q \<noteq> []"
  shows "prefix (literal_parts ps) q"
  using assms
proof (induction ps arbitrary: q)
  case (Cons p ps)
  show ?case
  proof (cases "list_ex is_glob_meta p")
    case True
    then show ?thesis by (auto simp: parse_component_def is_glob_meta_def)
  next
    case False
    note plain = False
    obtain n q' where q: "q = n # q'" using Cons.prems(6) by (cases q) auto
    show ?thesis
    proof (cases ps)
      case Nil
      with Cons.prems(2) plain have "join_with (CHR ''/'') q = p" by (simp add: list_all_iff list_ex_iff)
      with Cons.prems(3,4,6) have "q = [p]" using split_join [of q "CHR ''/''"] split_on_single [of "CHR ''/''" p] by simp
      with Nil show ?thesis by (auto simp: parse_component_def)
    next
      case (Cons r rs)
      then have join: "join_with (CHR ''/'') (p # ps) = p @ CHR ''/'' # join_with (CHR ''/'') ps" by simp
      have pre: "prefix (p @ CHR ''/'' # takeWhile (\<lambda>x. \<not> is_glob_meta x) (join_with (CHR ''/'') ps)) (join_with (CHR ''/'') q)"
        using Cons.prems(1) unfolding join takeWhile_meta_append [OF plain] .
      have "q' \<noteq> []"
      proof
        assume "q' = []"
        with q pre have "CHR ''/'' \<in> set n" by (auto simp: prefix_def)
        with Cons.prems(4) q show False by simp
      qed
      then have jq: "join_with (CHR ''/'') q = n @ CHR ''/'' # join_with (CHR ''/'') q'"
        using q by (cases q') simp_all
      from pre obtain rest where "n @ CHR ''/'' # join_with (CHR ''/'') q'
        = p @ CHR ''/'' # (takeWhile (\<lambda>x. \<not> is_glob_meta x) (join_with (CHR ''/'') ps) @ rest)"
        unfolding jq by (auto simp: prefix_def)
      moreover have "CHR ''/'' \<notin> set n" "CHR ''/'' \<notin> set p" using Cons.prems(3,4) q by auto
      ultimately have eq: "n = p" "join_with (CHR ''/'') q' = takeWhile (\<lambda>x. \<not> is_glob_meta x) (join_with (CHR ''/'') ps) @ rest"
        using sep_inject [of n "CHR ''/''" "join_with (CHR ''/'') q'" p] by simp_all
      have "prefix (literal_parts ps) q'"
      proof (rule Cons.IH)
        show "prefix (takeWhile (\<lambda>x. \<not> is_glob_meta x) (join_with (CHR ''/'') ps)) (join_with (CHR ''/'') q')"
          using eq(2) by simp
        show "list_all (\<lambda>x. \<not> is_glob_meta x) (join_with (CHR ''/'') ps) \<longrightarrow> join_with (CHR ''/'') q' = join_with (CHR ''/'') ps"
          using Cons.prems(2) plain jq eq(1) unfolding join by (auto simp: list_all_iff list_ex_iff is_glob_meta_def)
      qed (use Cons.prems(3,4) q Cons \<open>q' \<noteq> []\<close> in auto)
      moreover have "plain_name p" using Cons.prems(4) q eq(1) by simp
      ultimately show ?thesis using q eq(1) plain by (simp add: parse_component_def plain_name_def)
    qed
  qed
qed simp

lemma literal_match_prefix:
  assumes "literal_glob pn matches" and "pn pattern = Inr c" and "\<not> is_absolute pattern"
    and "proper_path q" and "q \<noteq> []" and "matches c (from_utf8_lossy (path_text q))"
  shows "prefix (literal_components (components pattern)) q"
  unfolding literal_components_parts [OF assms(3)]
proof (rule literal_parts_prefix)
  have "matches c (path_text q)" using assms(4,6) by (simp add: proper_path_def from_utf8_lossy_id)
  with assms(1,2) have m: "prefix (takeWhile (\<lambda>x. \<not> is_glob_meta x) pattern) (path_text q)"
    "list_all (\<lambda>x. \<not> is_glob_meta x) pattern \<longrightarrow> path_text q = pattern"
    unfolding literal_glob_def by blast+
  then show "prefix (takeWhile (\<lambda>x. \<not> is_glob_meta x) (join_with (CHR ''/'') (split_on (CHR ''/'') pattern)))
      (join_with (CHR ''/'') q)"
    and "list_all (\<lambda>x. \<not> is_glob_meta x) (join_with (CHR ''/'') (split_on (CHR ''/'') pattern))
      \<longrightarrow> join_with (CHR ''/'') q = join_with (CHR ''/'') (split_on (CHR ''/'') pattern)"
    by (simp_all add: path_text_def)
qed (use assms(4,5) split_on_no_sep in \<open>auto simp: proper_path_def list_all_iff\<close>)

lemma foldl_minimal_covers:
  "x \<in> set xs \<union> set acc \<Longrightarrow> \<exists>m\<in>set (foldl minimal_step acc xs). prefix m x"
proof (induction xs arbitrary: acc x)
  case Nil
  then show ?case by auto
next
  case (Cons y ys)
  show ?case
  proof (cases "x = y \<and> list_ex (\<lambda>a. prefix a y) acc")
    case True
    then obtain a where a: "a \<in> set acc" "prefix a y" by (auto simp: list_ex_iff)
    from a(1) have "a \<in> set ys \<union> set (minimal_step acc y)" by (simp add: minimal_step_def)
    from Cons.IH [OF this] a(2) True show ?thesis by (auto intro: prefix_order.trans)
  next
    case False
    with Cons.prems have "x \<in> set ys \<union> set (minimal_step acc y)" by (auto simp: minimal_step_def)
    from Cons.IH [OF this] show ?thesis by simp
  qed
qed

lemma walk_prefixes_cover:
  assumes "pattern \<in> set patterns"
  shows "\<exists>m\<in>set (artifact_walk_prefixes patterns). prefix m (literal_components (components pattern))"
  unfolding artifact_walk_prefixes_def by (rule foldl_minimal_covers) (use assms in simp)

lemma included_kept:
  assumes "literal_glob pn matches" and "compile_patterns pn field patterns = Inr includes"
    and "is_included matches includes path" and "\<And>q. prefix q path \<Longrightarrow> proper_path q" and "prefix r path"
  shows "keep_entry (artifact_walk_prefixes patterns) r"
proof -
  from assms(3) obtain c q where c: "c \<in> set includes" and q: "q \<noteq> []" "prefix q path"
    "matches c (from_utf8_lossy (path_text q))"
    by (auto simp: is_included_def path_ancestors_def list_ex_iff)
  from c compile_patterns_ok [OF assms(2)] obtain p where p: "p \<in> set patterns" "pn p = Inr c" by force
  have "\<not> is_absolute p" by (rule compile_patterns_ok(3) [OF assms(2) p(1)])
  from literal_match_prefix [OF assms(1) p(2) this assms(4) [OF q(2)] q(1,3)] walk_prefixes_cover [OF p(1)] q(2)
  obtain m where "m \<in> set (artifact_walk_prefixes patterns)" "prefix m path"
    by (meson prefix_order.trans)
  moreover from this(2) assms(5) have "prefix r m \<or> prefix m r" by (meson prefix_same_cases)
  ultimately show ?thesis by (auto simp: keep_entry_def list_ex_iff)
qed

text \<open>Every entry of a walk lies below its start.\<close>

lemma walk_below: "WalkEntry p d \<in> set (walk_filtered keep at t) \<Longrightarrow> strict_prefix at p"
proof (induction t arbitrary: at)
  case (WalkDir name children)
  have "strict_prefix at (at @ [name])" by (simp add: strict_prefix_def)
  with WalkDir show ?case by (auto split: if_splits intro: prefix_order.less_trans)
qed (auto split: if_splits simp: strict_prefix_def)

definition selected :: "('p \<Rightarrow> string \<Rightarrow> bool) \<Rightarrow> 'p list \<Rightarrow> walk_item \<Rightarrow> bool" where
  "selected matches includes item \<longleftrightarrow> (case item of WalkEntry p d \<Rightarrow> \<not> d \<and> is_included matches includes p | _ \<Rightarrow> False)"

lemma walk_pruned:
  assumes "\<And>p d r. WalkEntry p d \<in> set (walk_filtered (\<lambda>_. True) at t) \<Longrightarrow> sel (WalkEntry p d) \<Longrightarrow> prefix r p \<Longrightarrow> keep r"
    and "\<And>e. \<not> sel (WalkError e)" and "\<And>p. \<not> sel (WalkEntry p True)"
  shows "filter sel (walk_filtered keep at t) = filter sel (walk_filtered (\<lambda>_. True) at t)"
  using assms(1)
proof (induction t arbitrary: at)
  case (WalkLeaf name)
  then show ?case by fastforce
next
  case (WalkDir name children)
  show ?case
  proof (cases "keep (at @ [name])")
    case True
    have "filter sel (walk_filtered keep (at @ [name]) c) = filter sel (walk_filtered (\<lambda>_. True) (at @ [name]) c)"
      if "c \<in> set children" for c
      by (rule WalkDir.IH [OF that]) (use WalkDir.prems that in auto)
    then show ?thesis using True assms(3) by (simp add: filter_concat comp_def cong: map_cong)
  next
    case False
    have "\<not> sel i" if "c \<in> set children" "i \<in> set (walk_filtered (\<lambda>_. True) (at @ [name]) c)" for c i
    proof (cases i)
      case (WalkEntry p d)
      with that(2) have "prefix (at @ [name]) p" using walk_below by (metis prefix_order.less_imp_le)
      moreover have "WalkEntry p d \<in> set (walk_filtered (\<lambda>_. True) at (WalkDir name children))" using that WalkEntry by auto
      ultimately show ?thesis using WalkDir.prems [of p d "at @ [name]"] False WalkEntry by blast
    qed (use assms(2) in simp)
    then show ?thesis using False assms(3) by (auto simp: filter_empty_conv)
  qed
qed (use assms(2) in simp)

lemma walk_prefix_closed:
  "WalkEntry p d \<in> set (walk_filtered (\<lambda>_. True) at t) \<Longrightarrow> prefix q p \<Longrightarrow> strict_prefix at q
    \<Longrightarrow> \<exists>d'. WalkEntry q d' \<in> set (walk_filtered (\<lambda>_. True) at t)"
proof (induction t arbitrary: at)
  case (WalkLeaf name)
  then have "prefix q (at @ [name])" by simp
  with WalkLeaf.prems(3) have "q = at @ [name]" by (auto simp: prefix_snoc strict_prefix_def)
  then show ?case by auto
next
  case (WalkDir name children)
  from WalkDir.prems(1) consider "p = at @ [name]"
    | c where "c \<in> set children" "WalkEntry p d \<in> set (walk_filtered (\<lambda>_. True) (at @ [name]) c)" by auto
  then show ?case
  proof cases
    case 1
    with WalkDir.prems(2,3) have "q = at @ [name]" by (auto simp: prefix_snoc strict_prefix_def)
    then show ?thesis by auto
  next
    case 2
    note below = 2
    from walk_below [OF 2(2)] WalkDir.prems(2) have "prefix (at @ [name]) q \<or> prefix q (at @ [name])"
      by (meson prefix_same_cases prefix_order.less_imp_le)
    then consider "q = at @ [name]" | "strict_prefix (at @ [name]) q"
      using WalkDir.prems(3) by (auto simp: prefix_snoc strict_prefix_def)
    then show ?thesis
    proof cases
      case 2
      with WalkDir.IH [OF below WalkDir.prems(2)] below(1) show ?thesis by auto
    qed auto
  qed
qed simp

lemma walk_root_prefix_closed:
  assumes "WalkEntry p d \<in> set (walk_root (\<lambda>_. True) tree)" and "prefix q p" and "q \<noteq> []"
  shows "\<exists>d'. WalkEntry q d' \<in> set (walk_root (\<lambda>_. True) tree)"
proof -
  have "strict_prefix [] q" using assms(3) by (simp add: strict_prefix_def)
  with assms walk_prefix_closed [of p d "[]" _ q] show ?thesis by (fastforce simp: walk_root_def)
qed

text \<open>The files the patterns select are the same with and without pruning.\<close>

lemma walk_root_pruned:
  assumes "literal_glob pn matches" and "compile_patterns pn field patterns = Inr includes"
    and "\<And>p d. WalkEntry p d \<in> set (walk_root (\<lambda>_. True) tree) \<Longrightarrow> proper_path p"
  shows "filter (selected matches includes) (walk_root (keep_entry (artifact_walk_prefixes patterns)) tree)
    = filter (selected matches includes) (walk_root (\<lambda>_. True) tree)"
proof -
  have "filter (selected matches includes) (walk_filtered (keep_entry (artifact_walk_prefixes patterns)) [] t)
    = filter (selected matches includes) (walk_filtered (\<lambda>_. True) [] t)" if t: "t \<in> set tree" for t
  proof (rule walk_pruned)
    fix p d r
    assume e: "WalkEntry p d \<in> set (walk_filtered (\<lambda>_. True) [] t)" "selected matches includes (WalkEntry p d)" "prefix r p"
    have root: "WalkEntry p d \<in> set (walk_root (\<lambda>_. True) tree)" using e(1) t by (auto simp: walk_root_def)
    have "proper_path q" if "prefix q p" for q
    proof (cases "q = []")
      case True
      then show ?thesis by (simp add: proper_path_def path_text_def is_utf8.simps)
    next
      case False
      from walk_root_prefix_closed [OF root that False] assms(3) show ?thesis by blast
    qed
    with included_kept [OF assms(1,2)] e(2,3) show "keep_entry (artifact_walk_prefixes patterns) r"
      by (auto simp: selected_def)
  qed (simp_all add: selected_def)
  then show ?thesis by (simp add: walk_root_def filter_concat comp_def cong: map_cong)
qed

section \<open>The selection\<close>

definition chosen :: "('p \<Rightarrow> string \<Rightarrow> bool) \<Rightarrow> 'p list \<Rightarrow> 'p list \<Rightarrow> walk_item list \<Rightarrow> rel_path set" where
  "chosen matches excludes includes items =
     {p. WalkEntry p False \<in> set items \<and> is_included matches includes p \<and> \<not> is_excluded matches excludes p}"

lemma is_included_Nil [simp]: "\<not> is_included matches includes []"
  by (simp add: is_included_def path_ancestors_def list_ex_iff)

lemma chosen_entry:
  "chosen matches excludes includes [WalkEntry p d]
    = (if \<not> d \<and> is_included matches includes p \<and> \<not> is_excluded matches excludes p then {p} else {})"
  by (auto simp: chosen_def)

lemma or_insert_keys: "fst ` set (or_insert k v m) = insert k (fst ` set m)"
  by (auto simp: or_insert_def map_of_eq_None_iff)

lemma or_insert_distinct: "distinct (map fst m) \<Longrightarrow> distinct (map fst (or_insert k v m))"
  by (auto simp: or_insert_def map_of_eq_None_iff)

definition within_limits :: "collect_state \<Rightarrow> bool" where
  "within_limits st \<longleftrightarrow> distinct (map fst (co_matched st)) \<and> distinct (tl_observed (co_traversal st))
     \<and> fst ` set (co_matched st) \<subseteq> set (tl_observed (co_traversal st))
     \<and> length (tl_observed (co_traversal st)) \<le> tl_max_files (co_traversal st)
     \<and> (\<forall>p\<in>set (tl_observed (co_traversal st)). length p \<le> tl_max_depth (co_traversal st))"

lemma within_limits_length:
  assumes "within_limits st"
  shows "length (co_matched st) \<le> tl_max_files (co_traversal st)"
proof -
  have "card (fst ` set (co_matched st)) \<le> card (set (tl_observed (co_traversal st)))"
    using assms by (intro card_mono) (simp_all add: within_limits_def)
  moreover have "card (fst ` set (co_matched st)) = length (co_matched st)"
    using assms distinct_card [of "map fst (co_matched st)"] by (simp add: within_limits_def)
  moreover have "card (set (tl_observed (co_traversal st))) = length (tl_observed (co_traversal st))"
    using assms by (intro distinct_card) (simp add: within_limits_def)
  ultimately show ?thesis using assms by (simp add: within_limits_def)
qed

lemma observe_ok:
  assumes "observe t p = Inr t'"
  shows "p \<in> set (tl_observed t')" "set (tl_observed t) \<subseteq> set (tl_observed t')"
    "tl_max_files t' = tl_max_files t" "tl_max_depth t' = tl_max_depth t"
    "distinct (tl_observed t) \<Longrightarrow> distinct (tl_observed t')"
    "length (tl_observed t) \<le> tl_max_files t \<Longrightarrow> length (tl_observed t') \<le> tl_max_files t"
    "\<forall>q\<in>set (tl_observed t). length q \<le> tl_max_depth t \<Longrightarrow> \<forall>q\<in>set (tl_observed t'). length q \<le> tl_max_depth t"
  using assms by (auto simp: observe_def split: if_splits)

lemma collect_entry_ok:
  assumes "collect_entry root cancelled lstat matches excludes includes st item = Inr st'" and "within_limits st"
  shows "within_limits st' \<and> fst ` set (co_matched st') = fst ` set (co_matched st) \<union> chosen matches excludes includes [item]
    \<and> tl_max_files (co_traversal st') = tl_max_files (co_traversal st)
    \<and> tl_max_depth (co_traversal st') = tl_max_depth (co_traversal st)"
proof (cases item)
  case (WalkError err)
  with assms(1) show ?thesis by (simp add: collect_entry_def Let_def result_simps)
next
  case (WalkEntry rel is_dir)
  show ?thesis
  proof (cases "rel = []")
    case True
    with assms(1) WalkEntry obtain k where "st' = st\<lparr>co_checks := k\<rparr>"
      by (auto simp: collect_entry_def Let_def result_simps)
    with assms(2) WalkEntry True show ?thesis by (simp add: chosen_entry within_limits_def)
  next
    case False
    from assms(1) obtain k where k: "check_cancelled cancelled (co_checks st) = Inr k"
      by (auto simp: collect_entry_def result_simps)
    from assms(1) WalkEntry False k obtain t where t: "observe (co_traversal st) rel = Inr t"
      by (cases "observe (co_traversal st) rel") (simp_all add: collect_entry_def Let_def)
    have rest: "(if is_dir \<or> is_excluded matches excludes rel \<or> \<not> is_included matches includes rel
          then Inr (st\<lparr>co_checks := k, co_traversal := t\<rparr>)
          else and_then (require_regular_file root lstat rel) (\<lambda>identity.
            Inr (st\<lparr>co_checks := k, co_traversal := t, co_matched := or_insert rel identity (co_matched st)\<rparr>))) = Inr st'"
      using assms(1) WalkEntry False k t by (auto simp: collect_entry_def Let_def split: if_splits)
    note o = observe_ok [OF t]
    have lim: "distinct (map fst (co_matched st))" "distinct (tl_observed t)"
      "fst ` set (co_matched st) \<subseteq> set (tl_observed t)" "length (tl_observed t) \<le> tl_max_files t"
      "\<forall>p\<in>set (tl_observed t). length p \<le> tl_max_depth t"
      using assms(2) o unfolding within_limits_def by auto
    show ?thesis
    proof (cases "is_dir \<or> is_excluded matches excludes rel \<or> \<not> is_included matches includes rel")
      case True
      with rest have "st' = st\<lparr>co_checks := k, co_traversal := t\<rparr>" by auto
      moreover have "chosen matches excludes includes [item] = {}" using True WalkEntry by (auto simp: chosen_entry)
      ultimately show ?thesis using lim o(3,4) by (simp add: within_limits_def)
    next
      case False
      with rest obtain v where "st' = st\<lparr>co_checks := k, co_traversal := t, co_matched := or_insert rel v (co_matched st)\<rparr>"
        by (auto simp: result_simps)
      moreover have "chosen matches excludes includes [item] = {rel}" using False WalkEntry by (simp add: chosen_entry)
      ultimately show ?thesis using lim o(1,3,4) by (simp add: within_limits_def or_insert_keys or_insert_distinct)
    qed
  qed
qed

lemma collect_fold_ok:
  assumes "try_fold (collect_entry root cancelled lstat matches excludes includes) st items = Inr st'" and "within_limits st"
  shows "within_limits st' \<and> fst ` set (co_matched st') = fst ` set (co_matched st) \<union> chosen matches excludes includes items
    \<and> tl_max_files (co_traversal st') = tl_max_files (co_traversal st)
    \<and> tl_max_depth (co_traversal st') = tl_max_depth (co_traversal st)"
  using assms
proof (induction items arbitrary: st)
  case Nil
  then show ?case by (simp add: chosen_def)
next
  case (Cons i items)
  from Cons.prems(1) obtain s where s: "collect_entry root cancelled lstat matches excludes includes st i = Inr s"
    "try_fold (collect_entry root cancelled lstat matches excludes includes) s items = Inr st'"
    by (auto simp: result_simps)
  note c = collect_entry_ok [OF s(1) Cons.prems(2)]
  with Cons.IH [OF s(2)] have "within_limits st'"
    "fst ` set (co_matched st') = fst ` set (co_matched s) \<union> chosen matches excludes includes items"
    "tl_max_files (co_traversal st') = tl_max_files (co_traversal s)"
    "tl_max_depth (co_traversal st') = tl_max_depth (co_traversal s)" by blast+
  with c show ?case by (auto simp: chosen_def)
qed

lemma restrict_scan_fold:
  assumes "try_fold (restrict_scan cancelled matches compiled) (k, rs, hits) ps = Inr (k', rs', hits')"
  shows "rs' = rev (filter (\<lambda>p. restricted_indexes matches compiled p \<noteq> []) ps) @ rs
    \<and> set hits' = set hits \<union> (\<Union>p\<in>set ps. set (restricted_indexes matches compiled p))"
  using assms
proof (induction ps arbitrary: k rs hits)
  case (Cons p ps)
  from Cons.prems obtain k1 where
    "try_fold (restrict_scan cancelled matches compiled) (k1, (if restricted_indexes matches compiled p = [] then rs else p # rs),
       restricted_indexes matches compiled p @ hits) ps = Inr (k', rs', hits')"
    by (auto simp: result_simps restrict_scan_def Let_def)
  from Cons.IH [OF this] show ?case by (auto split: if_splits)
qed simp

text \<open>What is kept and what is reported.\<close>

lemma apply_restricted_ok:
  assumes "apply_restricted_patterns cancelled pn matches patterns field k matched = Inr (kept, restrictions, k')"
    and "distinct (map fst matched)"
  shows "\<exists>compiled. (patterns \<noteq> [] \<and> matched \<noteq> [] \<longrightarrow> compile_patterns pn field patterns = Inr compiled)
    \<and> (patterns = [] \<longrightarrow> compiled = [])
    \<and> kept = filter (\<lambda>(p, _). restricted_indexes matches compiled p = []) matched
    \<and> (case restrictions of None \<Rightarrow> kept = matched
       | Some r \<Rightarrow> ar_omitted_count r = length matched - length kept \<and> kept \<noteq> matched)"
proof (cases "patterns = [] \<or> matched = []")
  case True
  with assms(1) have "kept = matched" "restrictions = None" by (auto simp: apply_restricted_patterns_def)
  with True show ?thesis by (intro exI [of _ "[]"]) (auto simp: restricted_indexes_def)
next
  case False
  with assms(1) obtain compiled k1 rs hits where c: "compile_patterns pn field patterns = Inr compiled"
    "try_fold (restrict_scan cancelled matches compiled) (k, [], []) (map fst matched) = Inr (k1, rs, hits)"
    and fin: "(if rs = [] then Inr (matched, None, k1)
      else Inr (filter (\<lambda>(rel, _). rel \<notin> set rs) matched,
               Some \<lparr>ar_omitted_count = length rs,
                 ar_matched_patterns = map (\<lambda>i. patterns ! i) (filter (\<lambda>i. i \<in> set hits) [0..<length patterns])\<rparr>, k1))
      = (Inr (kept, restrictions, k') :: (_, artifact_error) result)"
    by (auto simp: apply_restricted_patterns_def result_simps)
  let ?bad = "\<lambda>p. restricted_indexes matches compiled p \<noteq> []"
  have rs: "rs = rev (filter ?bad (map fst matched))" using restrict_scan_fold [OF c(2)] by simp
  have in_rs: "fst x \<in> set rs \<longleftrightarrow> ?bad (fst x)" if "x \<in> set matched" for x using rs that by auto
  have eq: "filter (\<lambda>(rel, _). rel \<notin> set rs) matched = filter (\<lambda>(p, _). \<not> ?bad p) matched"
    by (rule filter_cong) (use in_rs in auto)
  have len: "length (filter (\<lambda>(p, _). \<not> ?bad p) matched) + length rs = length matched"
    using sum_length_filter_compl [of "\<lambda>x. ?bad (fst x)" matched]
    by (simp add: rs filter_map comp_def case_prod_unfold add.commute)
  show ?thesis
  proof (cases "rs = []")
    case True
    with fin eq have "kept = matched" "restrictions = None" "filter (\<lambda>(p, _). \<not> ?bad p) matched = matched"
      by (auto simp: case_prod_beta)
    with False c(1) show ?thesis by (intro exI [of _ compiled]) simp
  next
    case rne: False
    with fin eq have k: "kept = filter (\<lambda>(p, _). \<not> ?bad p) matched"
      "restrictions = Some \<lparr>ar_omitted_count = length rs, ar_matched_patterns = map (\<lambda>i. patterns ! i)
         (filter (\<lambda>i. i \<in> set hits) [0..<length patterns])\<rparr>" by auto
    moreover have "length kept < length matched" using len rne k(1) by (cases rs) auto
    ultimately show ?thesis using False c(1) len by (intro exI [of _ compiled]) auto
  qed
qed

text \<open>The files an archive should hold, by the patterns and the whole tree.\<close>

definition eligible ::
  "'p pattern_new \<Rightarrow> ('p \<Rightarrow> string \<Rightarrow> bool) \<Rightarrow> walk_tree list \<Rightarrow> artifact_spec \<Rightarrow> rel_path set" where
  "eligible pn matches tree spec =
     {p. WalkEntry p False \<in> set (walk_root (\<lambda>_. True) tree)
       \<and> is_included matches (map (\<lambda>p. projr (pn p)) (as_include spec)) p
       \<and> \<not> is_excluded matches (map (\<lambda>p. projr (pn p)) (as_exclude spec @ [INTERNAL_EXCLUDE_PATTERN])) p}"

definition restricted ::
  "'p pattern_new \<Rightarrow> ('p \<Rightarrow> string \<Rightarrow> bool) \<Rightarrow> artifacts_config \<Rightarrow> rel_path \<Rightarrow> bool" where
  "restricted pn matches config p \<longleftrightarrow>
     list_ex (\<lambda>c. matches c (from_utf8_lossy (path_text p))) (map (\<lambda>p. projr (pn p)) (af_restricted_patterns config))"

lemma restricted_indexes_empty:
  "restricted_indexes matches compiled p = [] \<longleftrightarrow> \<not> list_ex (\<lambda>c. matches c (from_utf8_lossy (path_text p))) compiled"
  unfolding restricted_indexes_def filter_empty_conv list_ex_iff by (auto simp: in_set_conv_nth) (metis nth_mem)

lemma chosen_pruned:
  assumes "filter (selected matches includes) items = filter (selected matches includes) items'"
  shows "chosen matches excludes includes items = chosen matches excludes includes items'"
proof -
  have "chosen matches excludes includes xs = {p. WalkEntry p False \<in> set (filter (selected matches includes) xs)
    \<and> \<not> is_excluded matches excludes p}" for xs by (auto simp: chosen_def selected_def)
  from this [of items] this [of items'] assms show ?thesis by (simp only:)
qed

lemma selection_exact:
  assumes "literal_glob pn matches"
    and "\<And>p d. WalkEntry p d \<in> set (walk_root (\<lambda>_. True) tree) \<Longrightarrow> proper_path p"
    and "select_artifacts root cancelled pn matches lstat tree spec config k = Inr (kept, restrictions, k')"
  shows "fst ` set kept = {p \<in> eligible pn matches tree spec. \<not> restricted pn matches config p}
    \<and> length kept \<le> af_max_files config \<and> (\<forall>p\<in>fst ` set kept. length p \<le> af_max_depth config)
    \<and> (case restrictions of
         None \<Rightarrow> \<not> (\<exists>p\<in>eligible pn matches tree spec. restricted pn matches config p)
       | Some r \<Rightarrow> 0 < ar_omitted_count r
           \<and> ar_omitted_count r = card {p \<in> eligible pn matches tree spec. restricted pn matches config p})"
proof -
  let ?st0 = "\<lparr>co_checks = k, co_traversal = \<lparr>tl_observed = [], tl_max_files = af_max_files config,
            tl_max_depth = af_max_depth config\<rparr>, co_matched = []\<rparr>"
  from assms(3) obtain excs incs st where
    e: "compile_patterns pn ''artifacts.exclude'' (as_exclude spec @ [INTERNAL_EXCLUDE_PATTERN]) = Inr excs"
    and i: "compile_patterns pn ''artifacts.include'' (as_include spec) = Inr incs"
    and st: "try_fold (collect_entry root cancelled lstat matches excs incs) ?st0
         (walk_root (keep_entry (artifact_walk_prefixes (as_include spec))) tree) = Inr st"
    and r: "apply_restricted_patterns cancelled pn matches (af_restricted_patterns config)
       ''artifacts.restricted_patterns'' (co_checks st) (co_matched st) = Inr (kept, restrictions, k')"
    unfolding select_artifacts_def by (auto simp: result_simps)
  have "within_limits ?st0" by (simp add: within_limits_def)
  note col = collect_fold_ok [OF st this]
  let ?all = "fst ` set (co_matched st)"
  have all: "?all = eligible pn matches tree spec"
  proof -
    have "?all = chosen matches excs incs (walk_root (\<lambda>_. True) tree)"
      using col chosen_pruned [OF walk_root_pruned [OF assms(1) i assms(2)]] by simp
    then show ?thesis
      using compile_patterns_ok(1) [OF e] compile_patterns_ok(1) [OF i] by (simp add: chosen_def eligible_def)
  qed
  have dist: "distinct (map fst (co_matched st))" using col by (simp add: within_limits_def)
  from apply_restricted_ok [OF r dist] obtain compiled where
    c: "af_restricted_patterns config \<noteq> [] \<and> co_matched st \<noteq> []
        \<longrightarrow> compile_patterns pn ''artifacts.restricted_patterns'' (af_restricted_patterns config) = Inr compiled"
      "af_restricted_patterns config = [] \<longrightarrow> compiled = []"
      "kept = filter (\<lambda>(p, _). restricted_indexes matches compiled p = []) (co_matched st)"
      "case restrictions of None \<Rightarrow> kept = co_matched st
       | Some r \<Rightarrow> ar_omitted_count r = length (co_matched st) - length kept \<and> kept \<noteq> co_matched st" by blast
  have res: "restricted_indexes matches compiled (fst x) = [] \<longleftrightarrow> \<not> restricted pn matches config (fst x)"
    if "x \<in> set (co_matched st)" for x
  proof -
    from that have "co_matched st \<noteq> []" by auto
    with c(1,2) have "compiled = map (\<lambda>p. projr (pn p)) (af_restricted_patterns config)"
      using compile_patterns_ok(1) [of pn "''artifacts.restricted_patterns''" "af_restricted_patterns config" compiled]
      by (cases "af_restricted_patterns config = []") simp_all
    then show ?thesis by (simp add: restricted_indexes_empty restricted_def)
  qed
  have kept: "kept = filter (\<lambda>x. \<not> restricted pn matches config (fst x)) (co_matched st)"
    unfolding c(3) case_prod_unfold by (rule filter_cong [OF refl res])
  have omitted: "length (co_matched st) - length kept = card {p \<in> ?all. restricted pn matches config p}"
  proof -
    have "length (co_matched st) - length kept = length (filter (\<lambda>x. restricted pn matches config (fst x)) (co_matched st))"
      using sum_length_filter_compl [of "\<lambda>x. restricted pn matches config (fst x)" "co_matched st"] kept by simp
    also have "\<dots> = length (filter (restricted pn matches config) (map fst (co_matched st)))"
      by (simp add: filter_map comp_def)
    also have "\<dots> = card (set (filter (restricted pn matches config) (map fst (co_matched st))))"
      by (rule distinct_card [symmetric]) (use dist in simp)
    also have "set (filter (restricted pn matches config) (map fst (co_matched st))) = {p \<in> ?all. restricted pn matches config p}"
      by auto
    finally show ?thesis .
  qed
  show ?thesis
  proof (intro conjI)
    show "fst ` set kept = {p \<in> eligible pn matches tree spec. \<not> restricted pn matches config p}"
      using kept all by force
    have "length kept \<le> length (co_matched st)" by (simp add: kept)
    also have "\<dots> \<le> tl_max_files (co_traversal st)" using col within_limits_length by blast
    finally show "length kept \<le> af_max_files config" using col by simp
    show "\<forall>p\<in>fst ` set kept. length p \<le> af_max_depth config"
      using col kept by (auto simp: within_limits_def)
    show "case restrictions of None \<Rightarrow> \<not> (\<exists>p\<in>eligible pn matches tree spec. restricted pn matches config p)
       | Some r \<Rightarrow> 0 < ar_omitted_count r
           \<and> ar_omitted_count r = card {p \<in> eligible pn matches tree spec. restricted pn matches config p}"
    proof (cases restrictions)
      case None
      with c(4) have "kept = co_matched st" by simp
      with kept have "\<forall>x\<in>set (co_matched st). \<not> restricted pn matches config (fst x)"
        using filter_id_conv [of "\<lambda>x. \<not> restricted pn matches config (fst x)" "co_matched st"] by simp
      then have "\<forall>p\<in>?all. \<not> restricted pn matches config p" by blast
      with None all show ?thesis by simp
    next
      case (Some r)
      with c(4) omitted all have "ar_omitted_count r = card {p \<in> eligible pn matches tree spec. restricted pn matches config p}"
        "kept \<noteq> co_matched st" "ar_omitted_count r = length (co_matched st) - length kept" by auto
      moreover have "length kept < length (co_matched st)"
        using kept \<open>kept \<noteq> co_matched st\<close> filter_id_conv [of "\<lambda>x. \<not> restricted pn matches config (fst x)" "co_matched st"]
          length_filter_less [of _ "co_matched st" "\<lambda>x. \<not> restricted pn matches config (fst x)"] by blast
      ultimately show ?thesis using Some by simp
    qed
  qed
qed

text \<open>
  C13. An artifact selection that succeeds is exact although the walk is pruned: it holds exactly the
  files of the whole workspace that an include pattern selects, by itself or by a directory above,
  that no exclude pattern, the internal one included, and no restricted pattern selects. It respects
  the limits on number and depth, and the reported count is the number of files left out as
  restricted. The hypotheses say what is used of the glob matcher and that names are UTF-8.
\<close>

theorem select_artifacts_exact:
  assumes "literal_glob pn matches"
    and "\<forall>p d. WalkEntry p d \<in> set (walk_root (\<lambda>_. True) tree) \<longrightarrow> proper_path p"
    and "select_artifacts root cancelled pn matches lstat tree spec config k = Inr (kept, restrictions, k')"
  shows "fst ` set kept = {p \<in> eligible pn matches tree spec. \<not> restricted pn matches config p}
    \<and> length kept \<le> af_max_files config \<and> (\<forall>p\<in>fst ` set kept. length p \<le> af_max_depth config)
    \<and> (case restrictions of
         None \<Rightarrow> \<not> (\<exists>p\<in>eligible pn matches tree spec. restricted pn matches config p)
       | Some r \<Rightarrow> 0 < ar_omitted_count r
           \<and> ar_omitted_count r = card {p \<in> eligible pn matches tree spec. restricted pn matches config p})"
  by (rule selection_exact [OF assms(1) _ assms(3)]) (use assms(2) in blast)

section \<open>A sample workspace\<close>

text \<open>A matcher for patterns whose only wildcard is a star at the end.\<close>

definition star_matches :: "string \<Rightarrow> string \<Rightarrow> bool" where
  "star_matches p s = (if list_ex is_glob_meta p then prefix (takeWhile (\<lambda>x. \<not> is_glob_meta x) p) s else s = p)"

definition sample_tree :: "walk_tree list" where
  "sample_tree = [WalkDir ''out'' [WalkLeaf ''a'', WalkLeaf ''k'', WalkDir ''s'' [WalkLeaf ''b'']],
     WalkDir ''deps'' [WalkLeaf ''c'', WalkBroken ''denied'']]"

definition sample_spec :: artifact_spec where
  "sample_spec = \<lparr>as_include = [''out''], as_exclude = [''out/s*'']\<rparr>"

definition sample_artifacts :: artifacts_config where
  "sample_artifacts = default_artifacts\<lparr>af_restricted_patterns := [''out/k''], af_max_files := 5, af_max_depth := 3\<rparr>"

definition sample_lstat :: "rel_path \<Rightarrow> (file_type \<times> artifact_identity, io_error) result" where
  "sample_lstat p = Inr (RegularFile, \<lparr>fi_device = 1, fi_inode = of_nat (length (path_text p))\<rparr>)"

lemma literal_star: "literal_glob Inr star_matches"
  by (auto simp: literal_glob_def star_matches_def list_all_iff list_ex_iff takeWhile_is_prefix)

lemma sample_tree_proper: "\<forall>p d. WalkEntry p d \<in> set (walk_root (\<lambda>_. True) sample_tree) \<longrightarrow> proper_path p"
  by (auto simp: sample_tree_def walk_root_def proper_path_def plain_name_def path_text_def intro!: ascii_is_utf8)
    (simp_all add: is_ascii_def)

lemma sample_selection:
  "select_artifacts ''/w'' (\<lambda>_. False) Inr star_matches sample_lstat sample_tree sample_spec sample_artifacts 0
    = Inr ([([''out'', ''a''], \<lparr>fi_device = 1, fi_inode = 5\<rparr>)],
        Some \<lparr>ar_omitted_count = 1, ar_matched_patterns = [''out/k'']\<rparr>, 8)"
  by code_simp

theorem select_artifacts_exact_witness:
  "select_artifacts ''/w'' (\<lambda>_. False) Inr star_matches sample_lstat sample_tree sample_spec sample_artifacts 0
    = Inr ([([''out'', ''a''], \<lparr>fi_device = 1, fi_inode = 5\<rparr>)],
        Some \<lparr>ar_omitted_count = 1, ar_matched_patterns = [''out/k'']\<rparr>, 8)
   \<and> {p \<in> eligible Inr star_matches sample_tree sample_spec. \<not> restricted Inr star_matches sample_artifacts p} = {[''out'', ''a'']}"
  using select_artifacts_exact [OF literal_star sample_tree_proper sample_selection] sample_selection by simp

end
