(* ===== verification/Artifact_Gc.thy ===== *)
theory Artifact_Gc
  imports Artifact_Selection "HOL-Library.Multiset"
begin

text \<open>
  The artifact store and its garbage collection, from \<^verbatim>\<open>src/artifacts.rs\<close>. Times are nanoseconds since
  the Unix epoch. The operating system's answers are arguments: metadata, directory listings with the
  walk below each entry, and which removals succeed.
\<close>

definition DEFAULT_GC_INTERVAL_SECS :: u64 where "DEFAULT_GC_INTERVAL_SECS = 3600"

record root_meta =
  rm_type :: file_type
  rm_uid :: u32
  rm_mode :: u32

definition prepare_artifact_storage_root ::
  "(unit, io_error) result \<Rightarrow> (root_meta, io_error) result \<Rightarrow> (unit, io_error) result \<Rightarrow> u32 \<Rightarrow> (unit, artifact_error) result" where
  "prepare_artifact_storage_root create lstat chmod euid =
     and_then (map_err (ArtifactIo ''create artifacts root'') create) (\<lambda>_.
     and_then (map_err (ArtifactIo ''inspect artifacts root'') lstat) (\<lambda>metadata.
     if rm_type metadata \<noteq> Directory \<or> rm_uid metadata \<noteq> euid
     then Inl (ArtifactIo ''validate artifacts root ownership''
       (OtherError ''artifact storage root must be a daemon-owned real directory''))
     else map_err (ArtifactIo ''protect artifacts root'') chmod))"

definition validate_gc_root :: "(root_meta, io_error) result \<Rightarrow> u32 \<Rightarrow> (unit, artifact_error) result" where
  "validate_gc_root lstat euid =
     and_then (map_err (ArtifactIo ''inspect artifact gc root'') lstat) (\<lambda>metadata.
     if rm_type metadata \<noteq> Directory \<or> rm_uid metadata \<noteq> euid \<or> rm_mode metadata AND 0x1FF \<noteq> 0x1C0
     then Inl (ArtifactIo ''validate artifact gc root protection''
       (OtherError ''artifact gc root must be a daemon-owned, mode-0700 real directory''))
     else Inr ())"

text \<open>Whether a collector runs, and with which pause.\<close>

definition spawn_gc_task :: "(root_meta, io_error) result \<Rightarrow> u32 \<Rightarrow> artifacts_config \<Rightarrow> (u64 option, artifact_error) result" where
  "spawn_gc_task lstat euid config =
     and_then (validate_gc_root lstat euid) (\<lambda>_.
       if af_ttl_sec config = None \<and> af_max_bytes config = None then Inr None
       else Inr (Some (case af_gc_interval_sec config of Some i \<Rightarrow> i | None \<Rightarrow> DEFAULT_GC_INTERVAL_SECS)))"

section \<open>Scanning\<close>

text \<open>What the walk of an entry meets; a modification time may be unavailable.\<close>

record walked_file =
  wf_is_file :: bool
  wf_metadata :: "(u64 \<times> int option, string) result"

definition scan_file :: "u64 \<times> int \<Rightarrow> (walked_file, string) result \<Rightarrow> (u64 \<times> int, artifact_error) result" where
  "scan_file acc item = (case acc of (bytes, newest) \<Rightarrow>
     and_then (map_err (\<lambda>m. ArtifactIo ''walk artifacts'' (OtherError m)) item) (\<lambda>f.
     if \<not> wf_is_file f then Inr (bytes, newest)
     else and_then (map_err (\<lambda>m. ArtifactIo ''stat artifacts'' (OtherError m)) (wf_metadata f)) (\<lambda>(len, modified).
       Inr (saturating_add bytes len,
         (case modified of Some m \<Rightarrow> if newest < m then m else newest | None \<Rightarrow> newest)))))"

definition scan_entry :: "(walked_file, string) result list \<Rightarrow> (u64 \<times> int, artifact_error) result" where
  "scan_entry items = try_fold scan_file (0, 0) items"

record artifact_entry =
  ae_path :: string
  ae_size :: u64
  ae_modified :: int

record store_entry =
  se_path :: string
  se_is_dir :: "(bool, io_error) result"
  se_walk :: "(walked_file, string) result list"

definition scan_store_entry ::
  "artifact_entry list \<Rightarrow> (store_entry, io_error) result \<Rightarrow> (artifact_entry list, artifact_error) result" where
  "scan_store_entry found item =
     and_then (map_err (ArtifactIo ''read artifacts entry'') item) (\<lambda>e.
     and_then (map_err (ArtifactIo ''stat artifacts entry'') (se_is_dir e)) (\<lambda>is_dir.
     if \<not> is_dir then Inr found
     else and_then (scan_entry (se_walk e)) (\<lambda>(bytes, modified).
       Inr (found @ [\<lparr>ae_path = se_path e, ae_size = bytes, ae_modified = modified\<rparr>]))))"

definition scan_artifact_entries ::
  "((store_entry, io_error) result list, io_error) result \<Rightarrow> (artifact_entry list, artifact_error) result" where
  "scan_artifact_entries read_dir =
     (case read_dir of
        Inl err \<Rightarrow> if raw_os_error err = Some ENOENT then Inr [] else Inl (ArtifactIo ''read artifacts root'' err)
      | Inr items \<Rightarrow> try_fold scan_store_entry [] items)"

section \<open>Collecting\<close>

definition SYSTEM_TIME_MIN :: int where "SYSTEM_TIME_MIN = - (2 ^ 63) * 1000000000"

definition cutoff :: "int \<Rightarrow> u64 \<Rightarrow> int" where
  "cutoff now ttl_sec =
     (let t = now - int (unat ttl_sec) * 1000000000 in if SYSTEM_TIME_MIN \<le> t then t else 0)"

text \<open>The entries that stay, and the paths removed.\<close>

fun expire :: "(string \<Rightarrow> bool) \<Rightarrow> int \<Rightarrow> artifact_entry list \<Rightarrow> artifact_entry list \<times> string list" where
  "expire removable limit [] = ([], [])"
| "expire removable limit (e # es) =
     (let (kept, removed) = expire removable limit es in
      if ae_modified e < limit \<and> removable (ae_path e) then (kept, ae_path e # removed) else (e # kept, removed))"

fun shrink :: "(string \<Rightarrow> bool) \<Rightarrow> u64 \<Rightarrow> u64 \<Rightarrow> artifact_entry list \<Rightarrow> artifact_entry list \<times> string list" where
  "shrink removable max_bytes t [] = ([], [])"
| "shrink removable max_bytes t (e # es) =
     (if t \<le> max_bytes then (e # es, [])
      else if \<not> removable (ae_path e)
      then (let (kept, removed) = shrink removable max_bytes t es in (e # kept, removed))
      else (let (kept, removed) = shrink removable max_bytes (saturating_sub t (ae_size e)) es in (kept, ae_path e # removed)))"

definition total_size :: "artifact_entry list \<Rightarrow> u64" where
  "total_size es = sum_list (map ae_size es)"

definition gc_artifacts ::
  "(root_meta, io_error) result \<Rightarrow> u32 \<Rightarrow> ((store_entry, io_error) result list, io_error) result \<Rightarrow> int
     \<Rightarrow> (string \<Rightarrow> bool) \<Rightarrow> artifacts_config \<Rightarrow> (artifact_entry list \<times> string list, artifact_error) result" where
  "gc_artifacts lstat euid read_dir now removable config =
     and_then (validate_gc_root lstat euid) (\<lambda>_.
     and_then (scan_artifact_entries read_dir) (\<lambda>found.
     if found = [] then Inr ([], [])
     else
       let (live, expired) = (case af_ttl_sec config of
             None \<Rightarrow> (found, [])
           | Some ttl_sec \<Rightarrow> expire removable (cutoff now ttl_sec) found) in
       Inr (case af_max_bytes config of
           None \<Rightarrow> (live, expired)
         | Some max_bytes \<Rightarrow>
             if total_size live \<le> max_bytes then (live, expired)
             else (let (kept, removed) = shrink removable max_bytes (total_size live) (sort_key ae_modified live)
               in (kept, expired @ removed)))))"

section \<open>Properties\<close>

lemma expire_eq:
  "expire removable limit es =
     (filter (\<lambda>e. \<not> (ae_modified e < limit \<and> removable (ae_path e))) es,
      map ae_path (filter (\<lambda>e. ae_modified e < limit \<and> removable (ae_path e)) es))"
  by (induction es) (auto simp: Let_def)

definition bytes_of :: "artifact_entry list \<Rightarrow> nat" where
  "bytes_of es = (\<Sum>e\<leftarrow>es. unat (ae_size e))"

text \<open>Removing removable entries from the front until the total fits, or nothing is left to remove.\<close>

lemma shrink_spec:
  assumes "\<forall>e\<in>set es. removable (ae_path e)" and "unat t = bytes_of es"
    and "shrink removable max_bytes t es = (kept, removed)"
  shows "\<exists>gone. es = gone @ kept \<and> removed = map ae_path gone \<and> bytes_of kept \<le> unat max_bytes
    \<and> (gone \<noteq> [] \<longrightarrow> unat max_bytes < bytes_of (last gone # kept))"
  using assms
proof (induction es arbitrary: t kept removed)
  case Nil
  then show ?case by (simp add: bytes_of_def)
next
  case (Cons e es)
  show ?case
  proof (cases "t \<le> max_bytes")
    case True
    with Cons.prems show ?thesis by (intro exI [of _ "[]"]) (auto simp: word_le_nat_alt)
  next
    case False
    obtain k r where s: "shrink removable max_bytes (saturating_sub t (ae_size e)) es = (k, r)" by fastforce
    have "unat (saturating_sub t (ae_size e)) = bytes_of es"
      using Cons.prems(2) by (simp add: unat_saturating_sub bytes_of_def)
    with Cons.IH [OF _ this s] Cons.prems(1) obtain gone where
      g: "es = gone @ k" "r = map ae_path gone" "bytes_of k \<le> unat max_bytes"
        "gone \<noteq> [] \<longrightarrow> unat max_bytes < bytes_of (last gone # k)" by auto
    moreover have "kept = k" "removed = ae_path e # r" using Cons.prems(1,3) False s by (auto simp: Let_def)
    moreover have "unat max_bytes < bytes_of (e # es)" using False Cons.prems(2) by (simp add: word_le_nat_alt)
    ultimately show ?thesis by (intro exI [of _ "e # gone"]) auto
  qed
qed

lemma total_size_exact:
  assumes "bytes_of es < 2 ^ 64"
  shows "unat (total_size es) = bytes_of es"
proof -
  have "total_size es = of_nat (bytes_of es)"
    by (induction es) (simp_all add: total_size_def bytes_of_def)
  with assms show ?thesis by (simp add: unsigned_of_nat take_bit_nat_eq_self)
qed

definition expired_by :: "artifacts_config \<Rightarrow> int \<Rightarrow> artifact_entry \<Rightarrow> bool" where
  "expired_by config now e =
     (case af_ttl_sec config of None \<Rightarrow> False | Some ttl_sec \<Rightarrow> ae_modified e < cutoff now ttl_sec)"

text \<open>
  C21. A garbage collection whose removals succeed keeps the store within its limits and removes no
  more than it must: the entries removed for age are exactly the expired ones; of the others the
  oldest are removed, and only while what is left exceeds the size limit; everything else stays. The
  hypothesis on the sizes says that their sum fits 64 bits.
\<close>

theorem gc_artifacts_spec:
  assumes "gc_artifacts lstat euid read_dir now removable config = Inr (kept, removed)"
    and "scan_artifact_entries read_dir = Inr found"
    and "\<forall>e\<in>set found. removable (ae_path e)" and "bytes_of found < 2 ^ 64"
  shows "\<exists>gone. mset found = mset (filter (expired_by config now) found) + mset gone + mset kept
    \<and> removed = map ae_path (filter (expired_by config now) found @ gone)
    \<and> (\<forall>e\<in>set (gone @ kept). \<not> expired_by config now e)
    \<and> (\<forall>e\<in>set gone. \<forall>e'\<in>set kept. ae_modified e \<le> ae_modified e')
    \<and> (case af_max_bytes config of
         None \<Rightarrow> gone = []
       | Some max_bytes \<Rightarrow> bytes_of kept \<le> unat max_bytes
           \<and> (gone \<noteq> [] \<longrightarrow> unat max_bytes < bytes_of (last gone # kept)))"
proof -
  let ?live = "filter (\<lambda>e. \<not> expired_by config now e) found"
  let ?old = "filter (expired_by config now) found"
  have split: "(case af_ttl_sec config of None \<Rightarrow> (found, []) | Some ttl_sec \<Rightarrow> expire removable (cutoff now ttl_sec) found)
      = (?live, map ae_path ?old)"
    using assms(3) by (auto simp: expire_eq expired_by_def split: option.split intro!: filter_cong arg_cong [of _ _ "map ae_path"])
  have parts: "mset found = mset ?old + mset ?live" by (simp add: multiset_partition [of "mset found" "expired_by config now", symmetric])
  have small: "bytes_of ?live < 2 ^ 64"
  proof -
    have "bytes_of ?live \<le> bytes_of found"
      by (induction found) (auto simp: bytes_of_def)
    with assms(4) show ?thesis by simp
  qed
  show ?thesis
  proof (cases "found = []")
    case True
    with assms(1,2) have "kept = []" "removed = []" by (auto simp: gc_artifacts_def result_simps)
    with True show ?thesis by (auto simp: bytes_of_def split: option.split)
  next
    case False
    with assms(1,2) have r: "(case af_max_bytes config of
           None \<Rightarrow> (?live, map ae_path ?old)
         | Some max_bytes \<Rightarrow>
             if total_size ?live \<le> max_bytes then (?live, map ae_path ?old)
             else (let (kept, removed) = shrink removable max_bytes (total_size ?live) (sort_key ae_modified ?live)
               in (kept, map ae_path ?old @ removed))) = (kept, removed)"
      by (auto simp: gc_artifacts_def result_simps split)
    show ?thesis
    proof (cases "\<exists>max_bytes. af_max_bytes config = Some max_bytes \<and> \<not> total_size ?live \<le> max_bytes")
      case True
      then obtain m where m: "af_max_bytes config = Some m" "\<not> total_size ?live \<le> m" by blast
      with r obtain rem where s: "shrink removable m (total_size ?live) (sort_key ae_modified ?live) = (kept, rem)"
        and rem: "removed = map ae_path ?old @ rem" by (auto simp: Let_def split: prod.splits)
      have "unat (total_size ?live) = bytes_of (sort_key ae_modified ?live)"
        using total_size_exact [OF small] by (simp add: bytes_of_def flip: sum_mset_sum_list)
      from shrink_spec [OF _ this s] assms(3) obtain gone where g: "sort_key ae_modified ?live = gone @ kept"
        "rem = map ae_path gone" "bytes_of kept \<le> unat m" "gone \<noteq> [] \<longrightarrow> unat m < bytes_of (last gone # kept)" by auto
      have ms: "mset ?live = mset gone + mset kept" by (metis g(1) mset_sort mset_append)
      have sorted: "sorted (map ae_modified gone @ map ae_modified kept)"
        using sorted_sort_key [of ae_modified ?live] by (simp add: g(1))
      have live: "set (gone @ kept) = set ?live" unfolding g(1) [symmetric] by simp
      show ?thesis
      proof (intro exI [of _ gone] conjI)
        show "mset found = mset ?old + mset gone + mset kept" unfolding parts ms by (simp only: add.assoc)
        show "removed = map ae_path (?old @ gone)" by (simp add: rem g(2))
        show "\<forall>e\<in>set (gone @ kept). \<not> expired_by config now e" unfolding live by simp
        show "\<forall>e\<in>set gone. \<forall>e'\<in>set kept. ae_modified e \<le> ae_modified e'" using sorted by (simp add: sorted_append)
      qed (simp add: m(1) g(3,4))
    next
      case False
      with r have "kept = ?live" "removed = map ae_path ?old" by (auto split: option.splits if_splits)
      moreover have "case af_max_bytes config of None \<Rightarrow> True | Some m \<Rightarrow> bytes_of ?live \<le> unat m"
        using False total_size_exact [OF small] by (auto simp: word_le_nat_alt split: option.split)
      ultimately show ?thesis using parts by (intro exI [of _ "[]"]) (simp split: option.splits)
    qed
  qed
qed

section \<open>Samples\<close>

definition sample_walked :: "u64 \<Rightarrow> int \<Rightarrow> (walked_file, string) result" where
  "sample_walked len modified = Inr \<lparr>wf_is_file = True, wf_metadata = Inr (len, Some modified)\<rparr>"

definition sample_store :: "(store_entry, io_error) result list" where
  "sample_store =
     [Inr \<lparr>se_path = ''/s/new'', se_is_dir = Inr True, se_walk = [sample_walked 4 9000000000]\<rparr>,
      Inr \<lparr>se_path = ''/s/mid'', se_is_dir = Inr True, se_walk = [sample_walked 5 8000000000]\<rparr>,
      Inr \<lparr>se_path = ''/s/old'', se_is_dir = Inr True, se_walk = [sample_walked 1 1000000000]\<rparr>]"

definition sample_root :: "(root_meta, io_error) result" where
  "sample_root = Inr \<lparr>rm_type = Directory, rm_uid = 0, rm_mode = 0x41C0\<rparr>"

definition sample_gc :: artifacts_config where
  "sample_gc = default_artifacts\<lparr>af_ttl_sec := Some 5, af_max_bytes := Some 6\<rparr>"

lemma sample_scan:
  "scan_artifact_entries (Inr sample_store) =
     Inr [\<lparr>ae_path = ''/s/new'', ae_size = 4, ae_modified = 9000000000\<rparr>,
          \<lparr>ae_path = ''/s/mid'', ae_size = 5, ae_modified = 8000000000\<rparr>,
          \<lparr>ae_path = ''/s/old'', ae_size = 1, ae_modified = 1000000000\<rparr>]"
  by (simp add: scan_artifact_entries_def sample_store_def scan_store_entry_def scan_entry_def sample_walked_def
      scan_file_def saturating_add_def)

lemma sample_gc_run:
  "gc_artifacts sample_root 0 (Inr sample_store) 10000000000 (\<lambda>_. True) sample_gc
    = Inr ([\<lparr>ae_path = ''/s/new'', ae_size = 4, ae_modified = 9000000000\<rparr>], [''/s/old'', ''/s/mid''])"
  by (simp add: gc_artifacts_def validate_gc_root_def sample_root_def sample_scan sample_gc_def cutoff_def SYSTEM_TIME_MIN_def
      total_size_def Let_def saturating_sub_def)

theorem gc_artifacts_spec_witness:
  "gc_artifacts sample_root 0 (Inr sample_store) 10000000000 (\<lambda>_. True) sample_gc
      = Inr ([\<lparr>ae_path = ''/s/new'', ae_size = 4, ae_modified = 9000000000\<rparr>], [''/s/old'', ''/s/mid''])
   \<and> bytes_of [\<lparr>ae_path = ''/s/new'', ae_size = 4, ae_modified = 9000000000\<rparr>] \<le> 6"
proof -
  have "bytes_of [\<lparr>ae_path = ''/s/new'', ae_size = 4, ae_modified = 9000000000\<rparr>,
          \<lparr>ae_path = ''/s/mid'', ae_size = 5, ae_modified = 8000000000\<rparr>,
          \<lparr>ae_path = ''/s/old'', ae_size = 1, ae_modified = 1000000000\<rparr>] < 2 ^ 64" by (simp add: bytes_of_def)
  from gc_artifacts_spec [OF sample_gc_run sample_scan _ this] sample_gc_run show ?thesis
    by (auto simp: sample_gc_def)
qed

text \<open>
  A directory in which no file exists yet counts as last modified at the epoch. It is removed as
  expired whatever its age, also in the moment between its creation by a collection and the creation
  of the archive in it.
\<close>

lemma gc_removes_fresh_directory:
  assumes "af_ttl_sec config = Some ttl_sec" and "0 < cutoff now ttl_sec" and "validate_gc_root lstat euid = Inr ()"
    and "removable path"
  shows "gc_artifacts lstat euid (Inr [Inr \<lparr>se_path = path, se_is_dir = Inr True,
      se_walk = [Inr \<lparr>wf_is_file = False, wf_metadata = m\<rparr>]\<rparr>]) now removable config = Inr ([], [path])"
  using assms by (auto simp: gc_artifacts_def scan_artifact_entries_def scan_store_entry_def scan_entry_def scan_file_def
      Let_def total_size_def split: option.split)

end
