(* ===== verification/User.thy ===== *)
theory User
  imports Polling Posix_Fs Rust_Str
begin

text \<open>
  Account look-ups of \<^verbatim>\<open>src/user.rs\<close>. The C library answers a call with a buffer of the given
  length; the three functions double the buffer on \<^verbatim>\<open>ERANGE\<close> until it exceeds one MiB. The names
  in a record of the C library are given as \<^verbatim>\<open>to_string_lossy\<close> reads them.
\<close>

record user_info =
  ui_username :: string
  ui_uid :: u32
  ui_gid :: u32
  ui_home_dir :: string

datatype user_error =
    UserLookupFailed u32 io_error
  | UserNotFound u32
  | UserNameLookupFailed string io_error
  | UserNameNotFound string
  | GroupLookupFailed string io_error
  | GroupNotFound string
  | InvalidGroupName string
  | BufferTooSmall

fun show_user_error :: "user_error \<Rightarrow> string" where
  "show_user_error (UserLookupFailed uid source) =
     ''user lookup failed for uid '' @ show_nat (unat uid) @ '': '' @ show_io_error source"
| "show_user_error (UserNotFound uid) = ''user with uid '' @ show_nat (unat uid) @ '' not found''"
| "show_user_error (UserNameLookupFailed name source) =
     ''user lookup failed for name '' @ name @ '': '' @ show_io_error source"
| "show_user_error (UserNameNotFound name) = ''user '' @ name @ '' not found''"
| "show_user_error (GroupLookupFailed name source) =
     ''group lookup failed for '' @ name @ '': '' @ show_io_error source"
| "show_user_error (GroupNotFound name) = ''group '' @ name @ '' not found''"
| "show_user_error (InvalidGroupName name) = ''invalid group name '' @ name"
| "show_user_error BufferTooSmall = ''buffer too small for system lookup''"

definition ERANGE :: nat where "ERANGE = 34"

definition USIZE_MAX :: nat where "USIZE_MAX = 2 ^ 64 - 1"

definition BUFFER_LIMIT :: nat where "BUFFER_LIMIT = 1024 * 1024"

text \<open>
  The C library's answer to the call with a buffer length: an error number, or an entry or none.
\<close>

type_synonym 'a lookup_call = "nat \<Rightarrow> ('a option, io_error) result"

definition initial_buffer :: "int \<Rightarrow> nat" where
  "initial_buffer sysconf = (if sysconf < 0 then 1024 else nat sysconf)"

text \<open>One iteration of the look-up loops; the state is the buffer length.\<close>

definition lookup_body ::
  "'a lookup_call \<Rightarrow> user_error \<Rightarrow> (io_error \<Rightarrow> user_error) \<Rightarrow> nat \<Rightarrow> nat \<Rightarrow> nat + ('a, user_error) result" where
  "lookup_body call not_found failed buf_len _ =
     (case call buf_len of
        Inr None \<Rightarrow> Inr (Inl not_found)
      | Inr (Some x) \<Rightarrow> Inr (Inr x)
      | Inl err \<Rightarrow>
          if raw_os_error err = Some ERANGE
          then (let buf_len' = min (buf_len * 2) USIZE_MAX in
            if BUFFER_LIMIT < buf_len' then Inr (Inl BufferTooSmall) else Inl buf_len')
          else Inr (Inl (failed err)))"

definition lookup_loop ::
  "int \<Rightarrow> 'a lookup_call \<Rightarrow> user_error \<Rightarrow> (io_error \<Rightarrow> user_error) \<Rightarrow> ('a, user_error) result option" where
  "lookup_loop sysconf call not_found failed =
     map_option fst (poll (lookup_body call not_found failed) (initial_buffer sysconf) 0)"

definition lookup_user :: "int \<Rightarrow> (u32 \<Rightarrow> user_info lookup_call) \<Rightarrow> u32 \<Rightarrow> (user_info, user_error) result option" where
  "lookup_user sysconf getpwuid_r uid =
     lookup_loop sysconf (getpwuid_r uid) (UserNotFound uid) (UserLookupFailed uid)"

definition lookup_group_gid :: "int \<Rightarrow> (string \<Rightarrow> u32 lookup_call) \<Rightarrow> string \<Rightarrow> (u32, user_error) result option" where
  "lookup_group_gid sysconf getgrnam_r name =
     (if CHR 0x00 \<in> set name then Some (Inl (UserNameNotFound name))
      else lookup_loop sysconf (getgrnam_r name) (GroupNotFound name) (GroupLookupFailed name))"

definition lookup_user_by_name ::
  "int \<Rightarrow> (string \<Rightarrow> user_info lookup_call) \<Rightarrow> string \<Rightarrow> (user_info, user_error) result option" where
  "lookup_user_by_name sysconf getpwnam_r name =
     (if CHR 0x00 \<in> set name then Some (Inl (InvalidGroupName name))
      else lookup_loop sysconf (getpwnam_r name) (UserNameNotFound name) (UserNameLookupFailed name))"

section \<open>The loop\<close>

text \<open>The lengths that are tried: each is the initial one times a power of two, within the limit.\<close>

definition tried :: "int \<Rightarrow> nat \<Rightarrow> nat \<Rightarrow> bool" where
  "tried sysconf i buf_len \<longleftrightarrow> buf_len = initial_buffer sysconf * 2 ^ i \<and> (i = 0 \<or> buf_len \<le> BUFFER_LIMIT)"

lemma lookup_body_grows:
  assumes "lookup_body call nf failed n i = Inl n'" and "tried sysconf i n"
  shows "tried sysconf (Suc i) n'" and "n' = n * 2" and "n' \<le> BUFFER_LIMIT"
proof -
  from assms(1) have n': "n' = min (n * 2) USIZE_MAX" "n' \<le> BUFFER_LIMIT"
    by (auto simp: lookup_body_def Let_def split: sum.splits option.splits if_splits)
  moreover have "BUFFER_LIMIT < USIZE_MAX" by (simp add: BUFFER_LIMIT_def USIZE_MAX_def)
  ultimately show n: "n' = n * 2" by (simp add: min_def split: if_splits)
  show "n' \<le> BUFFER_LIMIT" by fact
  with n assms(2) show "tried sysconf (Suc i) n'" by (simp add: tried_def)
qed

lemma lookup_loop_returns:
  assumes "sysconf \<noteq> 0"
  shows "\<exists>r. lookup_loop sysconf call nf failed = Some r"
proof -
  have "\<exists>r k. poll (lookup_body call nf failed) n i = Some (r, k)" if "tried sysconf i n" for n i
    using that
  proof (induction "BUFFER_LIMIT - n" arbitrary: n i rule: less_induct)
    case less
    show ?case
    proof (cases "lookup_body call nf failed n i")
      case (Inr r)
      then show ?thesis by (simp add: poll.simps)
    next
      case (Inl n')
      note g = lookup_body_grows [OF Inl less.prems]
      have "0 < n" using less.prems assms by (auto simp: tried_def initial_buffer_def)
      with g(2,3) have "BUFFER_LIMIT - n' < BUFFER_LIMIT - n" by simp
      from less.hyps [OF this g(1)] Inl show ?thesis by (subst poll.simps) simp
    qed
  qed
  from this [of 0 "initial_buffer sysconf"] show ?thesis by (force simp: lookup_loop_def tried_def)
qed

text \<open>A result stands for the answer to one of the lengths tried.\<close>

lemma lookup_loop_result:
  assumes "lookup_loop sysconf call nf failed = Some r"
  shows "\<exists>n i. tried sysconf i n \<and>
    (case r of
       Inr x \<Rightarrow> call n = Inr (Some x)
     | Inl e \<Rightarrow> call n = Inr None \<and> e = nf
         \<or> (\<exists>err. call n = Inl err \<and> (if raw_os_error err = Some ERANGE then e = BufferTooSmall \<and> BUFFER_LIMIT < 2 * n else e = failed err)))"
proof -
  from assms obtain k where "poll (lookup_body call nf failed) (initial_buffer sysconf) 0 = Some (r, k)"
    by (auto simp: lookup_loop_def)
  from poll_result [OF this, of "\<lambda>n i. tried sysconf i n"] lookup_body_grows(1)
  obtain n where n: "tried sysconf k n" "lookup_body call nf failed n k = Inr r"
    by (force simp: tried_def)
  from n(2) have "case r of
       Inr x \<Rightarrow> call n = Inr (Some x)
     | Inl e \<Rightarrow> call n = Inr None \<and> e = nf
         \<or> (\<exists>err. call n = Inl err \<and> (if raw_os_error err = Some ERANGE then e = BufferTooSmall \<and> BUFFER_LIMIT < 2 * n else e = failed err))"
    by (auto simp: lookup_body_def Let_def split: sum.splits option.splits if_splits)
  with n(1) show ?thesis by blast
qed

text \<open>A buffer of length 0 stays at 0.\<close>

lemma lookup_loop_zero:
  assumes "call 0 = Inl (OsError ERANGE msg)"
  shows "lookup_loop 0 call nf failed = None"
proof (rule ccontr)
  assume "lookup_loop 0 call nf failed \<noteq> None"
  then obtain r k where "poll (lookup_body call nf failed) (initial_buffer 0) 0 = Some (r, k)"
    by (auto simp: lookup_loop_def)
  from poll_result [OF this, of "\<lambda>n _. n = 0"] assms show False
    by (auto simp: initial_buffer_def lookup_body_def Let_def BUFFER_LIMIT_def)
qed

text \<open>
  C39. Looking up an account by name always returns, unless the C library suggests a buffer of
  length 0: the answer is the entry, "not found" or the error the library gave for one of the
  lengths tried, and no entry is invented.
\<close>

theorem lookup_user_by_name_returns:
  assumes "sysconf \<noteq> 0" and "CHR 0x00 \<notin> set name"
  shows "\<exists>r n i. lookup_user_by_name sysconf getpwnam_r name = Some r \<and> tried sysconf i n
    \<and> (\<forall>user. r = Inr user \<longrightarrow> getpwnam_r name n = Inr (Some user))
    \<and> (r = Inl (UserNameNotFound name) \<longrightarrow> getpwnam_r name n = Inr None)"
proof -
  from lookup_loop_returns [OF assms(1)] obtain r where
    r: "lookup_loop sysconf (getpwnam_r name) (UserNameNotFound name) (UserNameLookupFailed name) = Some r" by blast
  from lookup_loop_result [OF r] obtain n i where n: "tried sysconf i n" and call: "case r of
       Inr x \<Rightarrow> getpwnam_r name n = Inr (Some x)
     | Inl e \<Rightarrow> getpwnam_r name n = Inr None \<and> e = UserNameNotFound name
         \<or> (\<exists>err. getpwnam_r name n = Inl err \<and> (if raw_os_error err = Some ERANGE
              then e = BufferTooSmall \<and> BUFFER_LIMIT < 2 * n else e = UserNameLookupFailed name err))" by blast
  from call have "(\<forall>user. r = Inr user \<longrightarrow> getpwnam_r name n = Inr (Some user))
    \<and> (r = Inl (UserNameNotFound name) \<longrightarrow> getpwnam_r name n = Inr None)"
    by (cases r) (auto split: if_splits)
  with r n assms(2) show ?thesis by (auto simp: lookup_user_by_name_def)
qed

text \<open>A library that needs 64 bytes for its only entry.\<close>

definition sample_getpwnam :: "string \<Rightarrow> user_info lookup_call" where
  "sample_getpwnam name n =
     (if n < 64 then Inl (OsError ERANGE ''range'')
      else if name = ''u'' then Inr (Some \<lparr>ui_username = ''u'', ui_uid = 1000, ui_gid = 100, ui_home_dir = ''/home/u''\<rparr>)
      else Inr None)"

theorem lookup_user_by_name_returns_witness:
  "(16 :: int) \<noteq> 0 \<and> CHR 0x00 \<notin> set ''u''
    \<and> (\<exists>r n i. lookup_user_by_name 16 sample_getpwnam ''u'' = Some r \<and> tried 16 i n
      \<and> (\<forall>user. r = Inr user \<longrightarrow> sample_getpwnam ''u'' n = Inr (Some user))
      \<and> (r = Inl (UserNameNotFound ''u'') \<longrightarrow> sample_getpwnam ''u'' n = Inr None))"
proof -
  have "(16 :: int) \<noteq> 0" "CHR 0x00 \<notin> set ''u''" by simp_all
  with lookup_user_by_name_returns [of 16 "''u''" sample_getpwnam] show ?thesis by blast
qed

text \<open>A suggested length of 0 and a library that asks for more: the loop does not end.\<close>

lemma lookup_user_zero_buffer:
  assumes "getpwuid_r uid 0 = Inl (OsError ERANGE msg)"
  shows "lookup_user 0 getpwuid_r uid = None"
  using lookup_loop_zero [of "getpwuid_r uid"] assms by (simp add: lookup_user_def)

end
