(* ===== verification/Run_As.thy ===== *)
theory Run_As
  imports User Build_Error Config_Safety Effect
begin

text \<open>
  The identity tasks run as: resolving it, the checks at start-up and before every command, the
  environment of a task and the steps of the child between fork and exec, from \<^verbatim>\<open>src/build.rs\<close>. An
  account look-up that does not return is \<^const>\<open>None\<close>.
\<close>

record run_as =
  ra_user :: user_info
  ra_gid :: u32
  ra_set_ids :: bool

text \<open>What the C library knows of the accounts.\<close>

record accounts =
  ac_getuid :: u32
  ac_getpw_size :: int
  ac_getgr_size :: int
  ac_getpwuid_r :: "u32 \<Rightarrow> user_info lookup_call"
  ac_getpwnam_r :: "string \<Rightarrow> user_info lookup_call"
  ac_getgrnam_r :: "string \<Rightarrow> u32 lookup_call"

definition resolve_user :: "accounts \<Rightarrow> config \<Rightarrow> (user_info, build_error) result option" where
  "resolve_user ac c =
     (case bc_run_as_user (cf_build c) of
        Some user \<Rightarrow>
          map_option (map_err (\<lambda>err. be_new ''run_as_user'' (''failed to resolve run_as_user: '' @ show_user_error err)))
            (lookup_user_by_name (ac_getpw_size ac) (ac_getpwnam_r ac) user)
      | None \<Rightarrow>
          map_option (map_err (\<lambda>err. be_new ''run_as_user'' (''failed to resolve service user: '' @ show_user_error err)))
            (lookup_user (ac_getpw_size ac) (ac_getpwuid_r ac) (ac_getuid ac)))"

definition resolve_gid :: "accounts \<Rightarrow> config \<Rightarrow> user_info \<Rightarrow> (u32, build_error) result option" where
  "resolve_gid ac c user =
     (case bc_run_as_group (cf_build c) of
        Some name \<Rightarrow>
          map_option (map_err (\<lambda>err. be_new ''run_as_group'' (''failed to resolve run_as_group: '' @ show_user_error err)))
            (lookup_group_gid (ac_getgr_size ac) (ac_getgrnam_r ac) name)
      | None \<Rightarrow> Some (Inr (ui_gid user)))"

definition resolve_run_as :: "accounts \<Rightarrow> config \<Rightarrow> (run_as, build_error) result option" where
  "resolve_run_as ac c =
     (case resolve_user ac c of
        None \<Rightarrow> None
      | Some (Inl err) \<Rightarrow> Some (Inl err)
      | Some (Inr user) \<Rightarrow>
          map_option (\<lambda>r. and_then r (\<lambda>gid. Inr \<lparr>ra_user = user, ra_gid = gid,
              ra_set_ids = (bc_run_as_user (cf_build c) \<noteq> None \<or> bc_run_as_group (cf_build c) \<noteq> None)\<rparr>))
            (resolve_gid ac c user))"

definition resolved_run_as_identity :: "accounts \<Rightarrow> config \<Rightarrow> ((u32 \<times> string \<times> u32) option, build_error) result option" where
  "resolved_run_as_identity ac c =
     (if bc_run_as_user (cf_build c) = None \<and> bc_run_as_group (cf_build c) = None then Some (Inr None)
      else map_option (\<lambda>r. and_then r (\<lambda>ra.
          Inr (Some (ui_uid (ra_user ra), ui_username (ra_user ra), ra_gid ra))))
        (resolve_run_as ac c))"

definition validate_run_as_uid :: "run_as \<Rightarrow> u32 \<Rightarrow> (unit, build_error) result" where
  "validate_run_as_uid ra effective_uid =
     ensure (\<not> (effective_uid = 0 \<and> ui_uid (ra_user ra) = 0))
       (be_new ''run_as_user'' ''a root daemon must not execute tasks as UID 0'')"

section \<open>Checks at start-up\<close>

definition has_session_services :: "config \<Rightarrow> bool" where
  "has_session_services c \<longleftrightarrow>
     list_ex (\<lambda>(_, task). case tc_session task of None \<Rightarrow> False | Some session \<Rightarrow> se_services session \<noteq> []) (cf_tasks c)"

fun show_config_error :: "config_error \<Rightarrow> string" where
  "show_config_error (ConfigIo path source) = ''failed to read config '' @ path @ '': '' @ source"
| "show_config_error (ParseToml path line column) =
     ''failed to parse config '' @ path @ format_parse_location line column"
| "show_config_error (Invalid message) = ''invalid configuration: '' @ message"

definition preflight_socket :: "run_as \<Rightarrow> u32 \<Rightarrow> socket_config \<Rightarrow> (unit, build_error) result" where
  "preflight_socket ra effective_uid so =
     and_then (ensure (ra_set_ids ra)
       (be_new ''run_as_user'' ''enabled UDS requires a dedicated task execution identity'')) (\<lambda>_.
     and_then (ensure (\<not> (ui_uid (ra_user ra) = 0 \<or> ui_uid (ra_user ra) = effective_uid))
       (be_new ''run_as_user''
         ''enabled UDS requires a non-root task identity distinct from the daemon socket owner'')) (\<lambda>_.
     and_then (ensure (effective_uid = 0)
       (be_new ''run_as_user'' ''enabled UDS privilege dropping requires a root daemon'')) (\<lambda>_.
     and_then (map_err (\<lambda>err. be_new ''socket_mode'' (show_config_error err)) (parse_mode so)) (\<lambda>mode.
     ensure (mode AND 0x3F = 0 \<and> so_group so = None)
       (be_new ''socket_mode'' ''enabled UDS must be owner-only with no socket group'')))))"

definition preflight_http :: "run_as \<Rightarrow> u32 \<Rightarrow> (unit, build_error) result" where
  "preflight_http ra effective_uid =
     and_then (ensure (ra_set_ids ra)
       (be_new ''run_as_user'' ''authenticated HTTP service requires build.run_as_user'')) (\<lambda>_.
     and_then (ensure (ui_uid (ra_user ra) \<noteq> 0)
       (be_new ''run_as_user'' ''build.run_as_user must be a non-root identity'')) (\<lambda>_.
     ensure (effective_uid = 0)
       (be_new ''run_as_user'' ''authenticated HTTP privilege dropping requires a root daemon'')))"

definition preflight_identity :: "config \<Rightarrow> u32 \<Rightarrow> run_as \<Rightarrow> (unit, build_error) result" where
  "preflight_identity c effective_uid ra =
     (let so = sv_socket (cf_service c); http = sv_http (cf_service c); uid = ui_uid (ra_user ra) in
      and_then (ensure (\<not> (has_session_services c \<and> (effective_uid \<noteq> 0 \<or> \<not> ra_set_ids ra \<or> uid = effective_uid)))
        (be_new ''run_as_user''
          ''managed session services require a configured task identity distinct from the daemon effective UID'')) (\<lambda>_.
      and_then (ensure (\<not> (effective_uid = 0 \<and> (so_enabled so \<or> ht_enabled http)
          \<and> (\<not> ra_set_ids ra \<or> uid = 0 \<or> uid = effective_uid)))
        (be_new ''run_as_user''
          ''a root daemon requires a configured distinct non-root task execution identity on every enabled transport'')) (\<lambda>_.
      and_then (if so_enabled so then preflight_socket ra effective_uid so else Inr ()) (\<lambda>_.
      if ht_enabled http \<and> au_required (ht_auth http) then preflight_http ra effective_uid else Inr ()))))"

definition preflight_run_as_with_effective_uid ::
  "accounts \<Rightarrow> config \<Rightarrow> u32 \<Rightarrow> (unit, build_error) result option" where
  "preflight_run_as_with_effective_uid ac c effective_uid =
     map_option (\<lambda>r. and_then r (preflight_identity c effective_uid)) (resolve_run_as ac c)"

section \<open>The environment of a task\<close>



section \<open>Between fork and exec\<close>

record cred =
  cr_uid :: u32
  cr_gid :: u32
  cr_groups :: "u32 set"

text \<open>The operations of the trait \<^verbatim>\<open>PrivilegeDropOps\<close>.\<close>

record privilege_ops =
  po_initgroups :: "string \<Rightarrow> u32 \<Rightarrow> (cred, unit, io_error) eff"
  po_setgid :: "u32 \<Rightarrow> (cred, unit, io_error) eff"
  po_setuid :: "u32 \<Rightarrow> (cred, unit, io_error) eff"

definition apply_privilege_drop :: "privilege_ops \<Rightarrow> string \<Rightarrow> u32 \<Rightarrow> u32 \<Rightarrow> (cred, unit, io_error) eff" where
  "apply_privilege_drop ops username gid uid =
     bind_io (po_initgroups ops username gid) (\<lambda>_.
     bind_io (po_setgid ops gid) (\<lambda>_.
     po_setuid ops uid))"

text \<open>The closure that \<^verbatim>\<open>configure_command\<close> registers, with the result of \<^verbatim>\<open>setpgid\<close>.\<close>

definition pre_exec :: "privilege_ops \<Rightarrow> (unit, io_error) result \<Rightarrow> run_as \<Rightarrow> (cred, unit, io_error) eff" where
  "pre_exec ops setpgid ra =
     bind_io (lift_result setpgid) (\<lambda>_ c.
     bind_io (ensure_io (\<not> (cr_uid c = 0 \<and> ui_uid (ra_user ra) = 0))
       (OtherError ''a root daemon must not execute tasks as UID 0'')) (\<lambda>_.
     if \<not> ra_set_ids ra then return_io ()
     else if CHR 0x00 \<in> set (ui_username (ra_user ra)) then fail_io (OtherError ''invalid username'')
     else apply_privilege_drop ops (ui_username (ra_user ra)) (ra_gid ra) (ui_uid (ra_user ra))) c)"

definition configure_command ::
  "run_as \<Rightarrow> u32 \<Rightarrow> (run_as, build_error) result" where
  "configure_command ra effective_uid = and_then (validate_run_as_uid ra effective_uid) (\<lambda>_. Inr ra)"

section \<open>Properties\<close>

text \<open>What the system calls are documented to do.\<close>

definition posix_ops :: "(string \<Rightarrow> u32 \<Rightarrow> u32 set) \<Rightarrow> privilege_ops \<Rightarrow> bool" where
  "posix_ops groups_of ops \<longleftrightarrow>
     (\<forall>name gid c r c'. po_initgroups ops name gid c = (r, c') \<longrightarrow> cr_uid c' = cr_uid c
        \<and> (r = Inr () \<longrightarrow> cr_groups c' = groups_of name gid))
     \<and> (\<forall>gid c r c'. po_setgid ops gid c = (r, c') \<longrightarrow> cr_uid c' = cr_uid c \<and> cr_groups c' = cr_groups c
        \<and> (r = Inr () \<longrightarrow> cr_gid c' = gid))
     \<and> (\<forall>uid c r c'. po_setuid ops uid c = (r, c') \<longrightarrow> cr_gid c' = cr_gid c \<and> cr_groups c' = cr_groups c
        \<and> (r = Inr () \<and> cr_uid c = 0 \<longrightarrow> cr_uid c' = uid))"

lemma resolve_run_as_total:
  assumes "ac_getpw_size ac \<noteq> 0" and "ac_getgr_size ac \<noteq> 0"
  shows "resolve_run_as ac c \<noteq> None"
proof -
  have "resolve_user ac c \<noteq> None"
    using assms(1) by (auto simp: resolve_user_def lookup_user_by_name_def lookup_user_def lookup_loop_returns split: option.split)
  moreover have "resolve_gid ac c user \<noteq> None" for user
    using assms(2) by (auto simp: resolve_gid_def lookup_group_gid_def lookup_loop_returns split: option.split)
  ultimately show ?thesis by (auto simp: resolve_run_as_def split: option.split sum.split)
qed

lemma privilege_drop_ok:
  assumes "posix_ops groups_of ops" and "cr_uid c = 0"
    and "apply_privilege_drop ops username gid uid c = (Inr u, c')"
  shows "c' = \<lparr>cr_uid = uid, cr_gid = gid, cr_groups = groups_of username gid\<rparr>"
proof -
  from assms(3) obtain c1 c2 where
    "po_initgroups ops username gid c = (Inr (), c1)" "po_setgid ops gid c1 = (Inr (), c2)"
    "po_setuid ops uid c2 = (Inr (), c')"
    unfolding apply_privilege_drop_def by (elim bind_ioE) auto
  with assms(1,2) have "cr_uid c' = uid \<and> cr_gid c' = gid \<and> cr_groups c' = groups_of username gid"
    unfolding posix_ops_def by (metis (no_types, lifting))
  then show ?thesis by (cases c') simp
qed

lemma preflight_socket_ok:
  assumes "preflight_socket ra euid so = Inr u"
  shows "ra_set_ids ra" "ui_uid (ra_user ra) \<noteq> 0" "euid = 0" "so_group so = None"
    "\<exists>m. parse_mode so = Inr m \<and> m AND 0x3F = 0"
  using assms unfolding preflight_socket_def by (auto simp: result_simps)

lemma preflight_http_ok:
  assumes "preflight_http ra euid = Inr u"
  shows "ra_set_ids ra" "ui_uid (ra_user ra) \<noteq> 0" "euid = 0"
  using assms unfolding preflight_http_def by (auto simp: result_simps)

text \<open>What the checks at start-up establish about the identity of tasks.\<close>

definition separated :: "config \<Rightarrow> u32 \<Rightarrow> run_as \<Rightarrow> bool" where
  "separated c euid ra \<longleftrightarrow>
     (has_session_services c \<or> so_enabled (sv_socket (cf_service c))
        \<or> ht_enabled (sv_http (cf_service c)) \<and> (au_required (ht_auth (sv_http (cf_service c))) \<or> euid = 0)
      \<longrightarrow> euid = 0 \<and> ra_set_ids ra \<and> ui_uid (ra_user ra) \<noteq> 0)
     \<and> (so_enabled (sv_socket (cf_service c)) \<longrightarrow> so_group (sv_socket (cf_service c)) = None
        \<and> (\<exists>m. parse_mode (sv_socket (cf_service c)) = Inr m \<and> m AND 0x3F = 0))"

lemma preflight_identity_separated:
  assumes "preflight_identity c euid ra = Inr u"
  shows "separated c euid ra"
  using assms unfolding preflight_identity_def separated_def Let_def
  by (auto simp: result_simps dest: preflight_socket_ok preflight_http_ok split: if_splits)

lemma pre_exec_ok:
  assumes "pre_exec ops setpgid ra c = (Inr u, c')"
  shows "\<not> (cr_uid c = 0 \<and> ui_uid (ra_user ra) = 0)"
    and "ra_set_ids ra \<Longrightarrow> apply_privilege_drop ops (ui_username (ra_user ra)) (ra_gid ra) (ui_uid (ra_user ra)) c = (Inr (), c')"
  using assms unfolding pre_exec_def
  by (auto simp: bind_io_def lift_result_def ensure_io_def return_io_def fail_io_def split: sum.splits if_splits)

text \<open>
  C16. On a daemon that passed the checks at start-up and serves clients, a root daemon's child that
  reaches exec has exactly the resolved task identity: its user is not root, and the groups of the
  daemon are gone. A daemon with the socket, with authenticated HTTP or with retained services is a
  root daemon, so that this applies to it. The hypotheses on the system calls are their documented
  effect.
\<close>

theorem task_identity:
  assumes "preflight_run_as_with_effective_uid ac c euid = Some (Inr ())"
    and "resolve_run_as ac c = Some (Inr ra)"
    and "so_enabled (sv_socket (cf_service c)) \<or> ht_enabled (sv_http (cf_service c))"
    and "posix_ops groups_of ops" and "cr_uid daemon = euid"
    and "pre_exec ops setpgid ra daemon = (Inr (), child)"
  shows "(euid = 0 \<longrightarrow> ui_uid (ra_user ra) \<noteq> 0 \<and> child = \<lparr>cr_uid = ui_uid (ra_user ra), cr_gid = ra_gid ra,
        cr_groups = groups_of (ui_username (ra_user ra)) (ra_gid ra)\<rparr>)
    \<and> (so_enabled (sv_socket (cf_service c)) \<or> has_session_services c
        \<or> ht_enabled (sv_http (cf_service c)) \<and> au_required (ht_auth (sv_http (cf_service c))) \<longrightarrow> euid = 0)"
proof -
  from assms(1,2) have "preflight_identity c euid ra = Inr ()"
    by (simp add: preflight_run_as_with_effective_uid_def)
  note s = preflight_identity_separated [OF this, unfolded separated_def]
  show ?thesis
  proof (intro conjI impI)
    assume euid: "euid = 0"
    with s assms(3) have ids: "ra_set_ids ra" by blast
    show "ui_uid (ra_user ra) \<noteq> 0" using pre_exec_ok(1) [OF assms(6)] assms(5) euid by blast
    show "child = \<lparr>cr_uid = ui_uid (ra_user ra), cr_gid = ra_gid ra,
        cr_groups = groups_of (ui_username (ra_user ra)) (ra_gid ra)\<rparr>"
      using privilege_drop_ok [OF assms(4) _ pre_exec_ok(2) [OF assms(6) ids]] assms(5) euid by blast
  next
    assume "so_enabled (sv_socket (cf_service c)) \<or> has_session_services c
        \<or> ht_enabled (sv_http (cf_service c)) \<and> au_required (ht_auth (sv_http (cf_service c)))"
    with s show "euid = 0" by blast
  qed
qed


section \<open>A sample system\<close>

definition sample_accounts :: accounts where
  "sample_accounts = \<lparr>ac_getuid = 0, ac_getpw_size = 64, ac_getgr_size = 64,
     ac_getpwuid_r = (\<lambda>_ _. Inr None), ac_getpwnam_r = sample_getpwnam, ac_getgrnam_r = (\<lambda>_ _. Inr None)\<rparr>"

text \<open>System calls that a process without privileges may not use.\<close>

definition sample_ops :: privilege_ops where
  "sample_ops = \<lparr>
     po_initgroups = (\<lambda>name gid c. if cr_uid c = 0 then (Inr (), c\<lparr>cr_groups := {gid}\<rparr>) else (Inl (OsError 1 ''denied''), c)),
     po_setgid = (\<lambda>gid c. if cr_uid c = 0 then (Inr (), c\<lparr>cr_gid := gid\<rparr>) else (Inl (OsError 1 ''denied''), c)),
     po_setuid = (\<lambda>uid c. if cr_uid c = 0 \<or> cr_uid c = uid then (Inr (), c\<lparr>cr_uid := uid\<rparr>) else (Inl (OsError 1 ''denied''), c))\<rparr>"

definition sample_run_as :: run_as where
  "sample_run_as = \<lparr>ra_user = \<lparr>ui_username = ''u'', ui_uid = 1000, ui_gid = 100, ui_home_dir = ''/home/u''\<rparr>,
     ra_gid = 100, ra_set_ids = True\<rparr>"

lemma posix_sample_ops: "posix_ops (\<lambda>_ gid. {gid}) sample_ops"
  by (auto simp: posix_ops_def sample_ops_def)

lemma sample_resolved: "resolve_run_as sample_accounts sample_config = Some (Inr sample_run_as)"
  by (simp add: resolve_run_as_def resolve_user_def resolve_gid_def sample_config_def default_build_def sample_accounts_def
      lookup_user_by_name_def lookup_loop_def lookup_body_def poll.simps initial_buffer_def sample_getpwnam_def sample_run_as_def)

lemma sample_preflight_identity: "preflight_identity sample_config 0 sample_run_as = Inr ()"
  by (simp add: preflight_identity_def Let_def preflight_socket_def sample_run_as_def sample_config_def
      default_socket_def default_http_def parse_mode_def sample_paths result_simps)

lemma sample_run_as_preflight: "preflight_run_as_with_effective_uid sample_accounts sample_config 0 = Some (Inr ())"
  unfolding preflight_run_as_with_effective_uid_def sample_resolved by (simp add: sample_preflight_identity)

lemma sample_child:
  "pre_exec sample_ops (Inr ()) sample_run_as \<lparr>cr_uid = 0, cr_gid = 0, cr_groups = {0, 4}\<rparr>
    = (Inr (), \<lparr>cr_uid = 1000, cr_gid = 100, cr_groups = {100}\<rparr>)"
  by (simp add: pre_exec_def bind_io_def lift_result_def ensure_io_def return_io_def sample_run_as_def
      apply_privilege_drop_def sample_ops_def)

theorem task_identity_witness:
  "pre_exec sample_ops (Inr ()) sample_run_as \<lparr>cr_uid = 0, cr_gid = 0, cr_groups = {0, 4}\<rparr>
    = (Inr (), \<lparr>cr_uid = 1000, cr_gid = 100, cr_groups = {100}\<rparr>)
   \<and> ui_uid (ra_user sample_run_as) \<noteq> 0"
proof -
  have "so_enabled (sv_socket (cf_service sample_config))" by (simp add: sample_config_def)
  then show ?thesis
    using task_identity [OF sample_run_as_preflight sample_resolved _ posix_sample_ops _ sample_child] sample_child by simp
qed

end
