(* ===== verification/Artifact_Archive.thy ===== *)
theory Artifact_Archive
  imports Artifact_Selection Byte_Budget Protocol "HOL-Library.List_Lexorder" "HOL-Library.Char_ord"
begin

text \<open>
  Writing and publishing an artifact archive, from \<^verbatim>\<open>src/artifacts.rs\<close>: opening the selected files
  beneath the root, the size limits, the archive writer with its transfer limit and the publication
  by rename. The zip library is a parameter: from the calls made so far and the writer it finds, it
  determines the writes and seeks it makes; an error of the writer is passed through. The hooks for
  tests have no effect.
\<close>

section \<open>Opening\<close>

record file_meta =
  fm_type :: file_type
  fm_identity :: artifact_identity
  fm_mode :: u32
  fm_size :: u64

text \<open>An open file: its metadata, and the chunks that reading it yields up to the end.\<close>

record handle =
  hd_metadata :: "(file_meta, io_error) result"
  hd_rewind :: "(unit, io_error) result"
  hd_chunks :: "(string, io_error) result list"

record opened_artifact =
  oa_file :: handle
  oa_relative :: rel_path
  oa_mode :: u32
  oa_size :: u64

fun open_components ::
  "(rel_path \<Rightarrow> string \<Rightarrow> bool \<Rightarrow> (handle, io_error) result) \<Rightarrow> rel_path \<Rightarrow> rel_path \<Rightarrow> rel_path
     \<Rightarrow> (handle, artifact_error) result" where
  "open_components openat relative at [] = Inl (UnsupportedFile (path_text relative))"
| "open_components openat relative at (name # rest) =
     (if CHR 0x00 \<in> set name then Inl (UnsupportedFile (path_text relative))
      else and_then (map_err (ArtifactIo ''open artifact beneath root'') (openat at name (rest \<noteq> []))) (\<lambda>opened.
        if rest = [] then Inr opened
        else and_then (map_err (ArtifactIo ''inspect artifact directory'') (hd_metadata opened)) (\<lambda>metadata.
          if fm_type metadata \<noteq> Directory then Inl (UnsupportedFile (path_text relative))
          else open_components openat relative (at @ [name]) rest)))"

definition open_file_beneath ::
  "(rel_path \<Rightarrow> string \<Rightarrow> bool \<Rightarrow> (handle, io_error) result) \<Rightarrow> rel_path \<Rightarrow> (handle, artifact_error) result" where
  "open_file_beneath openat relative = open_components openat relative [] relative"

definition open_one ::
  "(nat \<Rightarrow> bool) \<Rightarrow> (rel_path \<Rightarrow> string \<Rightarrow> bool \<Rightarrow> (handle, io_error) result) \<Rightarrow> matched_files
     \<Rightarrow> nat \<times> opened_artifact list \<Rightarrow> rel_path \<Rightarrow> (nat \<times> opened_artifact list, artifact_error) result" where
  "open_one cancelled openat matched = (\<lambda>(k, opened) relative.
     and_then (check_cancelled cancelled k) (\<lambda>k.
     and_then (open_file_beneath openat relative) (\<lambda>h.
     and_then (map_err (ArtifactIo ''inspect opened artifact'') (hd_metadata h)) (\<lambda>metadata.
     if fm_type metadata \<noteq> RegularFile \<or> map_of matched relative \<noteq> Some (fm_identity metadata)
     then Inl (UnsupportedFile (path_text relative))
     else and_then (map_err (ArtifactIo ''rewind opened artifact'') (hd_rewind h)) (\<lambda>_.
       Inr (k, opened @ [\<lparr>oa_file = h, oa_relative = relative, oa_mode = fm_mode metadata,
         oa_size = fm_size metadata\<rparr>]))))))"

definition open_matched_artifacts ::
  "(nat \<Rightarrow> bool) \<Rightarrow> (rel_path \<Rightarrow> string \<Rightarrow> bool \<Rightarrow> (handle, io_error) result) \<Rightarrow> matched_files \<Rightarrow> nat
     \<Rightarrow> (nat \<times> opened_artifact list, artifact_error) result" where
  "open_matched_artifacts cancelled openat matched k =
     try_fold (open_one cancelled openat matched) (k, []) (sort (map fst matched))"

definition fold_key :: "rel_path \<Rightarrow> string" where
  "fold_key rel = to_ascii_lowercase (from_utf8_lossy (path_text rel))"

definition validate_artifact_count_and_depth ::
  "matched_files \<Rightarrow> usize \<Rightarrow> usize \<Rightarrow> (unit, artifact_error) result" where
  "validate_artifact_count_and_depth matched max_files max_depth =
     (if max_files < length matched then Inl (TooManyFiles max_files)
      else if list_ex (\<lambda>(path, _). max_depth < length path) matched then Inl (TooDeep max_depth)
      else and_then (try_fold (\<lambda>folded (rel, _).
          if fold_key rel \<in> set folded then Inl (UnsupportedFile (path_text rel)) else Inr (fold_key rel # folded)) [] matched)
        (\<lambda>_. Inr ()))"

section \<open>The limited writer\<close>

definition TRANSFER_LIMIT_SENTINEL :: string where
  "TRANSFER_LIMIT_SENTINEL = ''artifacts.max_transfer_bytes exceeded''"

text \<open>The writer's counter, and the position and length of the file below it.\<close>

record limited_writer =
  lw_bytes_written :: u64
  lw_pos :: nat
  lw_len :: nat

text \<open>A write of a buffer and what the file accepts of it, or a seek.\<close>

datatype raw_op = RawWrite nat "(nat, io_error) result" | RawSeek nat

definition limited_write :: "u64 \<Rightarrow> nat \<Rightarrow> (nat, io_error) result \<Rightarrow> limited_writer \<Rightarrow> (limited_writer, io_error) result" where
  "limited_write max_bytes n answer lw =
     (if max_bytes < saturating_add (lw_bytes_written lw) (of_nat n) then Inl (OtherError TRANSFER_LIMIT_SENTINEL)
      else and_then answer (\<lambda>written.
        Inr (lw\<lparr>lw_bytes_written := saturating_add (lw_bytes_written lw) (of_nat written),
          lw_pos := lw_pos lw + written, lw_len := max (lw_len lw) (lw_pos lw + written)\<rparr>)))"

fun raw_step :: "u64 \<Rightarrow> limited_writer \<Rightarrow> raw_op \<Rightarrow> (limited_writer, io_error) result" where
  "raw_step max_bytes lw (RawWrite n answer) = limited_write max_bytes n answer lw"
| "raw_step max_bytes lw (RawSeek pos) = Inr (lw\<lparr>lw_pos := pos\<rparr>)"

definition is_transfer_limit_error :: "io_error \<Rightarrow> bool" where
  "is_transfer_limit_error err = (err = OtherError TRANSFER_LIMIT_SENTINEL)"

section \<open>The archive\<close>

datatype zip_call = StartFile string u32 | WriteAll string | FinishZip

datatype zip_error = ZipIo io_error | ZipOther string

definition is_transfer_limit_zip_error :: "zip_error \<Rightarrow> bool" where
  "is_transfer_limit_zip_error err = (case err of ZipIo source \<Rightarrow> is_transfer_limit_error source | _ \<Rightarrow> False)"

type_synonym zip_lib = "zip_call list \<Rightarrow> limited_writer \<Rightarrow> raw_op list \<times> string option"

record archive_world =
  aw_writer :: limited_writer
  aw_calls :: "zip_call list"
  aw_checks :: nat
  aw_uncompressed :: u64

definition zip_do :: "zip_lib \<Rightarrow> u64 \<Rightarrow> zip_call \<Rightarrow> archive_world \<Rightarrow> (archive_world, zip_error) result" where
  "zip_do zlib max_transfer call w =
     (let calls = aw_calls w @ [call]; (ops, own) = zlib calls (aw_writer w) in
      and_then (map_err ZipIo (try_fold (raw_step max_transfer) (aw_writer w) ops)) (\<lambda>lw.
        case own of None \<Rightarrow> Inr (w\<lparr>aw_writer := lw, aw_calls := calls\<rparr>) | Some m \<Rightarrow> Inl (ZipOther m)))"

definition zip_failed :: "u64 \<Rightarrow> zip_error \<Rightarrow> artifact_error" where
  "zip_failed max_transfer err =
     (if is_transfer_limit_zip_error err then TransferTooLarge max_transfer
      else ArtifactZip (case err of ZipIo source \<Rightarrow> show_io_error source | ZipOther m \<Rightarrow> m))"

definition write_failed :: "u64 \<Rightarrow> zip_error \<Rightarrow> artifact_error" where
  "write_failed max_transfer err =
     (if is_transfer_limit_zip_error err then TransferTooLarge max_transfer
      else ArtifactIo ''write artifact'' (case err of ZipIo source \<Rightarrow> source | ZipOther m \<Rightarrow> OtherError m))"

definition world_check :: "(nat \<Rightarrow> bool) \<Rightarrow> archive_world \<Rightarrow> (archive_world, artifact_error) result" where
  "world_check cancelled w = and_then (check_cancelled cancelled (aw_checks w)) (\<lambda>k. Inr (w\<lparr>aw_checks := k\<rparr>))"

definition charge_uncompressed :: "u64 \<Rightarrow> u64 \<Rightarrow> u64 \<Rightarrow> (u64, artifact_error) result" where
  "charge_uncompressed max_uncompressed t n =
     (let t' = saturating_add t n in
      if max_uncompressed < t' then Inl (UncompressedTooLarge max_uncompressed) else Inr t')"

text \<open>One iteration of the copy loop; the end of the file, or an empty read, leaves it.\<close>

fun copy_chunks ::
  "(nat \<Rightarrow> bool) \<Rightarrow> zip_lib \<Rightarrow> u64 \<Rightarrow> u64 \<Rightarrow> (string, io_error) result list \<Rightarrow> archive_world
     \<Rightarrow> (archive_world, artifact_error) result" where
  "copy_chunks cancelled zlib max_transfer max_uncompressed [] w = world_check cancelled w"
| "copy_chunks cancelled zlib max_transfer max_uncompressed (r # rs) w =
     and_then (world_check cancelled w) (\<lambda>w.
     and_then (map_err (ArtifactIo ''read artifact'') r) (\<lambda>chunk.
     if chunk = [] then Inr w
     else and_then (charge_uncompressed max_uncompressed (aw_uncompressed w) (of_nat (length chunk))) (\<lambda>t.
       and_then (map_err (write_failed max_transfer) (zip_do zlib max_transfer (WriteAll chunk) (w\<lparr>aw_uncompressed := t\<rparr>)))
         (copy_chunks cancelled zlib max_transfer max_uncompressed rs))))"

definition entry_name :: "rel_path \<Rightarrow> string" where
  "entry_name rel = map (\<lambda>c. if c = CHR 0x5C then CHR ''/'' else c) (from_utf8_lossy (path_text rel))"

definition archive_one ::
  "(nat \<Rightarrow> bool) \<Rightarrow> zip_lib \<Rightarrow> u64 \<Rightarrow> u64 \<Rightarrow> archive_world \<Rightarrow> opened_artifact \<Rightarrow> (archive_world, artifact_error) result" where
  "archive_one cancelled zlib max_transfer max_uncompressed w artifact =
     and_then (world_check cancelled w) (\<lambda>w.
     and_then (map_err (zip_failed max_transfer)
       (zip_do zlib max_transfer (StartFile (entry_name (oa_relative artifact)) (oa_mode artifact)) w)) (\<lambda>w.
     and_then (map_err (ArtifactIo ''rewind artifact'') (hd_rewind (oa_file artifact))) (\<lambda>_.
     copy_chunks cancelled zlib max_transfer max_uncompressed (hd_chunks (oa_file artifact)) w)))"

record archive_io =
  ai_create :: "(unit, io_error) result"
  ai_zip :: zip_lib
  ai_flush :: "(unit, io_error) result"
  ai_stat :: "(unit, io_error) result"

text \<open>The number of bytes of the finished file, with the state after it.\<close>

definition write_artifacts_zip ::
  "(nat \<Rightarrow> bool) \<Rightarrow> archive_io \<Rightarrow> u64 \<Rightarrow> u64 \<Rightarrow> opened_artifact list \<Rightarrow> nat \<Rightarrow> (nat \<times> archive_world, artifact_error) result" where
  "write_artifacts_zip cancelled io max_transfer max_uncompressed opened k =
     and_then (map_err (ArtifactIo ''create artifacts.zip'') (ai_create io)) (\<lambda>_.
     and_then (try_fold (archive_one cancelled (ai_zip io) max_transfer max_uncompressed)
       \<lparr>aw_writer = \<lparr>lw_bytes_written = 0, lw_pos = 0, lw_len = 0\<rparr>, aw_calls = [], aw_checks = k, aw_uncompressed = 0\<rparr>
       (sort_key oa_relative opened)) (\<lambda>w.
     and_then (map_err (zip_failed max_transfer) (zip_do (ai_zip io) max_transfer FinishZip w)) (\<lambda>w.
     and_then (map_err (ArtifactIo ''flush artifact archive'') (ai_flush io)) (\<lambda>_.
     and_then (map_err (ArtifactIo ''stat artifact archive'') (ai_stat io)) (\<lambda>_.
     Inr (lw_len (aw_writer w), w))))))"

section \<open>Collection\<close>

record artifact_collection =
  ac_archive :: "artifact_archive option"
  ac_restrictions :: "artifact_restrictions option"




text \<open>\<open>ci_temp_left\<close> is what is left of the temporary file when its removal fails.\<close>

record collect_io =
  ci_cancelled :: "nat \<Rightarrow> bool"
  ci_root :: "(unit, io_error) result"
  ci_tree :: "walk_tree list"
  ci_lstat :: "rel_path \<Rightarrow> (file_type \<times> artifact_identity, io_error) result"
  ci_openat :: "rel_path \<Rightarrow> string \<Rightarrow> bool \<Rightarrow> (handle, io_error) result"
  ci_create_dir :: "(unit, io_error) result"
  ci_protect_dir :: "(unit, io_error) result"
  ci_archive :: archive_io
  ci_temp_left :: "nat option"
  ci_protect_file :: "(unit, io_error) result"
  ci_rename :: "(unit, io_error) result"
  ci_dir_removed :: bool

datatype collect_stage =
    NothingToArchive artifact_collection
  | ToArchive "opened_artifact list" "artifact_restrictions option" nat

definition collect_open ::
  "string \<Rightarrow> 'p pattern_new \<Rightarrow> ('p \<Rightarrow> string \<Rightarrow> bool) \<Rightarrow> collect_io \<Rightarrow> artifact_spec \<Rightarrow> artifacts_config
     \<Rightarrow> (collect_stage, artifact_error) result" where
  "collect_open build_root pattern_new matches io spec config =
     and_then (check_cancelled (ci_cancelled io) 0) (\<lambda>k.
     if as_include spec = [] then Inr (NothingToArchive \<lparr>ac_archive = None, ac_restrictions = None\<rparr>)
     else
       and_then (map_err (ArtifactIo ''open artifact root'') (ci_root io)) (\<lambda>_.
       and_then (check_cancelled (ci_cancelled io) k) (\<lambda>k.
       and_then (select_artifacts build_root (ci_cancelled io) pattern_new matches (ci_lstat io) (ci_tree io) spec config k)
         (\<lambda>(matched, restrictions, k).
       if matched = [] then Inr (NothingToArchive \<lparr>ac_archive = None, ac_restrictions = restrictions\<rparr>)
       else
         and_then (validate_artifact_count_and_depth matched (af_max_files config) (af_max_depth config)) (\<lambda>_.
         and_then (open_matched_artifacts (ci_cancelled io) (ci_openat io) matched k) (\<lambda>(k, opened).
         if af_max_uncompressed_bytes config < foldl (\<lambda>total a. saturating_add total (oa_size a)) 0 opened
         then Inl (UncompressedTooLarge (af_max_uncompressed_bytes config))
         else Inr (ToArchive opened restrictions k)))))))"



section \<open>Limits\<close>

interpretation uncompressed_budget: byte_budget "charge_uncompressed lim" lim for lim
  by unfold_locales (auto simp: charge_uncompressed_def Let_def)

text \<open>The seeks of a zip library stay within what it has written, and no write is overfilled.\<close>

fun within :: "limited_writer \<Rightarrow> raw_op list \<Rightarrow> bool" where
  "within lw [] = True"
| "within lw (RawSeek pos # ops) = (pos \<le> lw_len lw \<and> within (lw\<lparr>lw_pos := pos\<rparr>) ops)"
| "within lw (RawWrite n answer # ops) =
     (case answer of
        Inl _ \<Rightarrow> True
      | Inr k \<Rightarrow> k \<le> n \<and> n < 2 ^ 64 \<and> within (lw\<lparr>lw_bytes_written := saturating_add (lw_bytes_written lw) (of_nat k),
          lw_pos := lw_pos lw + k, lw_len := max (lw_len lw) (lw_pos lw + k)\<rparr>) ops)"

definition zip_within :: "zip_lib \<Rightarrow> bool" where
  "zip_within zlib \<longleftrightarrow> (\<forall>calls lw. lw_pos lw \<le> lw_len lw \<longrightarrow> within lw (fst (zlib calls lw)))"

definition writer_ok :: "u64 \<Rightarrow> limited_writer \<Rightarrow> bool" where
  "writer_ok lim lw \<longleftrightarrow> lw_pos lw \<le> lw_len lw \<and> lw_len lw \<le> unat (lw_bytes_written lw) \<and> unat (lw_bytes_written lw) \<le> unat lim"

lemma limited_write_ok:
  assumes "limited_write lim n (Inr k) lw = Inr lw'" and "writer_ok lim lw" and "k \<le> n" and "n < 2 ^ 64"
    and "unat lim < 2 ^ 64 - 1"
  shows "writer_ok lim lw'"
proof -
  have n: "unat (of_nat n :: u64) = n" and k: "unat (of_nat k :: u64) = k"
    using assms(3,4) by (simp_all add: unsigned_of_nat take_bit_nat_eq_self)
  from assms(1) have le: "saturating_add (lw_bytes_written lw) (of_nat n) \<le> lim"
    by (auto simp: limited_write_def split: if_splits)
  from saturating_add_le_limit [OF this] assms(5) n have "unat (lw_bytes_written lw) + n \<le> unat lim" by simp
  moreover from this have "unat (saturating_add (lw_bytes_written lw) (of_nat k)) = unat (lw_bytes_written lw) + k"
    using assms(3,5) k by (simp add: unat_saturating_add)
  ultimately show ?thesis using assms(1,2,3) by (auto simp: limited_write_def writer_ok_def split: if_splits)
qed

lemma raw_steps_ok:
  assumes "try_fold (raw_step lim) lw ops = Inr lw'" and "writer_ok lim lw" and "within lw ops" and "unat lim < 2 ^ 64 - 1"
  shows "writer_ok lim lw'"
  using assms(1-3)
proof (induction ops arbitrary: lw)
  case (Cons op ops)
  show ?case
  proof (cases op)
    case (RawSeek pos)
    with Cons show ?thesis by (auto simp: writer_ok_def)
  next
    case (RawWrite n answer)
    from Cons.prems(1) RawWrite obtain lw1 where l: "limited_write lim n answer lw = Inr lw1" "try_fold (raw_step lim) lw1 ops = Inr lw'"
      by (auto simp: result_simps)
    then obtain k where k: "answer = Inr k" by (auto simp: limited_write_def result_simps split: if_splits)
    with l(1) Cons.prems(3) RawWrite have "within lw1 ops" "k \<le> n" "n < 2 ^ 64"
      by (auto simp: limited_write_def split: if_splits)
    with Cons.IH [OF l(2)] limited_write_ok [OF l(1) [unfolded k] Cons.prems(2) _ _ assms(4)] show ?thesis by blast
  qed
qed simp

section \<open>Contents\<close>

text \<open>What is to be written for a file: its entry, then what reading it yields.\<close>

definition file_calls :: "opened_artifact \<Rightarrow> zip_call list" where
  "file_calls a = StartFile (entry_name (oa_relative a)) (oa_mode a)
     # map (\<lambda>r. WriteAll (projr r)) (takeWhile (\<lambda>r. r \<noteq> Inr []) (hd_chunks (oa_file a)))"

fun call_bytes :: "zip_call \<Rightarrow> nat" where
  "call_bytes (WriteAll s) = length s"
| "call_bytes _ = 0"

definition calls_bytes :: "zip_call list \<Rightarrow> nat" where
  "calls_bytes calls = sum_list (map call_bytes calls)"

definition archive_inv :: "u64 \<Rightarrow> u64 \<Rightarrow> archive_world \<Rightarrow> bool" where
  "archive_inv max_transfer max_uncompressed w \<longleftrightarrow> writer_ok max_transfer (aw_writer w)
     \<and> calls_bytes (aw_calls w) = unat (aw_uncompressed w) \<and> unat (aw_uncompressed w) \<le> unat max_uncompressed"

text \<open>A read fills at most the buffer.\<close>

definition buffered :: "(string, io_error) result list \<Rightarrow> bool" where
  "buffered rs \<longleftrightarrow> (\<forall>c. Inr c \<in> set rs \<longrightarrow> length c \<le> 8192)"

lemma world_check_ok:
  assumes "world_check cancelled w = Inr w'"
  shows "aw_writer w' = aw_writer w" "aw_calls w' = aw_calls w" "aw_uncompressed w' = aw_uncompressed w"
  using assms by (auto simp: world_check_def result_simps)

lemma zip_do_ok:
  assumes "zip_do zlib lim call w = Inr w'" and "zip_within zlib" and "unat lim < 2 ^ 64 - 1" and "writer_ok lim (aw_writer w)"
  shows "writer_ok lim (aw_writer w')" "aw_calls w' = aw_calls w @ [call]" "aw_uncompressed w' = aw_uncompressed w"
proof -
  obtain ops own where z: "zlib (aw_calls w @ [call]) (aw_writer w) = (ops, own)" by fastforce
  from assms(1) z obtain lw where lw: "try_fold (raw_step lim) (aw_writer w) ops = Inr lw"
    and w': "w' = w\<lparr>aw_writer := lw, aw_calls := aw_calls w @ [call]\<rparr>"
    by (auto simp: zip_do_def Let_def result_simps split: option.splits)
  have "within (aw_writer w) ops"
    using assms(2,4) z unfolding zip_within_def writer_ok_def by (metis fst_conv)
  from raw_steps_ok [OF lw assms(4) this assms(3)] w' show "writer_ok lim (aw_writer w')"
    "aw_calls w' = aw_calls w @ [call]" "aw_uncompressed w' = aw_uncompressed w" by simp_all
qed

text \<open>The assumptions on a zip library and limits under which the counters are exact.\<close>

definition exact_limits :: "zip_lib \<Rightarrow> u64 \<Rightarrow> u64 \<Rightarrow> bool" where
  "exact_limits zlib max_transfer max_uncompressed \<longleftrightarrow>
     zip_within zlib \<and> unat max_transfer < 2 ^ 64 - 1 \<and> unat max_uncompressed < 2 ^ 64 - 1"

lemma copy_chunks_ok:
  assumes "copy_chunks cancelled zlib mt mu rs w = Inr w'" and "exact_limits zlib mt mu" and "archive_inv mt mu w" and "buffered rs"
  shows "archive_inv mt mu w' \<and> aw_calls w' = aw_calls w @ map (\<lambda>r. WriteAll (projr r)) (takeWhile (\<lambda>r. r \<noteq> Inr []) rs)"
  using assms(1,3,4)
proof (induction rs arbitrary: w)
  case Nil
  then show ?case using world_check_ok [of cancelled w w'] by (simp add: archive_inv_def)
next
  case (Cons r rs)
  from Cons.prems(1) obtain w1 chunk where w1: "world_check cancelled w = Inr w1" and r: "r = Inr chunk"
    and rest: "(if chunk = [] then Inr w1
      else and_then (charge_uncompressed mu (aw_uncompressed w1) (of_nat (length chunk))) (\<lambda>t.
       and_then (map_err (write_failed mt) (zip_do zlib mt (WriteAll chunk) (w1\<lparr>aw_uncompressed := t\<rparr>)))
         (copy_chunks cancelled zlib mt mu rs))) = Inr w'"
    by (auto simp: result_simps)
  note c = world_check_ok [OF w1]
  show ?case
  proof (cases "chunk = []")
    case True
    with rest r c Cons.prems(2) show ?thesis by (simp add: archive_inv_def)
  next
    case False
    with rest obtain t w2 where t: "charge_uncompressed mu (aw_uncompressed w1) (of_nat (length chunk)) = Inr t"
      and w2: "zip_do zlib mt (WriteAll chunk) (w1\<lparr>aw_uncompressed := t\<rparr>) = Inr w2"
      and w': "copy_chunks cancelled zlib mt mu rs w2 = Inr w'" by (auto simp: result_simps)
    have "length chunk \<le> 8192" using Cons.prems(3) r by (auto simp: buffered_def)
    then have len: "unat (of_nat (length chunk) :: u64) = length chunk"
      by (simp add: unsigned_of_nat take_bit_nat_eq_self)
    have ex: "zip_within zlib" "unat mt < 2 ^ 64 - 1" "unat mu < 2 ^ 64 - 1"
      using assms(2) by (simp_all add: exact_limits_def)
    note sum = uncompressed_budget.charge_exact [OF t ex(3)]
    have "writer_ok mt (aw_writer (w1\<lparr>aw_uncompressed := t\<rparr>))" using Cons.prems(2) c by (simp add: archive_inv_def)
    note z = zip_do_ok [OF w2 ex(1,2) this]
    have "archive_inv mt mu w2" using z sum len c Cons.prems(2) by (simp add: archive_inv_def calls_bytes_def)
    moreover have "buffered rs" using Cons.prems(3) by (auto simp: buffered_def)
    ultimately show ?thesis using Cons.IH [OF w'] z c r False by simp
  qed
qed

lemma archive_one_ok:
  assumes "archive_one cancelled zlib mt mu w a = Inr w'" and "exact_limits zlib mt mu" and "archive_inv mt mu w"
    and "buffered (hd_chunks (oa_file a))"
  shows "archive_inv mt mu w' \<and> aw_calls w' = aw_calls w @ file_calls a"
proof -
  from assms(1) obtain w1 w2 where w1: "world_check cancelled w = Inr w1"
    and w2: "zip_do zlib mt (StartFile (entry_name (oa_relative a)) (oa_mode a)) w1 = Inr w2"
    and w': "copy_chunks cancelled zlib mt mu (hd_chunks (oa_file a)) w2 = Inr w'"
    by (auto simp: archive_one_def result_simps)
  note c = world_check_ok [OF w1]
  have "zip_within zlib" "unat mt < 2 ^ 64 - 1" "writer_ok mt (aw_writer w1)"
    using assms(2,3) c by (simp_all add: exact_limits_def archive_inv_def)
  note z = zip_do_ok [OF w2 this]
  have "archive_inv mt mu w2" using z c assms(3) by (simp add: archive_inv_def calls_bytes_def)
  from copy_chunks_ok [OF w' assms(2) this assms(4)] z c show ?thesis by (simp add: file_calls_def)
qed

lemma archive_fold_ok:
  assumes "try_fold (archive_one cancelled zlib mt mu) w as = Inr w'" and "exact_limits zlib mt mu" and "archive_inv mt mu w"
    and "\<forall>a\<in>set as. buffered (hd_chunks (oa_file a))"
  shows "archive_inv mt mu w' \<and> aw_calls w' = aw_calls w @ concat (map file_calls as)"
  using assms(1,3,4)
proof (induction as arbitrary: w)
  case (Cons a as)
  from Cons.prems(1) obtain w1 where w1: "archive_one cancelled zlib mt mu w a = Inr w1"
    "try_fold (archive_one cancelled zlib mt mu) w1 as = Inr w'" by (auto simp: result_simps)
  from archive_one_ok [OF w1(1) assms(2) Cons.prems(2)] Cons.prems(3) Cons.IH [OF w1(2)] show ?case by simp
qed simp

lemma write_archive_ok:
  assumes "write_artifacts_zip cancelled io mt mu opened k = Inr (len, w)" and "exact_limits (ai_zip io) mt mu"
    and "\<forall>a\<in>set opened. buffered (hd_chunks (oa_file a))"
  shows "aw_calls w = concat (map file_calls (sort_key oa_relative opened)) @ [FinishZip]
    \<and> calls_bytes (aw_calls w) \<le> unat mu \<and> len \<le> unat mt"
proof -
  let ?w0 = "\<lparr>aw_writer = \<lparr>lw_bytes_written = 0, lw_pos = 0, lw_len = 0\<rparr>, aw_calls = [], aw_checks = k, aw_uncompressed = 0\<rparr>"
  from assms(1) obtain w1 where w1: "try_fold (archive_one cancelled (ai_zip io) mt mu) ?w0 (sort_key oa_relative opened) = Inr w1"
    and w: "zip_do (ai_zip io) mt FinishZip w1 = Inr w" and len: "len = lw_len (aw_writer w)"
    by (auto simp: write_artifacts_zip_def result_simps)
  have "archive_inv mt mu ?w0" by (simp add: archive_inv_def writer_ok_def calls_bytes_def)
  from archive_fold_ok [OF w1 assms(2) this] assms(3)
  have ok: "archive_inv mt mu w1" "aw_calls w1 = concat (map file_calls (sort_key oa_relative opened))" by simp_all
  have "zip_within (ai_zip io)" "unat mt < 2 ^ 64 - 1" "writer_ok mt (aw_writer w1)"
    using assms(2) ok(1) by (simp_all add: exact_limits_def archive_inv_def)
  note z = zip_do_ok [OF w this]
  show ?thesis using z ok len by (auto simp: archive_inv_def writer_ok_def calls_bytes_def)
qed

text \<open>Opened files come from the operating system, and have the identity that was selected.\<close>

lemma open_components_origin:
  assumes "open_components openat relative at names = Inr h"
  shows "\<exists>at name d. openat at name d = Inr h"
  using assms by (induction openat relative at names rule: open_components.induct)
    (auto simp: result_simps split: if_splits)

definition opened_from ::
  "(rel_path \<Rightarrow> string \<Rightarrow> bool \<Rightarrow> (handle, io_error) result) \<Rightarrow> matched_files \<Rightarrow> opened_artifact \<Rightarrow> bool" where
  "opened_from openat matched a \<longleftrightarrow> (\<exists>at name d. openat at name d = Inr (oa_file a))
     \<and> (\<exists>m. hd_metadata (oa_file a) = Inr m \<and> fm_type m = RegularFile \<and> map_of matched (oa_relative a) = Some (fm_identity m))"

lemma open_one_ok:
  assumes "open_one cancelled openat matched (k, opened) rel = Inr (k', opened')"
  shows "\<exists>a. opened' = opened @ [a] \<and> oa_relative a = rel \<and> opened_from openat matched a"
proof -
  from assms obtain h m where h: "open_file_beneath openat rel = Inr h" "hd_metadata h = Inr m"
    "fm_type m = RegularFile" "map_of matched rel = Some (fm_identity m)"
    and o: "opened' = opened @ [\<lparr>oa_file = h, oa_relative = rel, oa_mode = fm_mode m, oa_size = fm_size m\<rparr>]"
    by (auto simp: result_simps open_one_def split: if_splits)
  from open_components_origin [OF h(1) [unfolded open_file_beneath_def]] h(2-4) o show ?thesis
    by (auto simp: opened_from_def)
qed

lemma open_fold_ok:
  assumes "try_fold (open_one cancelled openat matched) (k, opened) rels = Inr (k', opened')"
    and "\<forall>a\<in>set opened. opened_from openat matched a"
  shows "(\<forall>a\<in>set opened'. opened_from openat matched a) \<and> map oa_relative opened' = map oa_relative opened @ rels"
  using assms
proof (induction rels arbitrary: k opened)
  case (Cons rel rels)
  from Cons.prems(1) obtain k1 o1 where o: "open_one cancelled openat matched (k, opened) rel = Inr (k1, o1)"
    and rest: "try_fold (open_one cancelled openat matched) (k1, o1) rels = Inr (k', opened')"
    by (auto simp: result_simps)
  from open_one_ok [OF o] obtain a where "o1 = opened @ [a]" "oa_relative a = rel" "opened_from openat matched a" by blast
  with Cons.prems(2) Cons.IH [OF rest] show ?case by simp
qed simp

text \<open>The operating system never reads more than the buffer.\<close>

definition genuine :: "collect_io \<Rightarrow> bool" where
  "genuine io \<longleftrightarrow> (\<forall>at name d h. ci_openat io at name d = Inr h \<longrightarrow> buffered (hd_chunks h))"

lemma collect_open_ok:
  assumes "collect_open root pn matches io spec config = Inr (ToArchive opened restrictions k)"
  shows "\<exists>matched k0 k1. select_artifacts root (ci_cancelled io) pn matches (ci_lstat io) (ci_tree io) spec config k0 = Inr (matched, restrictions, k1)
    \<and> map oa_relative opened = sort (map fst matched) \<and> (\<forall>a\<in>set opened. opened_from (ci_openat io) matched a)"
proof -
  from assms obtain k0 matched k1 where
    s: "select_artifacts root (ci_cancelled io) pn matches (ci_lstat io) (ci_tree io) spec config k0 = Inr (matched, restrictions, k1)"
    and o: "open_matched_artifacts (ci_cancelled io) (ci_openat io) matched k1 = Inr (k, opened)"
    by (auto simp: collect_open_def result_simps split: if_splits)
  from open_fold_ok [OF o [unfolded open_matched_artifacts_def]] s show ?thesis by auto
qed


lemma collected_buffered:
  assumes "collect_open root pn matches io spec config = Inr (ToArchive opened restrictions k)" and "genuine io"
  shows "\<forall>a\<in>set opened. buffered (hd_chunks (oa_file a))"
  using collect_open_ok [OF assms(1)] assms(2) by (auto simp: genuine_def opened_from_def)

text \<open>
  C14. The archive that is written holds exactly the selected files, once each and in the order of
  their paths: for every file one entry with its name and mode, followed by its contents as they were
  read, from a regular file with the device and inode seen by the selection. The file is no longer
  than the transfer limit and holds no more bytes of contents than the uncompressed limit.
\<close>

theorem archive_contents:
  assumes "collect_open root pn matches io spec config = Inr (ToArchive opened restrictions k)"
    and "genuine io"
    and "exact_limits (ai_zip (ci_archive io)) (af_max_transfer_bytes config) (af_max_uncompressed_bytes config)"
    and "write_artifacts_zip (ci_cancelled io) (ci_archive io) (af_max_transfer_bytes config) (af_max_uncompressed_bytes config)
      opened k' = Inr (len, w)"
  shows "\<exists>matched k0 k1. select_artifacts root (ci_cancelled io) pn matches (ci_lstat io) (ci_tree io) spec config k0
        = Inr (matched, restrictions, k1)
    \<and> map oa_relative opened = sort (map fst matched) \<and> (\<forall>a\<in>set opened. opened_from (ci_openat io) matched a)
    \<and> aw_calls w = concat (map file_calls opened) @ [FinishZip]
    \<and> calls_bytes (aw_calls w) \<le> unat (af_max_uncompressed_bytes config) \<and> len \<le> unat (af_max_transfer_bytes config)"
proof -
  from collect_open_ok [OF assms(1)] obtain matched k0 k1 where
    m: "select_artifacts root (ci_cancelled io) pn matches (ci_lstat io) (ci_tree io) spec config k0 = Inr (matched, restrictions, k1)"
      "map oa_relative opened = sort (map fst matched)" "\<forall>a\<in>set opened. opened_from (ci_openat io) matched a" by blast
  have "sort_key oa_relative opened = opened"
    by (rule sort_key_id_if_sorted) (simp add: m(2))
  with write_archive_ok [OF assms(4,3) collected_buffered [OF assms(1,2)]] m show ?thesis by metis
qed


section \<open>A sample collection\<close>

text \<open>A zip library that writes one byte per entry, the contents and two bytes at the end, after going
  back to the start once.\<close>

definition sample_zip :: zip_lib where
  "sample_zip calls lw =
     (case last calls of
        StartFile _ _ \<Rightarrow> [RawWrite 1 (Inr 1)]
      | WriteAll s \<Rightarrow> if length s < 100 then [RawWrite (length s) (Inr (length s))] else []
      | FinishZip \<Rightarrow> [RawSeek 0, RawWrite 1 (Inr 1)], None)"

definition sample_openat :: "rel_path \<Rightarrow> string \<Rightarrow> bool \<Rightarrow> (handle, io_error) result" where
  "sample_openat at name directory =
     Inr \<lparr>hd_metadata = Inr \<lparr>fm_type = (if directory then Directory else RegularFile),
         fm_identity = \<lparr>fi_device = 1, fi_inode = of_nat (length (path_text (at @ [name])))\<rparr>, fm_mode = 0x81A4, fm_size = 5\<rparr>,
       hd_rewind = Inr (), hd_chunks = [Inr ''hello'']\<rparr>"

definition sample_collect :: collect_io where
  "sample_collect = \<lparr>ci_cancelled = \<lambda>_. False, ci_root = Inr (), ci_tree = sample_tree, ci_lstat = sample_lstat,
     ci_openat = sample_openat, ci_create_dir = Inr (), ci_protect_dir = Inr (),
     ci_archive = \<lparr>ai_create = Inr (), ai_zip = sample_zip, ai_flush = Inr (), ai_stat = Inr ()\<rparr>,
     ci_temp_left = None, ci_protect_file = Inr (), ci_rename = Inr (), ci_dir_removed = True\<rparr>"

definition sample_archive_limits :: artifacts_config where
  "sample_archive_limits = sample_artifacts\<lparr>af_max_transfer_bytes := 100, af_max_uncompressed_bytes := 50\<rparr>"

lemma sample_genuine: "genuine sample_collect"
  by (simp add: genuine_def sample_collect_def sample_openat_def buffered_def)

lemma sample_exact:
  "exact_limits (ai_zip (ci_archive sample_collect)) (af_max_transfer_bytes sample_archive_limits) (af_max_uncompressed_bytes sample_archive_limits)"
  by (auto simp: exact_limits_def zip_within_def sample_collect_def sample_zip_def sample_archive_limits_def split: zip_call.split)

definition sample_opened :: opened_artifact where
  "sample_opened = \<lparr>oa_file = projr (sample_openat [''out''] ''a'' False), oa_relative = [''out'', ''a''], oa_mode = 0x81A4, oa_size = 5\<rparr>"

definition sample_matched :: matched_files where
  "sample_matched = [([''out'', ''a''], \<lparr>fi_device = 1, fi_inode = 5\<rparr>)]"

definition sample_restrictions :: artifact_restrictions where
  "sample_restrictions = \<lparr>ar_omitted_count = 1, ar_matched_patterns = [''out/k'']\<rparr>"

lemma sample_steps:
  "select_artifacts ''/w'' (\<lambda>_. False) Inr star_matches sample_lstat sample_tree sample_spec sample_archive_limits 2
    = Inr (sample_matched, Some sample_restrictions, 10)"
  "validate_artifact_count_and_depth sample_matched 5 3 = Inr ()"
  "open_matched_artifacts (\<lambda>_. False) sample_openat sample_matched 10 = Inr (11, [sample_opened])"
  by code_simp+

lemma sample_open_stage:
  "collect_open ''/w'' Inr star_matches sample_collect sample_spec sample_archive_limits
    = Inr (ToArchive [sample_opened] (Some sample_restrictions) 11)"
proof -
  have c: "ci_cancelled sample_collect = (\<lambda>_. False)" "ci_root sample_collect = Inr ()" "ci_lstat sample_collect = sample_lstat"
    "ci_tree sample_collect = sample_tree" "ci_openat sample_collect = sample_openat" by (simp_all add: sample_collect_def)
  have l: "af_max_files sample_archive_limits = 5" "af_max_depth sample_archive_limits = 3" "af_max_uncompressed_bytes sample_archive_limits = 50"
    by (simp_all add: sample_archive_limits_def sample_artifacts_def)
  have "as_include sample_spec \<noteq> []" "sample_matched \<noteq> []" by (simp_all add: sample_spec_def sample_matched_def)
  moreover have "check_cancelled (\<lambda>_. False) 0 = Inr 1" "check_cancelled (\<lambda>_. False) 1 = Inr 2"
    by (simp_all add: check_cancelled_def)
  moreover have "\<not> 50 < saturating_add 0 (oa_size sample_opened)" by (simp add: sample_opened_def saturating_add_def)
  ultimately show ?thesis unfolding collect_open_def c l by (simp add: sample_steps)
qed

definition sample_archive_world :: archive_world where
  "sample_archive_world = \<lparr>aw_writer = \<lparr>lw_bytes_written = 7, lw_pos = 1, lw_len = 6\<rparr>,
     aw_calls = [StartFile ''out/a'' 0x81A4, WriteAll ''hello'', FinishZip], aw_checks = 15, aw_uncompressed = 5\<rparr>"

lemma sample_entry_name: "entry_name [''out'', ''a''] = ''out/a''"
  by code_simp

lemma sample_written:
  "write_artifacts_zip (ci_cancelled sample_collect) (ci_archive sample_collect) (af_max_transfer_bytes sample_archive_limits)
    (af_max_uncompressed_bytes sample_archive_limits) [sample_opened] 12 = Inr (6, sample_archive_world)"
  by (simp add: write_artifacts_zip_def sample_collect_def sample_archive_limits_def archive_one_def world_check_def check_cancelled_def
      zip_do_def Let_def sample_zip_def limited_write_def saturating_add_def sample_opened_def sample_openat_def
      sample_entry_name charge_uncompressed_def sample_archive_world_def)



theorem archive_contents_witness:
  "collect_open ''/w'' Inr star_matches sample_collect sample_spec sample_archive_limits
      = Inr (ToArchive [sample_opened] (Some sample_restrictions) 11)
   \<and> aw_calls sample_archive_world = concat (map file_calls [sample_opened]) @ [FinishZip]"
  using archive_contents [OF sample_open_stage sample_genuine sample_exact sample_written] sample_open_stage by blast

end
