(* ===== verification/Build_Phases.thy ===== *)
theory Build_Phases
  imports Process Run_As Source_Extraction Artifact_Archive Session_State
begin

text \<open>
  Running a task, from \<^verbatim>\<open>src/build.rs\<close>: the phases with their events, the final collection and the exit
  event, and the preparation of a build's workspace. The world is the event channel to the client;
  each send takes the channel's next answer. A phase waits for its process with the loops of \<open>Process\<close>;
  what the operating system reports is an argument.
\<close>

text \<open>How a computation may end besides with a value: an error, a panic, or not at all.\<close>

datatype failure = Failed build_error | Panicked | NoReturn






section \<open>One phase\<close>











section \<open>The phases of a task\<close>










section \<open>The end of a build\<close>



definition gone :: failure where
  "gone = Failed (be_new ''stream_closed'' ''client disconnected'')"


section \<open>Workspaces\<close>








section \<open>Exactly one exit event\<close>




































section \<open>Builds that return\<close>


definition abnormal :: "failure \<Rightarrow> bool" where
  "abnormal f \<longleftrightarrow> (\<forall>e. f \<noteq> Failed e)"

lemma abnormal_simps [simp]: "abnormal Panicked" "abnormal NoReturn" "\<not> abnormal (Failed e)" "\<not> abnormal gone"
  by (simp_all add: abnormal_def gone_def)
























section \<open>A sample build\<close>

















end
