(* ===== verification/Admission.thy ===== *)
theory Admission
  imports Build_Phases
begin


section \<open>Validated configurations\<close>







end
