(* ===== verification/Session_Metadata.thy ===== *)
theory Session_Metadata
  imports Session_State Process Posix_Fs Effect
begin

text \<open>
  Protected session metadata, from \<^verbatim>\<open>src/sessions.rs\<close>: writing a record atomically, reading it back and
  removing it. The world is the metadata directory, the entries of the workspace root, the teardowns
  run so far and a schedule of faults, one for each file-system operation in order. The JSON encoder
  and decoder are parameters.
\<close>

record meta_file =
  mf_content :: string
  mf_regular :: bool
  mf_uid :: u32
  mf_mode :: u32

record dir_meta =
  dt_real_directory :: bool
  dt_uid :: u32
  dt_mode :: u32

text \<open>Entries of the workspace root by name, with whether they are directories.\<close>

record meta_world =
  mw_root :: "dir_meta option"
  mw_files :: "string \<rightharpoonup> meta_file"
  mw_workspace_root :: bool
  mw_workspaces :: "string \<rightharpoonup> bool"
  mw_teardowns :: "(string \<times> string) list"
  mw_euid :: u32
  mw_now :: nat
  mw_fault :: "nat \<Rightarrow> io_error option"

type_synonym 'a meta = "(meta_world, 'a, io_error) eff"

text \<open>An operation that the schedule may let fail without effect.\<close>

definition attempt :: "'a meta \<Rightarrow> 'a meta" where
  "attempt m w =
     (let w' = w\<lparr>mw_now := Suc (mw_now w)\<rparr> in
      case mw_fault w (mw_now w) of Some err \<Rightarrow> (Inl err, w') | None \<Rightarrow> m w')"

definition update_world :: "(meta_world \<Rightarrow> meta_world) \<Rightarrow> unit meta" where
  "update_world f w = (Inr (), f w)"

section \<open>The protected directory\<close>

definition create_root :: "meta_world \<Rightarrow> meta_world" where
  "create_root w = (if mw_root w = None
     then w\<lparr>mw_root := Some \<lparr>dt_real_directory = True, dt_uid = mw_euid w, dt_mode = 0x1ED\<rparr>\<rparr> else w)"

definition protect_root :: "meta_world \<Rightarrow> meta_world" where
  "protect_root w = w\<lparr>mw_root := map_option (\<lambda>d. d\<lparr>dt_mode := 0x1C0\<rparr>) (mw_root w)\<rparr>"

definition validate_protected_directory :: "unit meta" where
  "validate_protected_directory = attempt (\<lambda>w.
     case mw_root w of
       None \<Rightarrow> (Inl (OsError ENOENT ''not found''), w)
     | Some d \<Rightarrow>
         if \<not> dt_real_directory d \<or> dt_uid d \<noteq> mw_euid w \<or> dt_mode d AND 0x3F \<noteq> 0
         then (Inl (OtherError ''session metadata root must be a daemon-owned mode-0700 real directory''), w)
         else (Inr (), w))"

definition prepare_protected_directory :: "unit meta" where
  "prepare_protected_directory =
     bind_io (attempt (update_world create_root)) (\<lambda>_.
     bind_io (attempt (update_world protect_root)) (\<lambda>_.
     validate_protected_directory))"

section \<open>Writing\<close>

definition metadata_name :: "string \<Rightarrow> string" where
  "metadata_name session_id = session_id @ ''.json''"

definition metadata_temp_name :: "string \<Rightarrow> string" where
  "metadata_temp_name session_id = ''.'' @ session_id @ ''.tmp''"

definition create_metadata_file :: "string \<Rightarrow> unit meta" where
  "create_metadata_file name = attempt (\<lambda>w.
     if mw_files w name \<noteq> None then (Inl (OsError EEXIST ''exists''), w)
     else (Inr (), w\<lparr>mw_files := (mw_files w)(name \<mapsto>
       \<lparr>mf_content = [], mf_regular = True, mf_uid = mw_euid w, mf_mode = 0x180\<rparr>)\<rparr>))"

text \<open>A failing write may leave any part of the bytes in the file.\<close>

definition write_all :: "(nat \<Rightarrow> nat) \<Rightarrow> string \<Rightarrow> string \<Rightarrow> unit meta" where
  "write_all partial name bytes w =
     (let put = (\<lambda>s. (mw_files w)(name := map_option (\<lambda>f. f\<lparr>mf_content := mf_content f @ s\<rparr>) (mw_files w name)));
          w' = w\<lparr>mw_now := Suc (mw_now w)\<rparr> in
      case mw_fault w (mw_now w) of
        Some err \<Rightarrow> (Inl err, w'\<lparr>mw_files := put (take (partial (mw_now w)) bytes)\<rparr>)
      | None \<Rightarrow> (Inr (), w'\<lparr>mw_files := put bytes\<rparr>))"

definition sync_all :: "unit meta" where
  "sync_all = attempt (return_io ())"

definition rename :: "string \<Rightarrow> string \<Rightarrow> unit meta" where
  "rename old new = attempt (\<lambda>w.
     case mw_files w old of
       None \<Rightarrow> (Inl (OsError ENOENT ''not found''), w)
     | Some f \<Rightarrow> (Inr (), w\<lparr>mw_files := (mw_files w)(new \<mapsto> f, old := None)\<rparr>))"

definition remove_file :: "string \<Rightarrow> unit meta" where
  "remove_file name = attempt (\<lambda>w.
     if mw_files w name = None then (Inl (OsError ENOENT ''not found''), w)
     else (Inr (), w\<lparr>mw_files := (mw_files w)(name := None)\<rparr>))"

definition write_steps :: "(nat \<Rightarrow> nat) \<Rightarrow> (string, io_error) result \<Rightarrow> string \<Rightarrow> unit meta" where
  "write_steps partial encoded session_id =
     bind_io (lift_result encoded) (\<lambda>bytes.
     bind_io (create_metadata_file (metadata_temp_name session_id)) (\<lambda>_.
     bind_io (write_all partial (metadata_temp_name session_id) bytes) (\<lambda>_.
     bind_io sync_all (\<lambda>_.
     bind_io (rename (metadata_temp_name session_id) (metadata_name session_id)) (\<lambda>_.
     bind_io (attempt (return_io ())) (\<lambda>_.
     sync_all))))))"

text \<open>The removal of the temporary file is attempted after an error; its own failure is only logged.\<close>

definition or_remove_temp :: "string \<Rightarrow> unit meta \<Rightarrow> unit meta" where
  "or_remove_temp session_id m w =
     (case m w of
        (Inr u, w') \<Rightarrow> (Inr u, w')
      | (Inl err, w') \<Rightarrow> (Inl err, snd (remove_file (metadata_temp_name session_id) w')))"

definition write_metadata ::
  "(nat \<Rightarrow> nat) \<Rightarrow> (durable_session_metadata \<Rightarrow> (string, io_error) result) \<Rightarrow> durable_session_metadata \<Rightarrow> unit meta" where
  "write_metadata partial to_json metadata =
     bind_io prepare_protected_directory (\<lambda>_.
     or_remove_temp (dm_session_id metadata) (write_steps partial (to_json metadata) (dm_session_id metadata)))"

section \<open>Reading and removing\<close>

definition read_metadata ::
  "(string \<Rightarrow> (durable_session_metadata, io_error) result) \<Rightarrow> string \<Rightarrow> durable_session_metadata meta" where
  "read_metadata of_json name = attempt (\<lambda>w.
     case mw_files w name of
       None \<Rightarrow> (Inl (OsError ENOENT ''not found''), w)
     | Some f \<Rightarrow>
         if \<not> mf_regular f \<or> mf_uid f \<noteq> mw_euid w \<or> mf_mode f AND 0x3F \<noteq> 0
         then (Inl (OtherError ''unprotected session metadata''), w)
         else (of_json (mf_content f), w))"

definition remove_metadata :: "string \<Rightarrow> unit meta" where
  "remove_metadata session_id w = (Inr (), snd (remove_file (metadata_name session_id) w))"

text \<open>\<^verbatim>\<open>remove_path\<close> on a workspace: the inspection, then the removal; failures are only logged.\<close>

definition remove_workspace :: "string \<Rightarrow> unit meta" where
  "remove_workspace name w =
     (Inr (), snd (bind_io (attempt (return_io ())) (\<lambda>_.
        attempt (update_world (\<lambda>w. w\<lparr>mw_workspaces := (mw_workspaces w)(name := None)\<rparr>))) w))"

section \<open>Atomic replacement\<close>

text \<open>A step that touches no file but the temporary one of a session.\<close>

definition keeps_records :: "string \<Rightarrow> meta_world \<Rightarrow> meta_world \<Rightarrow> bool" where
  "keeps_records session_id w w' \<longleftrightarrow>
     (\<forall>name. name \<noteq> metadata_temp_name session_id \<longrightarrow> mw_files w' name = mw_files w name)
     \<and> mw_workspaces w' = mw_workspaces w \<and> mw_euid w' = mw_euid w"

interpretation keeping: effect_rel "keeps_records session_id" for session_id
proof
  show "keeps_records session_id w w" for w by (simp add: keeps_records_def)
  show "keeps_records session_id u w" if "keeps_records session_id u v" "keeps_records session_id v w" for u v w
    using that by (auto simp: keeps_records_def)
qed

lemma attempt_keeps: "keeping.obeys sid m \<Longrightarrow> keeping.obeys sid (attempt m)"
proof -
  assume m: "keeping.obeys sid m"
  have "keeps_records sid w (w\<lparr>mw_now := n\<rparr>)" for w n by (simp add: keeps_records_def)
  with m show ?thesis
    by (auto simp: keeping.obeys_def attempt_def Let_def split: option.split intro: keeping.R_trans)
qed

lemma root_keeps: "keeping.obeys sid prepare_protected_directory"
  unfolding prepare_protected_directory_def validate_protected_directory_def
  by (intro keeping.obeys_bind attempt_keeps)
    (auto simp: keeping.obeys_def update_world_def keeps_records_def create_root_def protect_root_def split: option.split)

lemma create_metadata_keeps: "keeping.obeys sid (create_metadata_file (metadata_temp_name sid))"
  unfolding create_metadata_file_def by (intro attempt_keeps) (simp add: keeping.obeys_def keeps_records_def)

lemma write_all_keeps: "keeping.obeys sid (write_all partial (metadata_temp_name sid) bytes)"
  by (simp add: keeping.obeys_def write_all_def Let_def keeps_records_def split: option.split)

lemma sync_keeps: "keeping.obeys sid sync_all" "keeping.obeys sid (attempt (return_io ()))"
  unfolding sync_all_def by (intro attempt_keeps keeping.obeys_return)+

lemma remove_temp_keeps: "keeping.obeys sid (remove_file (metadata_temp_name sid))"
  unfolding remove_file_def by (intro attempt_keeps) (simp add: keeping.obeys_def keeps_records_def)

lemma names_differ [simp]: "metadata_name sid \<noteq> metadata_temp_name sid"
  unfolding metadata_name_def metadata_temp_name_def
proof
  assume "sid @ ''.json'' = ''.'' @ sid @ ''.tmp''"
  then have "last (sid @ ''.json'') = last (''.'' @ sid @ ''.tmp'')" by (rule arg_cong)
  then show False by simp
qed

definition record_file :: "string \<Rightarrow> u32 \<Rightarrow> meta_file" where
  "record_file bytes euid = \<lparr>mf_content = bytes, mf_regular = True, mf_uid = euid, mf_mode = 0x180\<rparr>"

lemma create_metadata_ok:
  assumes "create_metadata_file name w = (Inr u, v)"
  shows "mw_files v name = Some (record_file [] (mw_euid w)) \<and> mw_euid v = mw_euid w"
  using assms by (auto simp: create_metadata_file_def attempt_def Let_def record_file_def split: option.splits if_splits)

lemma write_all_ok:
  assumes "write_all partial name bytes w = (Inr u, v)"
  shows "mw_files v name = map_option (\<lambda>f. f\<lparr>mf_content := mf_content f @ bytes\<rparr>) (mw_files w name) \<and> mw_euid v = mw_euid w"
  using assms by (auto simp: write_all_def Let_def split: option.splits)

lemma sync_ok: "sync_all w = (r, v) \<Longrightarrow> mw_files v = mw_files w \<and> mw_euid v = mw_euid w"
  by (auto simp: sync_all_def attempt_def Let_def return_io_def split: option.splits)

lemma rename_result:
  assumes "rename old new w = (r, v)"
  shows "(\<exists>e. r = Inl e) \<and> mw_files v = mw_files w \<and> mw_workspaces v = mw_workspaces w \<and> mw_euid v = mw_euid w
    \<or> r = Inr () \<and> (\<exists>f. mw_files w old = Some f \<and> mw_files v = (mw_files w)(new \<mapsto> f, old := None))
        \<and> mw_workspaces v = mw_workspaces w \<and> mw_euid v = mw_euid w"
  using assms by (auto simp: rename_def attempt_def Let_def split: option.splits)

text \<open>The record of one session before and after: old, or complete and new.\<close>

definition replaced :: "string \<Rightarrow> (string, io_error) result \<Rightarrow> (unit, io_error) result \<Rightarrow> meta_world \<Rightarrow> meta_world \<Rightarrow> bool" where
  "replaced sid encoded r w w' \<longleftrightarrow>
     (\<forall>name. name \<noteq> metadata_name sid \<longrightarrow> name \<noteq> metadata_temp_name sid \<longrightarrow> mw_files w' name = mw_files w name)
     \<and> mw_workspaces w' = mw_workspaces w \<and> mw_euid w' = mw_euid w
     \<and> (\<exists>bytes. encoded = Inr bytes \<and> mw_files w' (metadata_name sid) = Some (record_file bytes (mw_euid w))
        \<or> r \<noteq> Inr () \<and> mw_files w' (metadata_name sid) = mw_files w (metadata_name sid))"

lemma keeps_replaced: "keeps_records sid w w' \<Longrightarrow> replaced sid encoded (Inl e) w w'"
  by (simp add: keeps_records_def replaced_def)

lemma keeps_then_replaced: "keeps_records sid w v \<Longrightarrow> replaced sid encoded r v w' \<Longrightarrow> replaced sid encoded r w w'"
  by (auto simp: keeps_records_def replaced_def)

lemma replaced_then_keeps:
  "replaced sid encoded (Inr ()) w v \<Longrightarrow> keeps_records sid v w' \<Longrightarrow> replaced sid encoded r w w'"
  by (auto simp: keeps_records_def replaced_def)

lemma write_tail:
  assumes "bind_io (rename (metadata_temp_name sid) (metadata_name sid)) (\<lambda>_. bind_io (attempt (return_io ())) (\<lambda>_. sync_all)) w = (r, w')"
    and "mw_files w (metadata_temp_name sid) = Some (record_file bytes (mw_euid w))"
  shows "replaced sid (Inr bytes) r w w'"
  using assms(1)
proof (cases rule: bind_ioE)
  case (err e)
  with rename_result [OF err(1)] have "keeps_records sid w w'" by (auto simp: keeps_records_def)
  with err(2) show ?thesis by (simp add: keeps_replaced)
next
  case (ok u v)
  with rename_result [OF ok(1)] assms(2) have "replaced sid (Inr bytes) (Inr ()) w v"
    by (auto simp: replaced_def fun_upd_def)
  moreover have "keeping.obeys sid (bind_io (attempt (return_io ())) (\<lambda>_. sync_all))"
    by (intro keeping.obeys_bind sync_keeps)
  from keeping.obeysD [OF this ok(2)] have "keeps_records sid v w'" .
  ultimately show ?thesis by (rule replaced_then_keeps)
qed

lemma write_steps_replaced:
  assumes "write_steps partial encoded sid w = (r, w')"
  shows "replaced sid encoded r w w'"
  using assms unfolding write_steps_def
proof (cases rule: bind_ioE)
  case (err e)
  then show ?thesis by (simp add: lift_result_def keeps_replaced keeping.R_refl)
next
  case (ok bytes v0)
  then have enc: "encoded = Inr bytes" "v0 = w" by (simp_all add: lift_result_def)
  from ok(2) show ?thesis
  proof (cases rule: bind_ioE)
    case (err e)
    with enc keeping.obeysD [OF create_metadata_keeps err(1)] show ?thesis by (simp add: keeps_replaced)
  next
    case created: (ok u v1)
    note k1 = keeping.obeysD [OF create_metadata_keeps created(1), unfolded enc(2)]
    from created(2) show ?thesis
    proof (cases rule: bind_ioE)
      case (err e)
      with keeping.R_trans [OF k1 keeping.obeysD [OF write_all_keeps err(1)]] show ?thesis by (simp add: keeps_replaced)
    next
      case written: (ok u v2)
      note k2 = keeping.R_trans [OF k1 keeping.obeysD [OF write_all_keeps written(1)]]
      from written(2) show ?thesis
      proof (cases rule: bind_ioE)
        case (err e)
        with keeping.R_trans [OF k2 keeping.obeysD [OF sync_keeps(1) err(1)]] show ?thesis by (simp add: keeps_replaced)
      next
        case synced: (ok u v3)
        note k3 = keeping.R_trans [OF k2 keeping.obeysD [OF sync_keeps(1) synced(1)]]
        have "mw_files v3 (metadata_temp_name sid) = Some (record_file bytes (mw_euid v3))"
          using create_metadata_ok [OF created(1)] write_all_ok [OF written(1)] sync_ok [OF synced(1)]
          by (simp add: record_file_def)
        from keeps_then_replaced [OF k3 write_tail [OF synced(2) this]] enc show ?thesis by simp
      qed
    qed
  qed
qed

lemma write_metadata_replaced:
  assumes "write_metadata partial to_json m w = (r, w')"
  shows "replaced (dm_session_id m) (to_json m) r w w'"
  using assms unfolding write_metadata_def
proof (cases rule: bind_ioE)
  case (err e)
  with keeping.obeysD [OF root_keeps err(1)] show ?thesis by (simp add: keeps_replaced)
next
  case (ok u v)
  let ?sid = "dm_session_id m"
  note k = keeping.obeysD [OF root_keeps ok(1), of ?sid]
  obtain r1 v1 where s: "write_steps partial (to_json m) ?sid v = (r1, v1)" by fastforce
  note rep = write_steps_replaced [OF s]
  show ?thesis
  proof (cases r1)
    case (Inr x)
    with ok(2) s have "r = r1" "w' = v1" by (simp_all add: or_remove_temp_def)
    with keeps_then_replaced [OF k rep] show ?thesis by simp
  next
    case (Inl e)
    with ok(2) s have r: "r = Inl e" and w': "w' = snd (remove_file (metadata_temp_name ?sid) v1)" by (simp_all add: or_remove_temp_def)
    have "keeps_records ?sid v1 w'" unfolding w' using remove_temp_keeps [of ?sid] by (simp add: keeping.obeys_def)
    with rep Inl r have "replaced ?sid (to_json m) r v w'" by (auto simp: replaced_def keeps_records_def)
    with keeps_then_replaced [OF k] show ?thesis by blast
  qed
qed

text \<open>
  C8. Session metadata is replaced atomically under every schedule of faults: after a write, with or
  without an error and also when the error comes after the rename, the record of the session is the
  complete new one or, only after an error, the unchanged old one. A successful write is complete and
  reads back as what was written. No other record and no workspace is touched. The hypothesis is that
  decoding inverts encoding.
\<close>

theorem write_metadata_atomic:
  assumes "write_metadata partial to_json m w = (r, w')"
    and "\<And>bytes. to_json m = Inr bytes \<Longrightarrow> of_json bytes = Inr m"
  shows "replaced (dm_session_id m) (to_json m) r w w'
    \<and> (r = Inr () \<longrightarrow> mw_fault w' (mw_now w') = None
        \<longrightarrow> fst (read_metadata of_json (metadata_name (dm_session_id m)) w') = Inr m)"
proof (intro conjI impI)
  show rep: "replaced (dm_session_id m) (to_json m) r w w'" by (rule write_metadata_replaced [OF assms(1)])
  assume "r = Inr ()" "mw_fault w' (mw_now w') = None"
  with rep assms(2) show "fst (read_metadata of_json (metadata_name (dm_session_id m)) w') = Inr m"
    by (auto simp: replaced_def read_metadata_def attempt_def Let_def record_file_def)
qed

definition sample_metadata :: durable_session_metadata where
  "sample_metadata = \<lparr>dm_version = 3, dm_session_id = ''ses_1'', dm_task_id = ''web'', dm_workspace_revision = 0,
     dm_state = DurableReady, dm_services = []\<rparr>"

text \<open>The directory exists but is group readable; the synchronisation after the rename fails.\<close>

definition sample_meta_world :: meta_world where
  "sample_meta_world = \<lparr>mw_root = Some \<lparr>dt_real_directory = True, dt_uid = 0, dt_mode = 0x1ED\<rparr>,
     mw_files = [''ses_1.json'' \<mapsto> record_file ''old'' 0], mw_workspace_root = True,
     mw_workspaces = [''session-ses_1'' \<mapsto> True], mw_teardowns = [], mw_euid = 0, mw_now = 0,
     mw_fault = (\<lambda>i. if i = 8 then Some (OsError 5 ''io'') else None)\<rparr>"

definition sample_to_json :: "durable_session_metadata \<Rightarrow> (string, io_error) result" where
  "sample_to_json m = Inr ''new''"

definition sample_of_json :: "string \<Rightarrow> (durable_session_metadata, io_error) result" where
  "sample_of_json s = (if s = ''new'' then Inr sample_metadata else Inl (OtherError ''json''))"

theorem write_metadata_atomic_witness:
  "fst (write_metadata (\<lambda>_. 1) sample_to_json sample_metadata sample_meta_world) = Inl (OsError 5 ''io'')
   \<and> replaced ''ses_1'' (Inr ''new'') (Inl (OsError 5 ''io'')) sample_meta_world
       (snd (write_metadata (\<lambda>_. 1) sample_to_json sample_metadata sample_meta_world))
   \<and> mw_files (snd (write_metadata (\<lambda>_. 1) sample_to_json sample_metadata sample_meta_world)) ''ses_1.json''
       = Some (record_file ''new'' 0)"
proof -
  let ?run = "write_metadata (\<lambda>_. 1) sample_to_json sample_metadata sample_meta_world"
  note run = write_metadata_def prepare_protected_directory_def validate_protected_directory_def bind_io_def attempt_def
    update_world_def create_root_def protect_root_def or_remove_temp_def write_steps_def lift_result_def create_metadata_file_def
    write_all_def sync_all_def rename_def remove_file_def return_io_def metadata_temp_name_def metadata_name_def record_file_def
    sample_to_json_def sample_metadata_def sample_meta_world_def Let_def
  have 1: "fst ?run = Inl (OsError 5 ''io'')" by (simp add: run)
  moreover have "mw_files (snd ?run) ''ses_1.json'' = Some (record_file ''new'' 0)" by (simp add: run)
  moreover have "?run = (fst ?run, snd ?run)" by simp
  from write_metadata_atomic [OF this, of sample_of_json] 1
  have "replaced ''ses_1'' (Inr ''new'') (Inl (OsError 5 ''io'')) sample_meta_world (snd ?run)"
    by (simp add: sample_to_json_def sample_of_json_def sample_metadata_def)
  ultimately show ?thesis by blast
qed

end
