(* ===== verification/Stale_Sessions.thy ===== *)
theory Stale_Sessions
  imports Session_Metadata
begin

text \<open>
  Sessions a previous daemon left behind: \<^verbatim>\<open>reconcile_stale_sessions\<close> of \<^verbatim>\<open>src/sessions.rs\<close> with the wait
  for recorded services, over the world of \<open>Session_Metadata\<close>. Directory listings are arguments that
  read the world. The teardown of a session is recorded; its result is ignored by the code.
\<close>

section \<open>Recorded services\<close>

definition process_exists :: "u32 \<Rightarrow> kill_result \<Rightarrow> bool" where
  "process_exists pid r \<longleftrightarrow> unat pid < 2 ^ 31 \<and> (case r of None \<Rightarrow> True | Some err \<Rightarrow> raw_os_error err = Some EPERM)"

text \<open>
  What the wait for one service observes: each probe of its supervisor with the time since the start,
  the probe after the loop, the probe of the service's group and that of its leader.
\<close>

record service_watch =
  sw_supervisor :: "nat \<Rightarrow> kill_result"
  sw_elapsed :: "nat \<Rightarrow> nat"
  sw_last :: kill_result
  sw_group :: kill_result
  sw_leader :: kill_result

definition shutdown_deadline :: "durable_service_process \<Rightarrow> nat" where
  "shutdown_deadline s = secs (ds_shutdown_timeout_sec s) + secs 6"

definition supervisor_wait_body :: "service_watch \<Rightarrow> durable_service_process \<Rightarrow> unit \<Rightarrow> nat \<Rightarrow> unit + unit" where
  "supervisor_wait_body w s _ i =
     (if process_exists (ds_supervisor_pid s) (sw_supervisor w i) \<and> sw_elapsed w i < shutdown_deadline s then Inl () else Inr ())"

text \<open>A group that cannot be probed counts as live.\<close>

definition group_live :: "kill_result \<Rightarrow> bool" where
  "group_live r = (case process_group_exists r of Inr b \<Rightarrow> b | Inl _ \<Rightarrow> True)"

definition await_service :: "service_watch \<Rightarrow> durable_service_process \<Rightarrow> (unit, io_error) result option" where
  "await_service w s =
     map_option (\<lambda>_.
       if process_exists (ds_supervisor_pid s) (sw_last w)
       then Inl (OtherError (''recorded service supervisor '' @ show_nat (unat (ds_supervisor_pid s))
         @ '' is still live; refusing unsafe stale cleanup''))
       else if process_exists (ds_service_pid s) (sw_leader w) \<or> group_live (sw_group w)
       then Inl (OtherError (''recorded service '' @ ds_name s
         @ '' survived its supervisor; refusing PID-reuse-unsafe stale cleanup''))
       else Inr ())
     (poll (supervisor_wait_body w s) () 0)"

fun await_services :: "(durable_service_process \<Rightarrow> service_watch) \<Rightarrow> durable_service_process list \<Rightarrow> (unit, io_error) result option" where
  "await_services watches [] = Some (Inr ())"
| "await_services watches (s # ss) =
     (case await_service (watches s) s of
        None \<Rightarrow> None
      | Some (Inl err) \<Rightarrow> Some (Inl err)
      | Some (Inr _) \<Rightarrow> await_services watches ss)"

definition await_stale_service_shutdown ::
  "(durable_service_process \<Rightarrow> service_watch) \<Rightarrow> durable_session_metadata \<Rightarrow> (unit, io_error) result option" where
  "await_stale_service_shutdown watches m = await_services watches (rev (dm_services m))"

section \<open>One entry of the metadata directory\<close>

datatype stale_failure = StaleFailed io_error | StaleNoReturn

type_synonym 'a stale = "(meta_world, 'a, stale_failure) eff"

record stale_env =
  st_config :: config
  st_of_json :: "string \<Rightarrow> (durable_session_metadata, io_error) result"
  st_watches :: "durable_service_process \<Rightarrow> service_watch"
  st_list_metadata :: "meta_world \<Rightarrow> string list"
  st_list_workspaces :: "meta_world \<Rightarrow> string list"

definition lift_meta :: "'a meta \<Rightarrow> 'a stale" where
  "lift_meta = map_err_io StaleFailed"

definition lift_wait :: "(unit, io_error) result option \<Rightarrow> unit stale" where
  "lift_wait r = (case r of None \<Rightarrow> fail_io StaleNoReturn | Some r \<Rightarrow> lift_result (map_err StaleFailed r))"

text \<open>\<^verbatim>\<open>file_stem\<close> of a name with extension \<^verbatim>\<open>json\<close>, when it is UTF-8.\<close>

definition stale_session_id :: "string \<Rightarrow> string option" where
  "stale_session_id name =
     (case strip_suffix ''.json'' name of
        Some stem \<Rightarrow> if stem \<noteq> [] \<and> is_utf8 stem then Some stem else None
      | None \<Rightarrow> None)"

definition workspace_name :: "string \<Rightarrow> string" where
  "workspace_name session_id = ''session-'' @ session_id"

definition remove_metadata_path :: "string \<Rightarrow> unit stale" where
  "remove_metadata_path name w =
     (Inr (), snd (bind_io (attempt (return_io ())) (\<lambda>_.
        attempt (update_world (\<lambda>w. w\<lparr>mw_files := (mw_files w)(name := None)\<rparr>))) w))"

definition acceptable :: "string \<Rightarrow> durable_session_metadata \<Rightarrow> bool" where
  "acceptable session_id m \<longleftrightarrow> (dm_version m = 2 \<or> dm_version m = METADATA_VERSION) \<and> dm_session_id m = session_id"

definition valid_metadata ::
  "(string \<Rightarrow> (durable_session_metadata, io_error) result) \<Rightarrow> string \<Rightarrow> string \<Rightarrow> durable_session_metadata option stale" where
  "valid_metadata of_json name session_id w =
     (case read_metadata of_json name w of
        (Inr m, w') \<Rightarrow> (Inr (if acceptable session_id m then Some m else None), w')
      | (Inl _, w') \<Rightarrow> (Inr None, w'))"

text \<open>\<^verbatim>\<open>is_dir\<close> is false on every error.\<close>

definition workspace_is_dir :: "string \<Rightarrow> bool stale" where
  "workspace_is_dir name w =
     (Inr (mw_fault w (mw_now w) = None \<and> mw_workspaces w name = Some True), w\<lparr>mw_now := Suc (mw_now w)\<rparr>)"

definition has_session :: "config \<Rightarrow> string \<Rightarrow> bool" where
  "has_session c task_id = (case map_of (cf_tasks c) task_id of Some t \<Rightarrow> tc_session t \<noteq> None | None \<Rightarrow> False)"

definition run_teardown :: "string \<Rightarrow> string \<Rightarrow> unit stale" where
  "run_teardown task_id session_id w = (Inr (), w\<lparr>mw_teardowns := mw_teardowns w @ [(task_id, session_id)]\<rparr>)"

definition stale_teardown :: "config \<Rightarrow> string \<Rightarrow> durable_session_metadata \<Rightarrow> unit stale" where
  "stale_teardown c session_id m =
     (if has_session c (dm_task_id m)
      then bind_io (workspace_is_dir (workspace_name session_id)) (\<lambda>d.
        if d then run_teardown (dm_task_id m) session_id else return_io ())
      else return_io ())"

definition remove_session_files :: "string \<Rightarrow> unit stale" where
  "remove_session_files session_id =
     lift_meta (bind_io (remove_workspace (workspace_name session_id)) (\<lambda>_. remove_metadata session_id))"

definition reconcile_entry :: "stale_env \<Rightarrow> string \<Rightarrow> unit stale" where
  "reconcile_entry e name =
     bind_io (lift_meta (attempt (return_io ()))) (\<lambda>_.
     case stale_session_id name of
       None \<Rightarrow> remove_metadata_path name
     | Some session_id \<Rightarrow>
         bind_io (valid_metadata (st_of_json e) name session_id) (\<lambda>metadata.
         bind_io (case metadata of
             None \<Rightarrow> return_io ()
           | Some m \<Rightarrow>
               bind_io (lift_wait (await_stale_service_shutdown (st_watches e) m)) (\<lambda>_.
               stale_teardown (st_config e) session_id m)) (\<lambda>_.
         remove_session_files session_id)))"

section \<open>Reconciliation\<close>

definition sweep_workspace :: "string \<Rightarrow> unit stale" where
  "sweep_workspace name =
     bind_io (lift_meta (attempt (return_io ()))) (\<lambda>_.
     if is_utf8 name \<and> take 12 name = ''session-ses_'' then lift_meta (remove_workspace name) else return_io ())"

text \<open>\<^verbatim>\<open>symlink_metadata\<close> of the metadata root; only its absence is accepted.\<close>

definition root_exists :: "bool stale" where
  "root_exists = lift_meta (attempt (\<lambda>w. (Inr (mw_root w \<noteq> None), w)))"

definition reconcile_records :: "stale_env \<Rightarrow> unit stale" where
  "reconcile_records e =
     bind_io (lift_meta validate_protected_directory) (\<lambda>_.
     bind_io (lift_meta (attempt (\<lambda>w. (Inr (st_list_metadata e w), w)))) (\<lambda>names.
     for_io names (reconcile_entry e)))"

definition sweep_workspaces :: "stale_env \<Rightarrow> unit stale" where
  "sweep_workspaces e w =
     (if mw_workspace_root w
      then bind_io (lift_meta (attempt (\<lambda>w. (Inr (st_list_workspaces e w), w)))) (\<lambda>names. for_io names sweep_workspace) w
      else (Inr (), w))"

definition reconcile_stale_sessions :: "stale_env \<Rightarrow> unit stale" where
  "reconcile_stale_sessions e =
     bind_io root_exists (\<lambda>present.
     bind_io (if present then reconcile_records e else return_io ()) (\<lambda>_.
     sweep_workspaces e))"

section \<open>The wait\<close>




text \<open>A service of which a process was seen alive when it mattered.\<close>

definition seen_alive :: "service_watch \<Rightarrow> durable_service_process \<Rightarrow> bool" where
  "seen_alive w s \<longleftrightarrow> process_exists (ds_supervisor_pid s) (sw_last w)
     \<or> process_exists (ds_service_pid s) (sw_leader w) \<or> group_live (sw_group w)"




section \<open>Without faults\<close>

definition faultless :: "meta_world \<Rightarrow> bool" where
  "faultless w \<longleftrightarrow> mw_fault w = (\<lambda>_. None)"


lemma faultless_simps [simp]:
  "faultless (w\<lparr>mw_now := n\<rparr>) = faultless w" "faultless (w\<lparr>mw_files := fs\<rparr>) = faultless w"
  "faultless (w\<lparr>mw_workspaces := ws\<rparr>) = faultless w" "faultless (w\<lparr>mw_teardowns := ts\<rparr>) = faultless w"
  by (simp_all add: faultless_def)



text \<open>The record of a session that reconciliation takes into account.\<close>

definition stale_record ::
  "(string \<Rightarrow> (durable_session_metadata, io_error) result) \<Rightarrow> meta_world \<Rightarrow> string \<Rightarrow> durable_session_metadata option" where
  "stale_record of_json w sid =
     (case mw_files w (metadata_name sid) of
        None \<Rightarrow> None
      | Some f \<Rightarrow>
          if mf_regular f \<and> mf_uid f = mw_euid w \<and> mf_mode f AND 0x3F = 0
          then (case of_json (mf_content f) of Inr m \<Rightarrow> if acceptable sid m then Some m else None | Inl _ \<Rightarrow> None)
          else None)"

definition session_name :: "string \<Rightarrow> bool" where
  "session_name sid \<longleftrightarrow> sid \<noteq> [] \<and> is_utf8 sid"

lemma stale_session_id_Some: "stale_session_id name = Some sid \<longleftrightarrow> name = metadata_name sid \<and> session_name sid"
  by (auto simp: stale_session_id_def session_name_def metadata_name_def strip_suffix_Some_iff split: option.splits if_splits)
    (metis option.simps(3) strip_suffix_Some_iff)+









text \<open>Whether the wait for a recorded session succeeds.\<close>

definition dead :: "stale_env \<Rightarrow> meta_world \<Rightarrow> string \<Rightarrow> bool" where
  "dead e w sid \<longleftrightarrow> (\<forall>m. stale_record (st_of_json e) w sid = Some m \<longrightarrow> (\<forall>s \<in> set (dm_services m). \<not> seen_alive (st_watches e s) s))"

definition entry_dead :: "stale_env \<Rightarrow> meta_world \<Rightarrow> string \<Rightarrow> bool" where
  "entry_dead e w name \<longleftrightarrow> (\<forall>sid. stale_session_id name = Some sid \<longrightarrow> dead e w sid)"


section \<open>The loops\<close>








section \<open>Reconciliation fails closed\<close>



text \<open>A recorded session of which a process was seen alive.\<close>

definition live :: "stale_env \<Rightarrow> meta_world \<Rightarrow> string \<Rightarrow> bool" where
  "live e w sid \<longleftrightarrow> session_name sid \<and> \<not> dead e w sid"

lemma live_entry: "live e w sid \<longleftrightarrow> stale_session_id (metadata_name sid) = Some sid \<and> \<not> entry_dead e w (metadata_name sid)"
  by (auto simp: live_def entry_dead_def stale_session_id_Some metadata_name_def)







section \<open>A session whose supervisor is still running\<close>

definition sample_service :: durable_service_process where
  "sample_service = \<lparr>ds_name = ''metro'', ds_supervisor_pid = 42, ds_service_pid = 43, ds_service_pgid = 43, ds_shutdown_timeout_sec = 1\<rparr>"

definition sample_stale :: "(nat \<Rightarrow> io_error option) \<Rightarrow> meta_world" where
  "sample_stale fault = \<lparr>mw_root = Some \<lparr>dt_real_directory = True, dt_uid = 0, dt_mode = 0x1C0\<rparr>,
     mw_files = [''ses_1.json'' \<mapsto> record_file ''new'' 0], mw_workspace_root = True,
     mw_workspaces = [''session-ses_1'' \<mapsto> True], mw_teardowns = [], mw_euid = 0, mw_now = 0, mw_fault = fault\<rparr>"

definition sample_stale_json :: "string \<Rightarrow> (durable_session_metadata, io_error) result" where
  "sample_stale_json s = Inr (sample_metadata\<lparr>dm_services := [sample_service]\<rparr>)"

text \<open>A supervisor that is seen running at every probe.\<close>

definition sample_watch :: service_watch where
  "sample_watch = \<lparr>sw_supervisor = \<lambda>_. None, sw_elapsed = \<lambda>i. i * millis 25, sw_last = None, sw_group = None, sw_leader = None\<rparr>"

definition sample_stale_env :: stale_env where
  "sample_stale_env = \<lparr>st_config = sample_config, st_of_json = sample_stale_json, st_watches = \<lambda>_. sample_watch,
     st_list_metadata = \<lambda>v. filter (\<lambda>n. mw_files v n \<noteq> None) [''ses_1.json''],
     st_list_workspaces = \<lambda>v. filter (\<lambda>n. mw_workspaces v n \<noteq> None) [''session-ses_1'']\<rparr>"


lemma sample_live: "live sample_stale_env (sample_stale fault) ''ses_1''"
proof -
  have "is_utf8 ''ses_1''" by code_simp
  moreover have "seen_alive sample_watch sample_service"
    by (simp add: seen_alive_def process_exists_def sample_watch_def sample_service_def)
  moreover have "stale_record sample_stale_json (sample_stale fault) ''ses_1'' = Some (sample_metadata\<lparr>dm_services := [sample_service]\<rparr>)"
    by (simp add: stale_record_def sample_stale_def metadata_name_def record_file_def sample_stale_json_def acceptable_def
        sample_metadata_def METADATA_VERSION_def)
  ultimately show ?thesis by (simp add: live_def dead_def session_name_def sample_stale_env_def)
qed


text \<open>
  The same session when the read of its record fails: its workspace and its record are removed and
  reconciliation succeeds, although the recorded supervisor is running. The fault is the one of the
  read, the fifth file-system operation.
\<close>

lemma unreadable_record_is_cleaned:
  "let (r, w') = reconcile_stale_sessions sample_stale_env (sample_stale (\<lambda>i. if i = 4 then Some (OsError 5 ''io'') else None))
   in r = Inr () \<and> mw_files w' = Map.empty \<and> mw_workspaces w' = Map.empty
     \<and> live sample_stale_env (sample_stale (\<lambda>i. if i = 4 then Some (OsError 5 ''io'') else None)) ''ses_1''"
proof -
  have "stale_session_id ''ses_1.json'' = Some ''ses_1''"
    using sample_live [of "\<lambda>_. None"] by (simp add: live_entry metadata_name_def)
  then show ?thesis
    by (simp add: sample_live)
      (simp add: reconcile_stale_sessions_def root_exists_def lift_meta_def map_err_io_def attempt_def Let_def bind_io_def
        reconcile_records_def validate_protected_directory_def sample_stale_env_def sample_stale_def reconcile_entry_def
        return_io_def valid_metadata_def read_metadata_def remove_session_files_def remove_workspace_def remove_metadata_def
        remove_file_def update_world_def workspace_name_def metadata_name_def sweep_workspaces_def)
qed

end
