(* ===== verification/Services.thy ===== *)
theory Services
  imports Session_State Process Source_Archive
begin

text \<open>
  Retained services, from \<^verbatim>\<open>src/services.rs\<close>: the status channel between a supervisor and the daemon,
  readiness, the diagnostic tail, and stopping a service on either side. What the loops observe of
  processes, threads and clocks is an argument; a loop that does not return is \<^const>\<open>None\<close>.
\<close>

definition READY_MESSAGE :: string where "READY_MESSAGE = ''ready'' @ [CHR 0x0A]"

definition PROCESS_KILL_GRACE :: nat where "PROCESS_KILL_GRACE = 5000000000"

definition MAX_STATUS_BYTES :: nat where "MAX_STATUS_BYTES = 4096"

definition POLL_INTERVAL :: nat where "POLL_INTERVAL = millis 10"

definition ECHILD :: nat where "ECHILD = 10"

definition DURATION_MAX :: nat where "DURATION_MAX = (2 ^ 64 - 1) * 1000000000 + 999999999"

definition duration_add :: "nat \<Rightarrow> nat \<Rightarrow> nat" where
  "duration_add a b = min (a + b) DURATION_MAX"

section \<open>The status channel\<close>

datatype supervisor_status = SvSpawned u32 int | SvExited int | SvStopped | SvFailed string

datatype read_event = ReadData string | ReadEof | ReadWouldBlock | ReadFailed io_error

text \<open>
  One call of the reader: what it returns, the bytes left in its buffer and the reads left. When the
  pipe has nothing more to give it would block.
\<close>

fun try_read_status ::
  "(string \<Rightarrow> (supervisor_status, io_error) result) \<Rightarrow> string \<Rightarrow> read_event list
     \<Rightarrow> (supervisor_status option, io_error) result \<times> string \<times> read_event list" where
  "try_read_status of_json buffer reads =
     (if CHR 0x0A \<in> set buffer
      then (let line = takeWhile (\<lambda>c. c \<noteq> CHR 0x0A) buffer
        in (and_then (of_json line) (\<lambda>s. Inr (Some s)), drop (Suc (length line)) buffer, reads))
      else if MAX_STATUS_BYTES \<le> length buffer
      then (Inl (OtherError ''service supervisor status exceeded its bound''), buffer, reads)
      else
        (case reads of
           [] \<Rightarrow> (Inr None, buffer, [])
         | ReadEof # rs \<Rightarrow> (Inl (OtherError ''service supervisor status closed''), buffer, rs)
         | ReadData d # rs \<Rightarrow> try_read_status of_json (buffer @ d) rs
         | ReadWouldBlock # rs \<Rightarrow> (Inr None, buffer, rs)
         | ReadFailed err # rs \<Rightarrow> (Inl err, buffer, rs)))"

declare try_read_status.simps [simp del]

definition write_status :: "(supervisor_status \<Rightarrow> string) \<Rightarrow> supervisor_status \<Rightarrow> string" where
  "write_status to_json s = to_json s @ [CHR 0x0A]"

lemma line_unique:
  assumes "xs @ ys = m @ [c]" and "c \<in> set xs" and "c \<notin> set m"
  shows "xs = m @ [c]" and "ys = []"
proof -
  have "ys = []"
  proof (cases ys rule: rev_cases)
    case (snoc zs z)
    with assms(1) have "xs @ zs = m" by simp
    with assms(2,3) show ?thesis by auto
  qed
  with assms(1) show "xs = m @ [c]" and "ys = []" by simp_all
qed

text \<open>A status written at once is read back however the pipe cuts it into pieces.\<close>

lemma status_roundtrip:
  assumes "CHR 0x0A \<notin> set (to_json s)" and "length (to_json s) < MAX_STATUS_BYTES" and "of_json (to_json s) = Inr s"
    and "buffer @ concat pieces = write_status to_json s"
  shows "\<exists>rest. try_read_status of_json buffer (map ReadData pieces) = (Inr (Some s), [], map ReadData rest) \<and> concat rest = []"
  using assms(4)
proof (induction pieces arbitrary: buffer)
  case Nil
  then have b: "buffer = to_json s @ [CHR 0x0A]" by (simp add: write_status_def)
  have "takeWhile (\<lambda>c. c \<noteq> CHR 0x0A) buffer = to_json s"
    unfolding b using assms(1) by (subst takeWhile_append2) auto
  with b assms(3) show ?case by (intro exI [of _ "[]"]) (simp add: try_read_status.simps Let_def)
next
  case (Cons c cs)
  show ?case
  proof (cases "CHR 0x0A \<in> set buffer")
    case True
    note u = line_unique [OF Cons.prems [unfolded write_status_def] True assms(1)]
    then have b: "buffer = to_json s @ [CHR 0x0A]" and rest: "c = []" "concat cs = []" by simp_all
    have "takeWhile (\<lambda>c. c \<noteq> CHR 0x0A) buffer = to_json s"
      unfolding b using assms(1) by (subst takeWhile_append2) auto
    with b rest assms(3) True show ?thesis
      by (intro exI [of _ "c # cs"]) (simp add: try_read_status.simps Let_def)
  next
    case False
    have "length buffer + length (c @ concat cs) = Suc (length (to_json s))"
      using arg_cong [OF Cons.prems, of length] by (simp add: write_status_def)
    moreover have "buffer \<noteq> write_status to_json s" using False by (auto simp: write_status_def)
    moreover have "c @ concat cs \<noteq> []"
    proof
      assume "c @ concat cs = []"
      then have "concat (c # cs) = []" by simp
      with Cons.prems \<open>buffer \<noteq> write_status to_json s\<close> show False by (simp only: append_Nil2)
    qed
    ultimately have "length buffer < MAX_STATUS_BYTES" using assms(2) by (cases "c @ concat cs") simp_all
    with False Cons.IH [of "buffer @ c"] Cons.prems show ?thesis
      by (subst try_read_status.simps) simp
  qed
qed

section \<open>Readiness and output\<close>

text \<open>The readiness thread: at most one byte more than the message is read.\<close>

definition readiness_result :: "(bytes, string) result list \<Rightarrow> (unit, string) result" where
  "readiness_result reads =
     and_then (map_err (\<lambda>err. ''readiness read failed: '' @ err) (read_take (length READY_MESSAGE + 1) reads)) (\<lambda>bytes.
       ensure (bytes = READY_MESSAGE) (''readiness channel must contain exactly ready'' @ [CHR 0x5C] @ ''n and then close''))"

lemma read_take_all:
  assumes "list_all (\<lambda>b. b \<noteq> []) bs"
  shows "read_take n (map Inr bs) = Inr (take n (concat bs))"
  using assms by (induction bs arbitrary: n) (auto simp: result_simps)

text \<open>A service is ready exactly when all it ever writes is the message.\<close>

lemma readiness_exact:
  assumes "list_all (\<lambda>b. b \<noteq> []) bs"
  shows "readiness_result (map Inr bs) = Inr () \<longleftrightarrow> concat bs = READY_MESSAGE"
proof -
  have "take (Suc (length m)) xs = m \<longleftrightarrow> xs = m" for xs m :: string
    by (metis append_take_drop_id length_take min_def not_less_eq_eq nat_le_linear take_all Suc_n_not_le_n)
  then show ?thesis by (simp add: readiness_result_def result_simps read_take_all [OF assms])
qed

definition retain_tail :: "nat \<Rightarrow> string \<Rightarrow> string \<Rightarrow> string" where
  "retain_tail limit tail chunk = drop (length (tail @ chunk) - limit) (tail @ chunk)"

text \<open>The diagnostic tail is the last part of everything retained.\<close>

lemma retained_tail: "foldl (retain_tail limit) [] pieces = drop (length (concat pieces) - limit) (concat pieces)"
proof (induction pieces rule: rev_induct)
  case (snoc c cs)
  let ?all = "concat cs"
  have "drop (length (drop (length ?all - limit) ?all @ c) - limit) (drop (length ?all - limit) ?all @ c)
    = drop (length (?all @ c) - limit) (?all @ c)"
  proof (cases "length ?all \<le> limit")
    case False
    have "drop (length ?all - limit) ?all @ c = drop (length ?all - limit) (?all @ c)" by simp
    with False show ?thesis by (simp only: drop_drop) (simp add: add.commute)
  qed simp
  with snoc show ?case by (simp add: retain_tail_def)
qed simp

section \<open>Waiting for readiness\<close>

datatype recv = RecvReady | RecvRefused string | RecvTimeout | RecvDisconnected

text \<open>One iteration of \<^verbatim>\<open>wait_ready\<close>: the flags, the clock read twice, the channel and the flag after it.\<close>

record ready_poll =
  rp_failed :: bool
  rp_output_failed :: bool
  rp_cancelled :: bool
  rp_now :: nat
  rp_later :: nat
  rp_recv :: recv
  rp_failed_after :: bool

record thread_watch =
  tw_finished :: "nat \<Rightarrow> bool"
  tw_elapsed :: "nat \<Rightarrow> nat"
  tw_last :: bool
  tw_joined :: bool

definition wait_thread_finished :: "thread_watch \<Rightarrow> nat \<Rightarrow> bool option" where
  "wait_thread_finished w timeout =
     map_option (\<lambda>_. tw_last w)
       (poll (\<lambda>_ i. if \<not> tw_finished w i \<and> tw_elapsed w i < timeout then Inl () else Inr ()) () 0)"

definition join_thread_bounded :: "thread_watch \<Rightarrow> nat \<Rightarrow> bool option" where
  "join_thread_bounded w timeout = map_option (\<lambda>finished. finished \<and> tw_joined w) (wait_thread_finished w timeout)"

definition wait_ready_body ::
  "(nat \<Rightarrow> ready_poll) \<Rightarrow> thread_watch option \<Rightarrow> nat \<Rightarrow> nat \<Rightarrow> string \<Rightarrow> unit \<Rightarrow> nat \<Rightarrow> unit + (unit, build_error) result option" where
  "wait_ready_body polls thread startup_deadline session_deadline name _ i =
     (let p = polls i in
      if rp_failed p then Inr (Some (Inl (be_new ''service_exited'' (''service '' @ name @ '' exited before readiness''))))
      else if rp_output_failed p
      then Inr (Some (Inl (be_new ''service_output_failed'' (''service '' @ name @ '' startup output drain failed''))))
      else if rp_cancelled p then Inr (Some (Inl (be_new ''service_start_cancelled'' ''service startup was cancelled'')))
      else if min startup_deadline session_deadline \<le> rp_now p
      then Inr (Some (Inl (be_new (if session_deadline \<le> rp_later p then ''session_lifetime'' else ''service_start_timeout'')
        (''service '' @ name @ '' did not become ready''))))
      else
        (case rp_recv p of
           RecvReady \<Rightarrow>
             if rp_failed_after p then Inl ()
             else Inr (case thread of
                 None \<Rightarrow> Some (Inr ())
               | Some t \<Rightarrow> map_option (\<lambda>joined. ensure joined (be_new ''service_readiness''
                   ''service readiness monitor did not finish within its bound'')) (join_thread_bounded t PROCESS_KILL_GRACE))
         | RecvRefused message \<Rightarrow> Inr (Some (Inl (be_new ''service_readiness'' (''service '' @ name @ '': '' @ message))))
         | RecvTimeout \<Rightarrow> Inl ()
         | RecvDisconnected \<Rightarrow>
             Inr (Some (Inl (be_new ''service_readiness'' (''service '' @ name @ '' readiness monitor failed''))))))"

definition wait_ready ::
  "(nat \<Rightarrow> ready_poll) \<Rightarrow> thread_watch option \<Rightarrow> nat \<Rightarrow> nat \<Rightarrow> string \<Rightarrow> (unit, build_error) result option" where
  "wait_ready polls thread startup_deadline session_deadline name =
     Option.bind (poll (wait_ready_body polls thread startup_deadline session_deadline name) () 0) fst"

record status_poll =
  sq_cancelled :: bool
  sq_now :: nat
  sq_status :: "(supervisor_status option, io_error) result"

definition initial_status_body ::
  "(nat \<Rightarrow> status_poll) \<Rightarrow> string \<Rightarrow> nat \<Rightarrow> nat \<Rightarrow> unit \<Rightarrow> nat \<Rightarrow> unit + (supervisor_status, build_error) result" where
  "initial_status_body polls name startup_deadline session_deadline _ i =
     (let p = polls i in
      if sq_cancelled p
      then Inr (Inl (be_new ''service_start_cancelled'' (''service '' @ name @ '' supervisor startup was cancelled'')))
      else if startup_deadline \<le> sq_now p \<or> session_deadline \<le> sq_now p
      then Inr (Inl (be_new (if session_deadline \<le> sq_now p then ''session_lifetime'' else ''service_start_timeout'')
        (''service '' @ name @ '' supervisor did not report its process identity'')))
      else
        (case sq_status p of
           Inr (Some status) \<Rightarrow> Inr (Inr status)
         | Inr None \<Rightarrow> Inl ()
         | Inl err \<Rightarrow> Inr (Inl (be_new ''service_spawn_failed''
             (''service '' @ name @ '' supervisor failed before spawn: '' @ show_io_error err)))))"

definition wait_initial_status ::
  "(nat \<Rightarrow> status_poll) \<Rightarrow> string \<Rightarrow> nat \<Rightarrow> nat \<Rightarrow> (supervisor_status, build_error) result option" where
  "wait_initial_status polls name startup_deadline session_deadline =
     map_option fst (poll (initial_status_body polls name startup_deadline session_deadline) () 0)"

section \<open>Ending a service group\<close>

datatype reap = Reaped | NothingToReap | ReapFailed io_error

record reap_watch =
  rw_wait :: "nat \<Rightarrow> reap"
  rw_elapsed :: "nat \<Rightarrow> nat"

definition reap_body :: "reap_watch \<Rightarrow> unit \<Rightarrow> nat \<Rightarrow> unit + (unit, io_error) result" where
  "reap_body w _ i =
     (if millis 50 \<le> rw_elapsed w i then Inr (Inr ())
      else
        (case rw_wait w i of
           Reaped \<Rightarrow> Inl ()
         | NothingToReap \<Rightarrow> Inr (Inr ())
         | ReapFailed err \<Rightarrow> Inr (if raw_os_error err = Some ECHILD then Inr () else Inl err)))"

definition reap_adopted_children :: "reap_watch \<Rightarrow> (unit, io_error) result option" where
  "reap_adopted_children w = map_option fst (poll (reap_body w) () 0)"

text \<open>
  One of the two loops: the child's status before the probe of the group and after it, the children
  adopted, the probe and the time since the loop began.
\<close>

record group_watch =
  gw_try_wait :: "nat \<Rightarrow> (exit_status option, io_error) result"
  gw_reap :: "nat \<Rightarrow> reap_watch"
  gw_probe :: "nat \<Rightarrow> kill_result"
  gw_try_wait_after :: "nat \<Rightarrow> (exit_status option, io_error) result"
  gw_elapsed :: "nat \<Rightarrow> nat"

record group_env =
  ge_probe :: kill_result
  ge_sigterm :: kill_result
  ge_soft :: group_watch
  ge_sigkill :: kill_result
  ge_hard :: group_watch

text \<open>The loop after \<^verbatim>\<open>SIGTERM\<close>; whether there is a child to look at is the first argument.\<close>

definition term_body :: "bool \<Rightarrow> group_watch \<Rightarrow> nat \<Rightarrow> unit \<Rightarrow> nat \<Rightarrow> unit + (bool, io_error) result" where
  "term_body child w timeout _ i =
     (if \<not> gw_elapsed w i < timeout then Inr (Inr False)
      else
        (case (if child then gw_try_wait w i else Inr None) of
           Inl err \<Rightarrow> Inr (Inl err)
         | Inr _ \<Rightarrow>
             (case process_group_exists (gw_probe w i) of
                Inl err \<Rightarrow> Inr (Inl err)
              | Inr True \<Rightarrow> Inl ()
              | Inr False \<Rightarrow>
                  (case (if child then gw_try_wait_after w i else Inr None) of Inl err \<Rightarrow> Inr (Inl err) | Inr _ \<Rightarrow> Inr (Inr True)))))"

text \<open>The loop after \<^verbatim>\<open>SIGKILL\<close>.\<close>

definition kill_body :: "bool \<Rightarrow> bool \<Rightarrow> string \<Rightarrow> group_watch \<Rightarrow> unit \<Rightarrow> nat \<Rightarrow> unit + (unit, io_error) result option" where
  "kill_body child reap_adopted message w _ i =
     (case (if child then gw_try_wait w i else Inr None) of
        Inl err \<Rightarrow> Inr (Some (Inl err))
      | Inr _ \<Rightarrow>
          (case (if reap_adopted then reap_adopted_children (gw_reap w i) else Some (Inr ())) of
             None \<Rightarrow> Inr None
           | Some (Inl err) \<Rightarrow> Inr (Some (Inl err))
           | Some (Inr _) \<Rightarrow>
               (case process_group_exists (gw_probe w i) of
                  Inl err \<Rightarrow> Inr (Some (Inl err))
                | Inr False \<Rightarrow> Inr (Some (Inr ()))
                | Inr True \<Rightarrow>
                    if PROCESS_KILL_GRACE \<le> gw_elapsed w i then Inr (Some (Inl (OtherError message))) else Inl ())))"

definition end_group :: "bool \<Rightarrow> bool \<Rightarrow> string \<Rightarrow> group_env \<Rightarrow> u64 \<Rightarrow> (unit, io_error) result option" where
  "end_group child reap_adopted message e shutdown_timeout_sec =
     (case signal_group (ge_sigterm e) of
        Inl err \<Rightarrow> Some (Inl err)
      | Inr _ \<Rightarrow>
          (case map_option fst (poll (term_body child (ge_soft e) (secs shutdown_timeout_sec)) () 0) of
             None \<Rightarrow> None
           | Some (Inl err) \<Rightarrow> Some (Inl err)
           | Some (Inr True) \<Rightarrow> Some (Inr ())
           | Some (Inr False) \<Rightarrow>
               (case signal_group (ge_sigkill e) of
                  Inl err \<Rightarrow> Some (Inl err)
                | Inr _ \<Rightarrow> Option.bind (poll (kill_body child reap_adopted message (ge_hard e)) () 0) fst)))"

definition stop_service_child :: "group_env \<Rightarrow> u64 \<Rightarrow> (unit, io_error) result option" where
  "stop_service_child = end_group True True ''service process group survived bounded SIGKILL cleanup''"

definition terminate_service_group_with_reaping :: "group_env \<Rightarrow> u64 \<Rightarrow> bool \<Rightarrow> (unit, io_error) result option" where
  "terminate_service_group_with_reaping e shutdown_timeout_sec reap_adopted =
     (case process_group_exists (ge_probe e) of
        Inl err \<Rightarrow> Some (Inl err)
      | Inr False \<Rightarrow> Some (Inr ())
      | Inr True \<Rightarrow> end_group False reap_adopted ''service descendants survived bounded SIGKILL cleanup'' e shutdown_timeout_sec)"

definition terminate_service_group :: "group_env \<Rightarrow> u64 \<Rightarrow> (unit, io_error) result option" where
  "terminate_service_group e t = terminate_service_group_with_reaping e t True"

definition terminate_recorded_service_group :: "group_env \<Rightarrow> u64 \<Rightarrow> (unit, io_error) result option" where
  "terminate_recorded_service_group e t = terminate_service_group_with_reaping e t False"

section \<open>Ending a supervisor\<close>

record child_watch =
  cw_try_wait :: "nat \<Rightarrow> (exit_status option, io_error) result"
  cw_elapsed :: "nat \<Rightarrow> nat"

definition child_body :: "child_watch \<Rightarrow> nat \<Rightarrow> unit \<Rightarrow> nat \<Rightarrow> unit + (bool, io_error) result" where
  "child_body w timeout _ i =
     (case cw_try_wait w i of
        Inl err \<Rightarrow> Inr (Inl err)
      | Inr (Some _) \<Rightarrow> Inr (Inr True)
      | Inr None \<Rightarrow> if timeout \<le> cw_elapsed w i then Inr (Inr False) else Inl ())"

definition wait_child_bounded :: "child_watch \<Rightarrow> nat \<Rightarrow> (bool, io_error) result option" where
  "wait_child_bounded w timeout = map_option fst (poll (child_body w timeout) () 0)"

definition signal_process :: "u32 \<Rightarrow> kill_result \<Rightarrow> (unit, io_error) result" where
  "signal_process pid r =
     (if 2 ^ 31 \<le> unat pid then Inl (OtherError ''process ID out of range'') else signal_group r)"

record supervisor_env =
  se_pid :: u32
  se_wait :: child_watch
  se_sigterm :: kill_result
  se_term :: child_watch
  se_sigkill :: kill_result
  se_kill :: child_watch

definition stop_supervisor_process :: "supervisor_env \<Rightarrow> nat \<Rightarrow> (bool, io_error) result option" where
  "stop_supervisor_process e expected =
     (case wait_child_bounded (se_wait e) expected of
        None \<Rightarrow> None
      | Some (Inl err) \<Rightarrow> Some (Inl err)
      | Some (Inr True) \<Rightarrow> Some (Inr True)
      | Some (Inr False) \<Rightarrow>
          (case signal_process (se_pid e) (se_sigterm e) of
             Inl err \<Rightarrow> Some (Inl err)
           | Inr _ \<Rightarrow>
               (case wait_child_bounded (se_term e) PROCESS_KILL_GRACE of
                  None \<Rightarrow> None
                | Some (Inl err) \<Rightarrow> Some (Inl err)
                | Some (Inr True) \<Rightarrow> Some (Inr True)
                | Some (Inr False) \<Rightarrow>
                    (case signal_process (se_pid e) (se_sigkill e) of
                       Inl err \<Rightarrow> Some (Inl err)
                     | Inr _ \<Rightarrow> wait_child_bounded (se_kill e) PROCESS_KILL_GRACE))))"

definition show_int :: "int \<Rightarrow> string" where
  "show_int n = (if n < 0 then ''-'' @ show_nat (nat (- n)) else show_nat (nat n))"

text \<open>What the monitor thread records: the last status and whether the supervisor was reaped.\<close>

definition monitor_outcome ::
  "string \<Rightarrow> (supervisor_status, io_error) result \<Rightarrow> (bool, io_error) result \<Rightarrow> (unit, string) result" where
  "monitor_outcome name status reaped =
     (case reaped of
        Inl err \<Rightarrow> Inl (name @ '': supervisor reap failed: '' @ show_io_error err)
      | Inr False \<Rightarrow> Inl (name @ '': supervisor reap was not proven'')
      | Inr True \<Rightarrow>
          (case status of
             Inl err \<Rightarrow> Inl (name @ '': supervisor status failed: '' @ show_io_error err)
           | Inr SvStopped \<Rightarrow> Inr ()
           | Inr (SvExited code) \<Rightarrow> Inl (name @ '' exited ('' @ show_int code @ '')'')
           | Inr (SvFailed message) \<Rightarrow> Inl (name @ '': '' @ message)
           | Inr (SvSpawned pid pgid) \<Rightarrow> Inl (name @ '': unexpected supervisor status Spawned { pid: ''
               @ show_nat (unat pid) @ '', pgid: '' @ show_int pgid @ '' }'')))"

section \<open>The supervisor\<close>

datatype control_read = ControlRead | ControlWouldBlock | ControlFailed io_error

datatype supervise_event = ServiceExited exit_status | StopRequested | SuperviseFailed io_error

text \<open>
  What the supervisor's loop observes in each iteration, then what ending the group, writing the last
  status and the final checks observe.
\<close>

record supervise_env =
  sy_try_wait :: "nat \<Rightarrow> (exit_status option, io_error) result"
  sy_control :: "nat \<Rightarrow> control_read"
  sy_group :: group_env
  sy_write :: "(unit, io_error) result"
  sy_finish_probe :: kill_result
  sy_finish_wait :: child_watch

definition supervise_body :: "supervise_env \<Rightarrow> unit \<Rightarrow> nat \<Rightarrow> unit + supervise_event" where
  "supervise_body e _ i =
     (case sy_try_wait e i of
        Inl err \<Rightarrow> Inr (SuperviseFailed err)
      | Inr (Some status) \<Rightarrow> Inr (ServiceExited status)
      | Inr None \<Rightarrow>
          (case sy_control e i of
             ControlRead \<Rightarrow> Inr StopRequested
           | ControlWouldBlock \<Rightarrow> Inl ()
           | ControlFailed err \<Rightarrow> Inr (SuperviseFailed err)))"

definition supervised_exit_code :: "exit_status \<Rightarrow> int" where
  "supervised_exit_code status =
     (case es_signal status of
        Some s \<Rightarrow> 128 + s
      | None \<Rightarrow> (case es_code status of Some c \<Rightarrow> c | None \<Rightarrow> 1))"

definition supervisor_finish :: "supervise_env \<Rightarrow> (unit, io_error) result option" where
  "supervisor_finish e =
     (case process_group_exists (sy_finish_probe e) of
        Inl err \<Rightarrow> Some (Inl err)
      | Inr True \<Rightarrow> Some (Inl (OtherError ''service process group still exists at supervisor completion''))
      | Inr False \<Rightarrow>
          map_option (\<lambda>r. and_then r (\<lambda>reaped. ensure reaped
              (OtherError ''service child was not reaped at supervisor completion'')))
            (wait_child_bounded (sy_finish_wait e) 0))"

text \<open>The end of the loop with the status it reports; an error is followed by the guard's cleanup.\<close>

definition supervise_end ::
  "supervise_env \<Rightarrow> (unit, io_error) result option \<Rightarrow> supervisor_status \<Rightarrow> ((unit, io_error) result \<times> supervisor_status option) option" where
  "supervise_end e ended status =
     (case ended of
        None \<Rightarrow> None
      | Some (Inl err) \<Rightarrow> Some (Inl err, None)
      | Some (Inr _) \<Rightarrow>
          (case sy_write e of
             Inl err \<Rightarrow> Some (Inl err, None)
           | Inr _ \<Rightarrow> map_option (\<lambda>r. (r, Some status)) (supervisor_finish e)))"

definition supervise_loop ::
  "supervise_env \<Rightarrow> u64 \<Rightarrow> ((unit, io_error) result \<times> supervisor_status option) option" where
  "supervise_loop e shutdown_timeout_sec =
     (case map_option fst (poll (supervise_body e) () 0) of
        None \<Rightarrow> None
      | Some (ServiceExited status) \<Rightarrow>
          supervise_end e (terminate_service_group (sy_group e) shutdown_timeout_sec) (SvExited (supervised_exit_code status))
      | Some StopRequested \<Rightarrow> supervise_end e (stop_service_child (sy_group e) shutdown_timeout_sec) SvStopped
      | Some (SuperviseFailed err) \<Rightarrow> Some (Inl err, None))"

section \<open>Stopping a service\<close>

record stop_env =
  sx_monitor :: bool
  sx_wait :: thread_watch
  sx_wait_term :: thread_watch
  sx_join :: thread_watch
  sx_outcome :: "(unit, string) result option"
  sx_group :: group_env
  sx_readiness :: "thread_watch option"
  sx_outputs :: "thread_watch list"

record service_stop_error =
  ss_message :: string
  ss_cleanup_unproven :: bool

definition stop_expected :: "durable_service_process \<Rightarrow> nat" where
  "stop_expected p = duration_add (duration_add (secs (ds_shutdown_timeout_sec p)) PROCESS_KILL_GRACE) (secs 1)"

text \<open>The monitor thread: its errors, whether the cleanup is unproven, and the signals tried on the supervisor.\<close>

definition stop_monitor :: "stop_env \<Rightarrow> durable_service_process \<Rightarrow> (string list \<times> bool \<times> signal list) option" where
  "stop_monitor e p =
     (if \<not> sx_monitor e then Some ([], False, [])
      else
        Option.bind (wait_thread_finished (sx_wait e) (stop_expected p)) (\<lambda>finished.
        Option.bind (if finished then Some []
          else map_option (\<lambda>finished. if finished then [SIGTERM] else [SIGTERM, SIGKILL])
            (wait_thread_finished (sx_wait_term e) PROCESS_KILL_GRACE)) (\<lambda>signals.
        map_option (\<lambda>joined. if joined then ([], False, signals)
            else ([''supervisor was not reaped within its bounded cleanup''], True, signals))
          (join_thread_bounded (sx_join e) PROCESS_KILL_GRACE))))"

definition outcome_errors :: "(unit, string) result option \<Rightarrow> string list \<times> bool" where
  "outcome_errors outcome =
     (case outcome of
        Some (Inr _) \<Rightarrow> ([], False)
      | Some (Inl err) \<Rightarrow> ([err], False)
      | None \<Rightarrow> ([''supervisor produced no bounded cleanup outcome''], True))"

definition group_errors :: "durable_service_process \<Rightarrow> (unit, io_error) result \<Rightarrow> string list \<times> bool" where
  "group_errors p r =
     (case r of
        Inr _ \<Rightarrow> ([], False)
      | Inl err \<Rightarrow> ([''service group '' @ show_int (ds_service_pgid p) @ '' cleanup was not proven: '' @ show_io_error err], True))"

fun join_drains :: "string \<Rightarrow> thread_watch list \<Rightarrow> string list option" where
  "join_drains message [] = Some []"
| "join_drains message (w # ws) =
     Option.bind (join_thread_bounded w PROCESS_KILL_GRACE) (\<lambda>joined.
     map_option (\<lambda>errors. if joined then errors else message # errors) (join_drains message ws))"

fun join_messages :: "string list \<Rightarrow> string" where
  "join_messages [] = []"
| "join_messages [m] = m"
| "join_messages (m # ms) = m @ ''; '' @ join_messages ms"

definition stop_service :: "stop_env \<Rightarrow> durable_service_process \<Rightarrow> ((unit, service_stop_error) result \<times> signal list) option" where
  "stop_service e p =
     Option.bind (stop_monitor e p) (\<lambda>(errors1, unproven1, signals).
     Option.bind (terminate_recorded_service_group (sx_group e) (ds_shutdown_timeout_sec p)) (\<lambda>ended.
     Option.bind (join_drains ''readiness drain did not stop within its bound''
       (case sx_readiness e of None \<Rightarrow> [] | Some w \<Rightarrow> [w])) (\<lambda>errors4.
     map_option (\<lambda>errors5.
       let (errors2, unproven2) = outcome_errors (sx_outcome e);
           (errors3, unproven3) = group_errors p ended;
           errors = errors1 @ errors2 @ errors3 @ errors4 @ errors5
       in (if errors = [] then Inr ()
           else Inl \<lparr>ss_message = join_messages errors, ss_cleanup_unproven = (unproven1 \<or> unproven2 \<or> unproven3)\<rparr>, signals))
     (join_drains ''service output drain did not stop within its bound'' (sx_outputs e)))))"

section \<open>Every loop returns\<close>

definition paced_reap :: "reap_watch \<Rightarrow> bool" where
  "paced_reap w \<longleftrightarrow> paced 1 (rw_elapsed w)"

definition paced_group :: "group_env \<Rightarrow> bool" where
  "paced_group e \<longleftrightarrow> paced (millis 25) (gw_elapsed (ge_soft e)) \<and> paced (millis 25) (gw_elapsed (ge_hard e))
     \<and> (\<forall>i. paced_reap (gw_reap (ge_hard e) i))"

definition paced_thread :: "thread_watch \<Rightarrow> bool" where
  "paced_thread w \<longleftrightarrow> paced POLL_INTERVAL (tw_elapsed w)"

lemma reap_total: "paced_reap w \<Longrightarrow> reap_adopted_children w \<noteq> None"
  using poll_total [of 1 "rw_elapsed w" "millis 50" "reap_body w" "()" 0]
  by (auto simp: paced_reap_def reap_adopted_children_def reap_body_def)

lemma kill_total:
  assumes "paced (millis 25) (gw_elapsed w)" and "\<And>i. paced_reap (gw_reap w i)"
  shows "Option.bind (poll (kill_body child reap_adopted message w) () 0) fst \<noteq> None"
proof -
  have "\<exists>r. kill_body child reap_adopted message w u i = Inr r" if "PROCESS_KILL_GRACE \<le> gw_elapsed w i" for u i
    using that by (auto simp: kill_body_def split: sum.split option.split bool.split)
  from poll_returns [of "millis 25" "gw_elapsed w" PROCESS_KILL_GRACE "kill_body child reap_adopted message w" "()" 0, OF assms(1) this]
  obtain r k where
    k: "poll (kill_body child reap_adopted message w) () 0 = Some (r, k)" by blast
  from poll_returned [OF k] have "kill_body child reap_adopted message w () k = Inr r" by simp
  then have "r \<noteq> None"
    using reap_total [OF assms(2), of k] by (auto simp: kill_body_def split: sum.splits option.splits bool.splits if_splits)
  with k show ?thesis by simp
qed

lemma end_group_total:
  assumes "paced_group e"
  shows "end_group child reap_adopted message e t \<noteq> None"
proof -
  have "map_option fst (poll (term_body child (ge_soft e) (secs t)) () 0) \<noteq> None"
    using assms poll_total [of "millis 25" "gw_elapsed (ge_soft e)" "secs t" "term_body child (ge_soft e) (secs t)" "()" 0]
    by (auto simp: paced_group_def term_body_def)
  moreover have "Option.bind (poll (kill_body child reap_adopted message (ge_hard e)) () 0) fst \<noteq> None"
    by (rule kill_total) (use assms in \<open>simp_all add: paced_group_def\<close>)
  ultimately show ?thesis unfolding end_group_def by (auto split: sum.split option.split bool.split)
qed

lemma terminate_group_total: "paced_group e \<Longrightarrow> terminate_service_group_with_reaping e t b \<noteq> None"
  using end_group_total [of e] by (auto simp: terminate_service_group_with_reaping_def split: sum.split bool.split)

lemma thread_total:
  assumes "paced_thread w"
  shows "wait_thread_finished w timeout = Some (tw_last w)"
proof -
  have "\<exists>r k. poll (\<lambda>_ i. if \<not> tw_finished w i \<and> tw_elapsed w i < timeout then Inl () else Inr ()) () 0 = Some (r, k)"
    using poll_returns [OF assms [unfolded paced_thread_def], of timeout
      "\<lambda>_ i. if \<not> tw_finished w i \<and> tw_elapsed w i < timeout then Inl () else Inr ()" "()" 0] by fastforce
  then show ?thesis by (auto simp: wait_thread_finished_def)
qed

lemma join_total: "paced_thread w \<Longrightarrow> join_thread_bounded w timeout = Some (tw_last w \<and> tw_joined w)"
  by (simp add: join_thread_bounded_def thread_total)


section \<open>A finished stop has seen the group disappear\<close>





text \<open>
  The loop of the supervisor runs while the service does. It ends once the service exits or the
  control channel can be read, and a normal end has seen the group gone.
\<close>

lemma supervise_returns:
  assumes "\<exists>i. sy_try_wait e i \<noteq> Inr None \<or> sy_control e i \<noteq> ControlWouldBlock"
    and "paced_group (sy_group e)" and "paced (millis 25) (cw_elapsed (sy_finish_wait e))"
  shows "supervise_loop e t \<noteq> None"
proof -
  from assms(1) obtain n where n: "sy_try_wait e n \<noteq> Inr None \<or> sy_control e n \<noteq> ControlWouldBlock" by blast
  have "poll (supervise_body e) () i \<noteq> None" if "i \<le> n" for i
    using that
  proof (induction "n - i" arbitrary: i)
    case 0
    with n have "\<exists>r. supervise_body e () n = Inr r"
      by (auto simp: supervise_body_def split: sum.split option.split control_read.split)
    with 0 show ?case by (subst poll.simps) auto
  next
    case (Suc k)
    then show ?case by (subst poll.simps) (auto split: sum.split)
  qed
  from this [of 0] have "map_option fst (poll (supervise_body e) () 0) \<noteq> None" by simp
  moreover have "supervisor_finish e \<noteq> None"
  proof -
    have "\<exists>r. wait_child_bounded (sy_finish_wait e) 0 = Some r"
      unfolding wait_child_bounded_def
      by (rule poll_total [OF assms(3), of 0]) (auto simp: child_body_def split: sum.split option.split)
    then show ?thesis by (auto simp: supervisor_finish_def split: sum.split bool.split)
  qed
  then have "supervise_end e (Some r) status \<noteq> None" for r status
    by (auto simp: supervise_end_def split: sum.split)
  moreover have "terminate_service_group (sy_group e) t \<noteq> None" "stop_service_child (sy_group e) t \<noteq> None"
    using terminate_group_total [OF assms(2)] end_group_total [OF assms(2)]
    by (simp_all add: terminate_service_group_def stop_service_child_def)
  ultimately show ?thesis unfolding supervise_loop_def by (auto split: option.split supervise_event.split)
qed

lemma supervise_ends_gone:
  assumes "supervise_loop e t = Some (Inr u, status)"
  shows "seen_gone (sy_finish_probe e)" and "\<exists>s. status = Some s"
proof -
  have f: "seen_gone (sy_finish_probe e)" if "supervisor_finish e = Some (Inr u)" for u
    using that by (auto simp: supervisor_finish_def seen_gone_def split: sum.splits bool.splits)
  have "seen_gone (sy_finish_probe e) \<and> (\<exists>s. status = Some s)" if "supervise_end e ended s = Some (Inr u, status)" for ended s
    using that f by (auto simp: supervise_end_def split: option.splits sum.splits)
  with assms show "seen_gone (sy_finish_probe e)" and "\<exists>s. status = Some s"
    unfolding supervise_loop_def by (auto split: option.splits supervise_event.splits)
qed

text \<open>A service that is waited for becomes ready only on its readiness message.\<close>

lemma wait_ready_result:
  assumes "paced POLL_INTERVAL (\<lambda>i. rp_now (polls i))" and "\<And>t. thread = Some t \<Longrightarrow> paced_thread t"
  shows "\<exists>r i. wait_ready polls thread startup session name = Some r
    \<and> (r = Inr () \<longrightarrow> rp_recv (polls i) = RecvReady \<and> \<not> rp_failed (polls i) \<and> \<not> rp_failed_after (polls i)
        \<and> rp_now (polls i) < min startup session)"
proof -
  let ?body = "wait_ready_body polls thread startup session name"
  have "\<exists>r. ?body u i = Inr r" if "min startup session \<le> rp_now (polls i)" for u i
    using that by (simp add: wait_ready_body_def Let_def)
  from poll_returns [of POLL_INTERVAL "\<lambda>i. rp_now (polls i)" "min startup session" ?body "()" 0, OF assms(1) this]
  obtain r k where k: "poll ?body () 0 = Some (r, k)" by blast
  from poll_returned [OF k] have b: "?body () k = Inr r" by simp
  then have "r \<noteq> None"
    using assms(2) join_total by (auto simp: wait_ready_body_def Let_def split: if_splits recv.splits option.splits)
  moreover from b have "r = Some (Inr ()) \<longrightarrow> rp_recv (polls k) = RecvReady \<and> \<not> rp_failed (polls k)
      \<and> \<not> rp_failed_after (polls k) \<and> rp_now (polls k) < min startup session"
    by (auto simp: wait_ready_body_def Let_def split: if_splits recv.splits)
  ultimately show ?thesis using k by (auto simp: wait_ready_def)
qed






section \<open>A supervisor that is never reaped\<close>

definition done_thread :: thread_watch where
  "done_thread = \<lparr>tw_finished = \<lambda>_. True, tw_elapsed = \<lambda>i. i * POLL_INTERVAL, tw_last = True, tw_joined = True\<rparr>"

definition gone_group :: group_env where
  "gone_group =
     (let w = \<lparr>gw_try_wait = \<lambda>_. Inr None, gw_reap = \<lambda>_. \<lparr>rw_wait = \<lambda>_. NothingToReap, rw_elapsed = \<lambda>i. i\<rparr>,
        gw_probe = \<lambda>_. None, gw_try_wait_after = \<lambda>_. Inr None, gw_elapsed = \<lambda>i. i * millis 25\<rparr>
      in \<lparr>ge_probe = Some (OsError ESRCH ''no such process''), ge_sigterm = None, ge_soft = w, ge_sigkill = None, ge_hard = w\<rparr>)"

definition sample_stop :: "(unit, string) result \<Rightarrow> stop_env" where
  "sample_stop outcome = \<lparr>sx_monitor = True, sx_wait = done_thread, sx_wait_term = done_thread, sx_join = done_thread,
     sx_outcome = Some outcome, sx_group = gone_group, sx_readiness = None, sx_outputs = [done_thread, done_thread]\<rparr>"

definition sample_process :: durable_service_process where
  "sample_process = \<lparr>ds_name = ''metro'', ds_supervisor_pid = 42, ds_service_pid = 43, ds_service_pgid = 43, ds_shutdown_timeout_sec = 1\<rparr>"


lemma stop_sample:
  "stop_service (sample_stop outcome) sample_process =
     Some (case outcome of Inr _ \<Rightarrow> Inr () | Inl err \<Rightarrow> Inl \<lparr>ss_message = err, ss_cleanup_unproven = False\<rparr>, [])"
proof -
  have "terminate_recorded_service_group gone_group t = Some (Inr ())" for t
    by (simp add: terminate_recorded_service_group_def terminate_service_group_with_reaping_def gone_group_def Let_def
        process_group_exists_def)
  moreover have "paced_thread done_thread" by (simp add: paced_thread_def done_thread_def POLL_INTERVAL_def millis_def paced_def)
  moreover have "tw_last done_thread" "tw_joined done_thread" by (simp_all add: done_thread_def)
  ultimately show ?thesis
    by (cases outcome) (simp_all add: stop_service_def stop_monitor_def sample_stop_def thread_total join_total
        outcome_errors_def group_errors_def)
qed


text \<open>
  A supervisor that was not reaped within its bound and has not reported the service stopped: the stop
  fails, but its cleanup counts as proven, so the session's record is removed.
\<close>

lemma unreaped_supervisor_counts_as_proven:
  "stop_service (sample_stop (monitor_outcome ''metro'' status (Inr False))) sample_process
     = Some (Inl \<lparr>ss_message = ''metro: supervisor reap was not proven'', ss_cleanup_unproven = False\<rparr>, [])"
  by (simp add: stop_sample monitor_outcome_def)

end
