(* ===== verification/Spec2Isabelle.thy ===== *)
theory Spec2Isabelle
  imports Bearer_Token Protocol Update_Transaction Source_Extraction Session_Scenarios Output_Stream
    Artifact_Gc Admission Stale_Sessions Services
begin

text \<open>
  Verification of \<^verbatim>\<open>indentured-server\<close>, a build daemon with a client. The daemon runs tasks that its
  configuration names, as a separate user, on source trees that clients upload; it streams their
  output, returns the artifacts a task allows, and keeps sessions: workspaces that stay alive for
  actions and live source updates, with services running beside them.

  \<^bold>\<open>The parts and how they interact.\<close> At start-up the daemon reads and validates its configuration
  (\<^verbatim>\<open>src/config/mod.rs\<close>), resolves the task identity (\<^verbatim>\<open>src/user.rs\<close>, \<^verbatim>\<open>src/build.rs\<close>) and reconciles
  the sessions a previous daemon left behind (\<^verbatim>\<open>src/sessions.rs\<close>). A request (\<^verbatim>\<open>src/protocol.rs\<close>) brings a
  source archive, which the client packaged (\<^verbatim>\<open>src/client_source.rs\<close>) and the daemon checks and unpacks
  (\<^verbatim>\<open>src/build.rs\<close>). A build then runs the phases of its task, collects artifacts (\<^verbatim>\<open>src/artifacts.rs\<close>)
  and reports. A session keeps its workspace: a state machine under one lock for each session decides
  which of the client's requests, workers, timers and service monitors may act and who cleans up
  (\<^verbatim>\<open>src/sessions.rs\<close>); updates replace files of the live workspace as a transaction
  (\<^verbatim>\<open>src/source_updates.rs\<close>); services run under supervisors (\<^verbatim>\<open>src/services.rs\<close>).

  \<^bold>\<open>Conventions.\<close> A structure is a record and an enumeration a datatype, with the names of the source.
  A Rust \<^verbatim>\<open>Result\<close> is a sum with the error on the left; \<^verbatim>\<open>?\<close> is \<^const>\<open>and_then\<close>, or \<^const>\<open>bind_io\<close> for
  code with effects, whose world is an explicit state. Integers keep their width where arithmetic may
  wrap or saturate; byte strings are lists of characters. Durations and instants are nanoseconds. A
  panic is a value of its own where the code can panic. Third-party and generated code (zip, JSON,
  TOML, glob, SHA-256) and the operating system are arguments of the definitions; what is assumed of
  them is a named hypothesis of the theorem that needs it.

  \<^bold>\<open>Foundations.\<close>
  \<^item> \<^verbatim>\<open>Prelude\<close>, \<^verbatim>\<open>Rust_Str\<close>, \<^verbatim>\<open>Effect\<close>: results, byte strings and paths of the standard library, and
    effects. The locale \<open>effect_rel\<close> proves once that a relation every primitive step respects is
    respected by every computation; it is interpreted for the events of a build and for the records
    of sessions.
  \<^item> \<^verbatim>\<open>Path_Registry\<close>, \<^verbatim>\<open>Path_Tree\<close>, \<^verbatim>\<open>Byte_Budget\<close>, \<^verbatim>\<open>Transitions\<close>, \<^verbatim>\<open>Polling\<close>: the contracts several parts
    share, as locales interpreted on the code's own functions: the duplicate check of paths, the check
    that paths form a tree (client and daemon), saturating byte counters (packaging, the check before
    extraction, the extraction, artifacts), termination of a transition system by a ranking, and loops
    that poll and sleep.
  \<^item> \<^verbatim>\<open>Posix_Fs\<close>, \<^verbatim>\<open>Zip_Archive\<close>: the file system that updates rely on, with a fault and a cancellation
    possible at every system call, and what the zip reader may report of an untrusted archive.

  \<^bold>\<open>Components.\<close>
  \<^item> \<^verbatim>\<open>Bearer_Token\<close> (\<^verbatim>\<open>src/bearer_token.rs\<close>): the scanner accepts exactly the grammar.
  \<^item> \<^verbatim>\<open>Validation\<close>, \<^verbatim>\<open>Protocol\<close> (\<^verbatim>\<open>src/validation.rs\<close>, \<^verbatim>\<open>src/protocol.rs\<close>): containment of validated paths,
    round trip of revisions, and exactly which metadata is accepted.
  \<^item> \<^verbatim>\<open>Config\<close>, \<^verbatim>\<open>Config_Safety\<close> (\<^verbatim>\<open>src/config/mod.rs\<close>): the whole validation in the order of its checks,
    and what a validated configuration guarantees: runnable executions, limits in range, closed
    exposure.
  \<^item> \<^verbatim>\<open>Client_Archive\<close> (\<^verbatim>\<open>src/client_source.rs\<close>): exactly which plans and link targets are accepted, an
    aggregate hash whose input determines the manifest, bounded draining.
  \<^item> \<^verbatim>\<open>Build_Error\<close>, \<^verbatim>\<open>Source_Archive\<close>, \<^verbatim>\<open>Source_Extraction\<close> (\<^verbatim>\<open>extract_source_archive_inner\<close>): exactly which
    archives pass the check, that the extraction refines a reference without a file system whether the
    file system folds case or not, that the bytes written are bounded, and that the tree is safe.
  \<^item> \<^verbatim>\<open>Source_Update\<close>, \<^verbatim>\<open>Update_Transaction\<close> (\<^verbatim>\<open>src/source_updates.rs\<close>): an update that succeeds installs
    exactly its changes; one that fails and reports a rollback leaves every file as it was, for every
    schedule of faults and of cancellation. The locale \<open>undo_log\<close> is the contract of the rollback.
  \<^item> \<^verbatim>\<open>Process\<close>, \<^verbatim>\<open>Output_Stream\<close> (waiting, signals and output of \<^verbatim>\<open>src/build.rs\<close>): every wait returns, an
    outcome means that the process group was seen gone, and the output forwarded under every
    interleaving of the two readers stays within the limit.
  \<^item> \<^verbatim>\<open>User\<close>, \<^verbatim>\<open>Run_As\<close> (\<^verbatim>\<open>src/user.rs\<close>, identity code of \<^verbatim>\<open>src/build.rs\<close>): look-ups return; a child of a root
    daemon has exactly the task identity; the environment of a task.
  \<^item> \<^verbatim>\<open>Artifact_Selection\<close>, \<^verbatim>\<open>Artifact_Archive\<close>, \<^verbatim>\<open>Artifact_Gc\<close> (\<^verbatim>\<open>src/artifacts.rs\<close>): pruning the walk loses no
    selected file; an archive holds exactly the opened files within both limits; publication is
    complete or leaves nothing; what one round of retention removes.
  \<^item> \<^verbatim>\<open>Build_Phases\<close>, \<^verbatim>\<open>Admission\<close> (\<^verbatim>\<open>validate_request\<close> and \<^verbatim>\<open>execute_build\<close> with what they call): a build returns
    and reports its end exactly once, and an admitted task meets no panic.
  \<^item> \<^verbatim>\<open>Session_State\<close> (every critical section of the session manager as a function on the session's
    entry), \<^verbatim>\<open>Session_Lifecycle\<close> (the threads that act on a session as a step relation over these
    functions), \<^verbatim>\<open>Session_Guarantees\<close> and \<^verbatim>\<open>Session_Scenarios\<close>: one party is responsible for the cleanup and
    it happens once, a usable session is durable, a stop that waits is explicit, and every fair run of
    a terminating session terminates. A concrete run shows where the first guarantee needs its
    hypothesis.
  \<^item> \<^verbatim>\<open>Session_Metadata\<close>, \<^verbatim>\<open>Stale_Sessions\<close> (the protected records of \<^verbatim>\<open>src/sessions.rs\<close>): a record is replaced
    atomically under every schedule of faults and reads back; reconciliation fails closed and otherwise
    completes. The lemma \<open>unreadable_record_is_cleaned\<close> shows what a failing read does.
  \<^item> \<^verbatim>\<open>Services\<close> (\<^verbatim>\<open>src/services.rs\<close>): round trip of statuses under every chunking, exact readiness, the
    diagnostic tail, the supervisor's loop, and that stopping a service returns and claims no more than
    it has seen. The lemma \<open>unreaped_supervisor_counts_as_proven\<close> shows the limit of that claim.

  \<^bold>\<open>Bounds and termination.\<close> No definition uses fuel. Loops over data are structural or have a
  termination proof. Loops that poll are partial functions in the option type, where not returning is
  \<^const>\<open>None\<close>; the observations of the operating system are functions of the iteration, and the hypothesis
  under which a loop is proved to return is that its clock advances between iterations by at least
  the time the loop sleeps (\<^const>\<open>paced\<close>). Reaping adopted children does not sleep; there the hypothesis is
  a clock that moves at all. The supervisor's loop is proved to return once its service exits or its
  control channel can be read. Limits on bytes hold with the saturating arithmetic of the code, for
  limits below the largest value of the counter.

  \<^bold>\<open>Not modelled.\<close> The HTTP and socket front end (\<^verbatim>\<open>src/http.rs\<close>, \<^verbatim>\<open>src/http/host.rs\<close>), the client program
  (\<^verbatim>\<open>src/bin\<close>), host observation (\<^verbatim>\<open>src/host_observation.rs\<close>) and the set-up of logging: they pass
  requests and results between libraries and the operations modelled here. Of the client's packaging,
  running git and writing the archive; of services, creating pipes and spawning the supervisor: system
  calls. The session variants of a build (\<^verbatim>\<open>initialize_session\<close>, \<^verbatim>\<open>run_session_action\<close>,
  \<^verbatim>\<open>run_session_teardown\<close>) run the phase code of \<^verbatim>\<open>Build_Phases\<close>; the session model takes their results as
  steps, and reconciliation records a teardown without running it. The writer thread of a task's
  input and the threads that bridge event channels are represented by their results. Overflow of
  \<^verbatim>\<open>Instant\<close> is modelled where a session is reserved and not in the waiting loops. Memory and the thread
  scheduler are those of the step relations: a critical section is one step.
\<close>

end
